(* ===== verification/Emu_Prelude.thy ===== *)
theory Emu_Prelude
  imports Main "HOL-Library.Char_ord" "HOL-Library.List_Lexorder" "HOL-Library.Product_Lexorder"
    "HOL-Library.Sublist"
begin

text \<open>
  The vocabulary every component shares: Go's fixed-width integers and truncating division, the
  functions of the standard packages strings and strconv the source calls, and the lemmas on
  lists, sorting and options the component proofs rest on. Go strings are byte strings, so
  \<^typ>\<open>string\<close> (a list of 8-bit characters) models them exactly, and \<^const>\<open>length\<close> is Go's
  \<^verbatim>\<open>len\<close>.
\<close>

named_theorems str_defs \<open>unfoldings of the models of package strings\<close>
named_theorems repo_defs \<open>unfoldings of single SQL statements and repository methods\<close>
named_theorems wf_intros \<open>preservation of table well-formedness, one rule per operation\<close>

section \<open>Integers\<close>

text \<open>
  Go's \<^verbatim>\<open>int\<close> and \<^verbatim>\<open>int64\<close> are 64-bit two's complement on the platforms the program is
  built for. A value is an \<^typ>\<open>int\<close>; \<open>i64\<close> is the wrap-around after an operation that can
  leave the range.
\<close>

definition i64 :: "int \<Rightarrow> int" where
  "i64 x = (x + 2 ^ 63) mod 2 ^ 64 - 2 ^ 63"

definition in_i64 :: "int \<Rightarrow> bool" where
  "in_i64 x \<longleftrightarrow> - (2 ^ 63) \<le> x \<and> x < 2 ^ 63"

lemma i64_id [simp]: "in_i64 x \<Longrightarrow> i64 x = x"
  by (simp add: i64_def in_i64_def)

lemma i64_range: "in_i64 (i64 x)"
proof -
  have "0 \<le> (x + 2 ^ 63) mod 2 ^ 64" "(x + 2 ^ 63) mod 2 ^ 64 < 2 ^ 64"
    by (simp_all add: pos_mod_bound)
  then show ?thesis by (simp add: i64_def in_i64_def)
qed

lemma i64_idem [simp]: "i64 (i64 x) = i64 x"
  by (simp add: i64_range)

lemma in_i64_le: "0 \<le> y \<Longrightarrow> y \<le> x \<Longrightarrow> in_i64 x \<Longrightarrow> in_i64 y"
  by (simp add: in_i64_def)

text \<open>Go's integer division truncates towards zero.\<close>

definition go_div :: "int \<Rightarrow> int \<Rightarrow> int" where
  "go_div a b = sgn a * sgn b * (\<bar>a\<bar> div \<bar>b\<bar>)"

lemma go_div_nonneg [simp]: "0 \<le> a \<Longrightarrow> 0 < b \<Longrightarrow> go_div a b = a div b"
  by (cases "a = 0") (simp_all add: go_div_def)

section \<open>Package strings\<close>

abbreviation slash :: char where "slash \<equiv> CHR ''/''"
abbreviation colon :: char where "colon \<equiv> CHR '':''"

text \<open>\<^verbatim>\<open>strings.Split(s, sep)\<close> for a one-byte separator: never empty.\<close>

fun go_split :: "char \<Rightarrow> string \<Rightarrow> string list" where
  "go_split c [] = [[]]"
| "go_split c (x # xs) =
     (if x = c then [] # go_split c xs
      else (case go_split c xs of [] \<Rightarrow> [[x]] | y # ys \<Rightarrow> (x # y) # ys))"

fun go_join :: "char \<Rightarrow> string list \<Rightarrow> string" where
  "go_join c [] = []"
| "go_join c [x] = x"
| "go_join c (x # y # ys) = x @ c # go_join c (y # ys)"

lemma go_split_ne [simp]: "go_split c s \<noteq> []"
  by (induction s) (auto split: list.splits)

lemma go_split_nosep: "c \<notin> set s \<Longrightarrow> go_split c s = [s]"
  by (induction s) auto

lemma go_split_append: "c \<notin> set a \<Longrightarrow> go_split c (a @ c # b) = a # go_split c b"
  by (induction a) auto

lemma go_join_Cons: "ys \<noteq> [] \<Longrightarrow> go_join c (x # ys) = x @ c # go_join c ys"
  by (cases ys) auto

lemma go_join_split: "go_join c (go_split c s) = s"
proof (induction s)
  case (Cons x s)
  obtain y ys where y: "go_split c s = y # ys"
    by (cases "go_split c s") auto
  show ?case
  proof (cases "x = c")
    case True
    with Cons y show ?thesis by (simp add: go_join_Cons)
  next
    case False
    with Cons y show ?thesis by (cases ys) auto
  qed
qed simp

lemma go_split_seps: "p \<in> set (go_split c s) \<Longrightarrow> c \<notin> set p"
  by (induction s arbitrary: p) (auto split: list.splits if_splits)

text \<open>\<^verbatim>\<open>strings.Cut\<close> around a one-byte separator: before, after, found.\<close>

fun go_cut :: "char \<Rightarrow> string \<Rightarrow> string \<times> string \<times> bool" where
  "go_cut c [] = ([], [], False)"
| "go_cut c (x # xs) =
     (if x = c then ([], xs, True)
      else (case go_cut c xs of (b, a, f) \<Rightarrow> (x # b, a, f)))"

lemma go_cut_append: "c \<notin> set a \<Longrightarrow> go_cut c (a @ c # b) = (a, b, True)"
  by (induction a) auto

lemma go_cut_nosep: "c \<notin> set s \<Longrightarrow> go_cut c s = (s, [], False)"
  by (induction s) auto

text \<open>\<^verbatim>\<open>strings.HasPrefix\<close>, \<^verbatim>\<open>TrimPrefix\<close>, \<^verbatim>\<open>HasSuffix\<close>, \<^verbatim>\<open>TrimSuffix\<close>.\<close>

definition has_prefix :: "string \<Rightarrow> string \<Rightarrow> bool" where
  "has_prefix s p \<longleftrightarrow> take (length p) s = p"

definition trim_prefix :: "string \<Rightarrow> string \<Rightarrow> string" where
  "trim_prefix s p = (if has_prefix s p then drop (length p) s else s)"

definition has_suffix :: "string \<Rightarrow> string \<Rightarrow> bool" where
  "has_suffix s p \<longleftrightarrow> has_prefix (rev s) (rev p)"

definition trim_suffix :: "string \<Rightarrow> string \<Rightarrow> string" where
  "trim_suffix s p = (if has_suffix s p then take (length s - length p) s else s)"

lemma has_prefix_iff: "has_prefix s p \<longleftrightarrow> (\<exists>r. s = p @ r)"
  unfolding has_prefix_def by (metis append_eq_conv_conj append_take_drop_id)

lemma trim_prefix_append [simp]: "trim_prefix (p @ r) p = r"
  by (simp add: trim_prefix_def has_prefix_def)

text \<open>\<^verbatim>\<open>strings.Contains\<close> for an arbitrary substring.\<close>

fun go_contains :: "string \<Rightarrow> string \<Rightarrow> bool" where
  "go_contains [] p = (p = [])"
| "go_contains (x # xs) p = (has_prefix (x # xs) p \<or> go_contains xs p)"

lemma go_contains_char: "go_contains s [c] \<longleftrightarrow> c \<in> set s"
  by (induction s) (auto simp: has_prefix_def)

text \<open>\<^verbatim>\<open>s[strings.LastIndex(s, "/")+1:]\<close>, and \<^verbatim>\<open>s\<close> when there is no separator.\<close>

definition after_last :: "char \<Rightarrow> string \<Rightarrow> string" where
  "after_last c s = rev (takeWhile (\<lambda>x. x \<noteq> c) (rev s))"

lemma takeWhile_neq: "c \<notin> set s \<Longrightarrow> takeWhile (\<lambda>x. x \<noteq> c) s = s"
  by (induction s) auto

lemma after_last_append: "c \<notin> set b \<Longrightarrow> after_last c (a @ c # b) = b"
  by (simp add: after_last_def takeWhile_tail takeWhile_neq)

lemma after_last_nosep: "c \<notin> set s \<Longrightarrow> after_last c s = s"
  by (simp add: after_last_def takeWhile_neq)

lemma after_last_sep: "c \<notin> set (after_last c s)"
  by (auto simp: after_last_def dest: set_takeWhileD)

text \<open>
  \<^verbatim>\<open>strings.TrimSpace\<close> strips the code points of Unicode's White\_Space property from both ends.
  \<open>space_encodings\<close> lists their UTF-8 encodings: the six ASCII ones, U+0085, U+00A0, U+1680,
  U+2000 to U+200A, U+2028, U+2029, U+202F, U+205F and U+3000.
\<close>

definition bytes :: "nat list \<Rightarrow> string" where
  "bytes ns = map char_of ns"

definition space_encodings :: "string list" where
  "space_encodings =
     map bytes ([[9], [10], [11], [12], [13], [32], [194, 133], [194, 160], [225, 154, 128]]
       @ map (\<lambda>k. [226, 128, 128 + k]) [0, 1, 2, 3, 4, 5, 6, 7, 8, 9, 10]
       @ [[226, 128, 168], [226, 128, 169], [226, 128, 175], [226, 129, 159], [227, 128, 128]])"

lemma space_encodings_ne: "e \<in> set space_encodings \<Longrightarrow> e \<noteq> []"
  by (auto simp: space_encodings_def bytes_def)

function trim_left_of :: "string list \<Rightarrow> string \<Rightarrow> string" where
  "trim_left_of es s =
     (case find (\<lambda>e. e \<noteq> [] \<and> has_prefix s e) es of
        None \<Rightarrow> s
      | Some e \<Rightarrow> trim_left_of es (drop (length e) s))"
  by pat_completeness auto
termination
proof (relation "measure (\<lambda>(es, s). length s)", goal_cases)
  case (2 es s e)
  then have "e \<noteq> []" "has_prefix s e"
    by (auto simp: find_Some_iff)
  then show ?case by (auto simp: has_prefix_iff)
qed simp

declare trim_left_of.simps [simp del]

definition trim_space :: "string \<Rightarrow> string" where
  "trim_space s =
     rev (trim_left_of (map rev space_encodings) (rev (trim_left_of space_encodings s)))"

text \<open>Text that starts and ends with a visible ASCII character has nothing to trim.\<close>

definition visible :: "char \<Rightarrow> bool" where
  "visible c \<longleftrightarrow> (let n = of_char c :: nat in 33 \<le> n \<and> n \<le> 126)"

lemma space_ends: "e \<in> set space_encodings \<Longrightarrow> \<not> visible (hd e) \<and> \<not> visible (last e)"
  by (auto simp: space_encodings_def bytes_def visible_def)

lemma trim_left_of_id:
  assumes "\<And>e. e \<in> set es \<Longrightarrow> e \<noteq> [] \<Longrightarrow> hd e \<noteq> hd s"
  shows "trim_left_of es s = s"
proof -
  have "\<not> (e \<noteq> [] \<and> has_prefix s e)" if "e \<in> set es" for e
    using assms [OF that] by (cases e) (auto simp: has_prefix_iff)
  then have "find (\<lambda>e. e \<noteq> [] \<and> has_prefix s e) es = None" by (auto simp: find_None_iff)
  then show ?thesis by (simp add: trim_left_of.simps [of es s])
qed

lemma trim_space_id:
  assumes "s \<noteq> []" "visible (hd s)" "visible (last s)"
  shows "trim_space s = s"
proof -
  have "trim_left_of space_encodings s = s"
    by (rule trim_left_of_id) (use assms(2) space_ends in metis)
  moreover have "trim_left_of (map rev space_encodings) (rev s) = rev s"
  proof (rule trim_left_of_id)
    fix e :: string
    assume "e \<in> set (map rev space_encodings)" "e \<noteq> []"
    then have "\<not> visible (hd e)" using space_ends by (auto simp: hd_rev)
    with assms(1,3) show "hd e \<noteq> hd (rev s)" by (auto simp: hd_rev)
  qed
  ultimately show ?thesis by (simp add: trim_space_def)
qed

lemma trim_space_Nil [simp]: "trim_space [] = []"
proof -
  have "find (\<lambda>e. e \<noteq> [] \<and> has_prefix [] e) es = None" for es
    by (auto simp: has_prefix_def find_None_iff)
  then have "trim_left_of es [] = []" for es by (subst trim_left_of.simps) simp
  then show ?thesis by (simp add: trim_space_def)
qed

definition ascii :: "char \<Rightarrow> bool" where
  "ascii c \<longleftrightarrow> of_char c < (128 :: nat)"

definition ascii_upper :: "char \<Rightarrow> char" where
  "ascii_upper c =
     (let n = of_char c :: nat in if 97 \<le> n \<and> n \<le> 122 then char_of (n - 32) else c)"

definition ascii_lower :: "char \<Rightarrow> char" where
  "ascii_lower c =
     (let n = of_char c :: nat in if 65 \<le> n \<and> n \<le> 90 then char_of (n + 32) else c)"

definition is_ascii_upper :: "char \<Rightarrow> bool" where
  "is_ascii_upper c \<longleftrightarrow> (let n = of_char c :: nat in 65 \<le> n \<and> n \<le> 90)"

text \<open>The character class \<^verbatim>\<open>[A-Za-z0-9_-]\<close> of the three name patterns.\<close>

definition name_char :: "char \<Rightarrow> bool" where
  "name_char c \<longleftrightarrow>
     (let n = of_char c :: nat in
        65 \<le> n \<and> n \<le> 90 \<or> 97 \<le> n \<and> n \<le> 122 \<or> 48 \<le> n \<and> n \<le> 57 \<or> n = 95 \<or> n = 45)"

text \<open>
  \<^verbatim>\<open>regexp.MustCompile(`^[A-Za-z0-9_-]{1,k}$`).MatchString(s)\<close>. Without the m flag Go's
  \<^verbatim>\<open>$\<close> matches only at the end of the text, so a trailing newline is not accepted.
\<close>

definition match_name :: "nat \<Rightarrow> string \<Rightarrow> bool" where
  "match_name k s \<longleftrightarrow> 1 \<le> length s \<and> length s \<le> k \<and> list_all name_char s"

lemma name_char_not [simp]: "\<not> name_char slash" "\<not> name_char colon"
  by (simp_all add: name_char_def)

lemma match_name_no_sep:
  assumes "match_name k s"
  shows "slash \<notin> set s" and "colon \<notin> set s"
  using assms by (auto simp: match_name_def list_all_iff)

lemma match_name_ne [simp]: "\<not> match_name k []"
  by (simp add: match_name_def)

end
