(* ===== verification/Go_Strconv.thy ===== *)
theory Go_Strconv
  imports Emu_Prelude
begin

text \<open>
  Decimal numbers: package strconv's \<^verbatim>\<open>Itoa\<close> and \<^verbatim>\<open>Atoi\<close>, the zero-padded fields package
  time prints, and the two facts the components use: printing and reading back is the identity
  on 64-bit values, and fixed-width fields compare as byte strings the way their values compare
  as numbers.
\<close>

section \<open>Printing\<close>

definition digit :: "int \<Rightarrow> char" where
  "digit n = char_of (nat (48 + n))"

function digits10 :: "int \<Rightarrow> string" where
  "digits10 n = (if n < 10 then [digit n] else digits10 (n div 10) @ [digit (n mod 10)])"
  by pat_completeness auto
termination
  by (relation "measure nat") auto

declare digits10.simps [simp del]

definition itoa :: "int \<Rightarrow> string" where
  "itoa n = (if n < 0 then CHR ''-'' # digits10 (- n) else digits10 n)"

text \<open>A field of exactly \<open>w\<close> digits.\<close>

fun zpad :: "nat \<Rightarrow> int \<Rightarrow> string" where
  "zpad 0 n = []"
| "zpad (Suc w) n = zpad w (n div 10) @ [digit (n mod 10)]"

text \<open>Package time's \<^verbatim>\<open>appendInt(b, x, width)\<close>: sign, then at least \<open>width\<close> digits.\<close>

definition append_int :: "int \<Rightarrow> nat \<Rightarrow> string" where
  "append_int x w =
     (let ds = digits10 \<bar>x\<bar>
      in (if x < 0 then ''-'' else []) @ replicate (w - length ds) (CHR ''0'') @ ds)"

section \<open>Reading\<close>

definition digit_val :: "char \<Rightarrow> int option" where
  "digit_val c =
     (let n = of_char c :: int in if 48 \<le> n \<and> n \<le> 57 then Some (n - 48) else None)"

fun read_digits :: "int \<Rightarrow> string \<Rightarrow> int option" where
  "read_digits acc [] = Some acc"
| "read_digits acc (c # cs) =
     (case digit_val c of None \<Rightarrow> None | Some d \<Rightarrow> read_digits (10 * acc + d) cs)"

text \<open>
  \<^verbatim>\<open>strconv.Atoi\<close>: an optional sign, at least one digit, and a value in the 64-bit range;
  \<^const>\<open>None\<close> is any error.
\<close>

definition atoi :: "string \<Rightarrow> int option" where
  "atoi s =
     (let neg = has_prefix s ''-'';
          ds = (if neg \<or> has_prefix s ''+'' then tl s else s)
      in if ds = [] then None
         else (case read_digits 0 ds of
             None \<Rightarrow> None
           | Some n \<Rightarrow> (let v = (if neg then - n else n)
                        in if in_i64 v then Some v else None)))"

section \<open>Round trip\<close>

lemma of_char_digit_nat: "0 \<le> n \<Longrightarrow> n < 10 \<Longrightarrow> of_char (digit n) = nat (48 + n)"
  by (simp add: digit_def)

lemma of_char_digit: "0 \<le> n \<Longrightarrow> n < 10 \<Longrightarrow> of_char (digit n) = 48 + n"
  using of_nat_of_char [of "digit n", where 'a = int] by (simp add: of_char_digit_nat)

lemma digit_val_digit [simp]: "0 \<le> n \<Longrightarrow> n < 10 \<Longrightarrow> digit_val (digit n) = Some n"
  by (simp add: digit_val_def of_char_digit)

lemma digit_neq:
  assumes "0 \<le> n" "n < 10" shows "digit n \<noteq> CHR ''-''" "digit n \<noteq> CHR ''+''"
  using of_char_digit [OF assms] assms by auto

lemma read_digits_append:
  "read_digits a (xs @ ys) = Option.bind (read_digits a xs) (\<lambda>b. read_digits b ys)"
  by (induction xs arbitrary: a) (auto split: option.splits)

lemma read_digits10 [simp]: "0 \<le> n \<Longrightarrow> read_digits 0 (digits10 n) = Some n"
proof (induction n rule: digits10.induct)
  case (1 n)
  then show ?case
    by (cases "n < 10") (simp_all add: digits10.simps [of n] read_digits_append)
qed

lemma div10_less: "0 \<le> n \<Longrightarrow> n < 10 ^ Suc w \<Longrightarrow> n div 10 < 10 ^ w" for n :: int
  by simp

lemma read_zpad: "0 \<le> n \<Longrightarrow> n < 10 ^ w \<Longrightarrow> read_digits 0 (zpad w n) = Some n"
  by (induction w arbitrary: n) (auto simp: read_digits_append div10_less)

lemma digits10_ne [simp]: "digits10 n \<noteq> []"
  by (subst digits10.simps) simp

lemma hd_digits10: "0 \<le> n \<Longrightarrow> \<exists>d \<ge> 0. d < 10 \<and> hd (digits10 n) = digit d"
proof (induction n rule: digits10.induct)
  case (1 n)
  then show ?case
    by (cases "n < 10") (auto simp: digits10.simps [of n])
qed

lemma digits10_no_sign:
  assumes "0 \<le> n"
  shows "\<not> has_prefix (digits10 n) ''-''" "\<not> has_prefix (digits10 n) ''+''"
proof -
  obtain d where "0 \<le> d" "d < 10" "hd (digits10 n) = digit d"
    using hd_digits10 [OF assms] by blast
  with digit_neq [of d] show "\<not> has_prefix (digits10 n) ''-''" "\<not> has_prefix (digits10 n) ''+''"
    by (cases "digits10 n"; auto simp: has_prefix_def)+
qed

lemma atoi_itoa: "in_i64 n \<Longrightarrow> atoi (itoa n) = Some n"
  by (cases "n < 0")
    (simp_all add: atoi_def itoa_def digits10_no_sign has_prefix_def [of "_ # _"])

section \<open>Order\<close>

lemma append_less_iff:
  fixes xs ys :: "'a::order list"
  shows "length xs = length ys \<Longrightarrow> (xs @ us < ys @ vs) = (xs < ys \<or> xs = ys \<and> us < vs)"
  by (induction rule: list_induct2) auto

lemma length_zpad [simp]: "length (zpad w n) = w"
  by (induction w arbitrary: n) simp_all

lemma digit_less:
  assumes "0 \<le> m" "m < 10" "0 \<le> n" "n < 10"
  shows "(digit m < digit n) = (m < n)"
  using assms by (simp add: less_char_def of_char_digit_nat)

lemma div_mod_less: "(m < n) = (m div 10 < n div 10 \<or> m div 10 = n div 10 \<and> m mod 10 < n mod 10)"
  for m n :: int
proof -
  have "10 * a + b < 10 * c + d \<longleftrightarrow> a < c \<or> a = c \<and> b < d"
    if "0 \<le> b" "b < 10" "0 \<le> d" "d < 10" for a b c d :: int
    using that by arith
  from this [of "m mod 10" "n mod 10" "m div 10" "n div 10"] show ?thesis by simp
qed

lemma zpad_inj:
  assumes "0 \<le> m" "m < 10 ^ w" "0 \<le> n" "n < 10 ^ w"
  shows "(zpad w m = zpad w n) = (m = n)"
  using read_zpad [OF assms(1,2)] read_zpad [OF assms(3,4)] by (metis option.inject)

lemma zpad_less:
  "0 \<le> m \<Longrightarrow> m < 10 ^ w \<Longrightarrow> 0 \<le> n \<Longrightarrow> n < 10 ^ w \<Longrightarrow> (zpad w m < zpad w n) = (m < n)"
proof (induction w arbitrary: m n)
  case (Suc w)
  have b: "0 \<le> m div 10" "m div 10 < 10 ^ w" "0 \<le> n div 10" "n div 10 < 10 ^ w"
    by (rule div10_less pos_imp_zdiv_nonneg_iff [THEN iffD2]; (rule Suc.prems | simp))+
  have "(zpad (Suc w) m < zpad (Suc w) n) = (zpad w (m div 10) < zpad w (n div 10)
      \<or> zpad w (m div 10) = zpad w (n div 10) \<and> digit (m mod 10) < digit (n mod 10))"
    by (simp add: append_less_iff)
  also have "\<dots> = (m < n)"
    unfolding Suc.IH [OF b] zpad_inj [OF b] div_mod_less [of m n] by (simp add: digit_less)
  finally show ?case .
qed simp

lemma zpad_append_less:
  "0 \<le> m \<Longrightarrow> m < 10 ^ w \<Longrightarrow> 0 \<le> n \<Longrightarrow> n < 10 ^ w \<Longrightarrow>
   (zpad w m @ us < zpad w n @ vs) = (m < n \<or> m = n \<and> us < vs)"
  by (simp add: append_less_iff zpad_less zpad_inj)

lemma digit_0: "digit 0 = CHR ''0''"
  by code_simp

lemma zpad_0: "zpad w 0 = replicate w (CHR ''0'')"
  by (induction w) (simp_all add: digit_0 replicate_append_same)

lemma digits10_zpad:
  "0 \<le> n \<Longrightarrow> n < 10 ^ w \<Longrightarrow> 0 < w \<Longrightarrow>
   replicate (w - length (digits10 n)) (CHR ''0'') @ digits10 n = zpad w n"
proof (induction w arbitrary: n)
  case (Suc w)
  show ?case
  proof (cases "n < 10")
    case True
    with Suc.prems show ?thesis by (simp add: digits10.simps [of n] zpad_0)
  next
    case False
    with Suc.prems have "0 \<le> n div 10" "n div 10 < 10 ^ w" "0 < w"
      by (auto simp: div10_less intro: gr0I)
    with Suc.IH [of "n div 10"] False show ?thesis
      by (simp add: digits10.simps [of n])
  qed
qed simp

lemma append_int_zpad:
  "0 \<le> x \<Longrightarrow> x < 10 ^ w \<Longrightarrow> 0 < w \<Longrightarrow> append_int x w = zpad w x"
  by (simp add: append_int_def digits10_zpad Let_def)

end
