(* ===== verification/Go_Time.thy ===== *)
theory Go_Time
  imports Go_Strconv "HOL-Library.Monad_Syntax"
begin

text \<open>
  The part of package time the repositories use. An instant is an \<^typ>\<open>int\<close>: nanoseconds since
  the Unix epoch, in the proleptic Gregorian calendar, as \<^verbatim>\<open>time.Time\<close> in UTC; a duration is an
  \<^typ>\<open>int\<close> of nanoseconds. The theory models the layouts the program prints and reads, and shows
  that the millisecond layout of tasks/repository.go orders as text the way the instants order in
  time, for the years 0 to 9999, and reads back as the instant truncated to milliseconds.
\<close>

type_synonym time = int
type_synonym duration = int

abbreviation Millisecond :: duration where "Millisecond \<equiv> 1000000"
abbreviation Second :: duration where "Second \<equiv> 1000000000"

text \<open>\<^verbatim>\<open>time.Time{}\<close>, 1 January of year 1.\<close>

definition zero_time :: time where
  "zero_time = - 62135596800 * Second"

definition is_zero :: "time \<Rightarrow> bool" where
  "is_zero t \<longleftrightarrow> t = zero_time"

definition unix_milli :: "time \<Rightarrow> int" where
  "unix_milli t = t div Millisecond"

definition unix_sec :: "time \<Rightarrow> int" where
  "unix_sec t = t div Second"

section \<open>Calendar\<close>

text \<open>Days are counted from 1 January of year 1; the Unix epoch is day 719162.\<close>

definition leap :: "int \<Rightarrow> bool" where
  "leap y \<longleftrightarrow> 4 dvd y \<and> (\<not> 100 dvd y \<or> 400 dvd y)"

definition days_before_year :: "int \<Rightarrow> int" where
  "days_before_year y = 365 * (y - 1) + (y - 1) div 4 - (y - 1) div 100 + (y - 1) div 400"

definition year_of :: "int \<Rightarrow> int" where
  "year_of z =
     (let y = 400 * z div 146097 + 1
      in if z < days_before_year y then y - 1
         else if z < days_before_year (y + 1) then y else y + 1)"

text \<open>Day of the year (from 0) to month and day, by the cumulative table of month lengths.\<close>

definition days_before_month :: "bool \<Rightarrow> int \<Rightarrow> int" where
  "days_before_month lp m =
     [0, 31, 59, 90, 120, 151, 181, 212, 243, 273, 304, 334, 365] ! nat (m - 1)
       + (if lp \<and> 2 < m then 1 else 0)"

function month_from :: "bool \<Rightarrow> int \<Rightarrow> int \<Rightarrow> int" where
  "month_from lp yd m =
     (if m < 12 \<and> days_before_month lp (m + 1) \<le> yd then month_from lp yd (m + 1) else m)"
  by pat_completeness auto
termination
  by (relation "measure (\<lambda>(lp, yd, m). nat (12 - m))") auto

declare month_from.simps [simp del]

definition month_of :: "bool \<Rightarrow> int \<Rightarrow> int" where
  "month_of lp yd = month_from lp yd 1"

definition date_of :: "int \<Rightarrow> int \<times> int \<times> int" where
  "date_of z =
     (let y = year_of z; yd = z - days_before_year y; m = month_of (leap y) yd
      in (y, m, yd - days_before_month (leap y) m + 1))"

datatype civil = Civil int int int int int int int

definition civil_ms :: "int \<Rightarrow> civil" where
  "civil_ms ms =
     (let s = ms div 1000; sod = s mod 86400
      in case date_of (s div 86400 + 719162) of
           (y, m, d) \<Rightarrow> Civil y m d (sod div 3600) (sod mod 3600 div 60) (sod mod 60) (ms mod 1000))"

definition civil_of :: "time \<Rightarrow> civil" where
  "civil_of t = civil_ms (unix_milli t)"

fun civil_key :: "civil \<Rightarrow> int \<times> int \<times> int \<times> int \<times> int \<times> int \<times> int" where
  "civil_key (Civil y mo d h mi s ms) = (y, mo, d, h, mi, s, ms)"

instantiation civil :: linorder
begin

definition less_eq_civil :: "civil \<Rightarrow> civil \<Rightarrow> bool" where
  "less_eq_civil a b \<longleftrightarrow> civil_key a \<le> civil_key b"

definition less_civil :: "civil \<Rightarrow> civil \<Rightarrow> bool" where
  "less_civil a b \<longleftrightarrow> civil_key a < civil_key b"

lemma civil_key_inj: "civil_key a = civil_key b \<Longrightarrow> a = b"
  by (cases a; cases b) auto

instance
proof (standard, goal_cases)
  case (1 a b) show ?case by (auto simp: less_eq_civil_def less_civil_def)
next
  case (2 a) show ?case by (simp add: less_eq_civil_def)
next
  case (3 a b c) then show ?case by (auto simp: less_eq_civil_def)
next
  case (4 a b) then show ?case by (auto simp: less_eq_civil_def intro: civil_key_inj)
next
  case (5 a b) show ?case by (auto simp: less_eq_civil_def)
qed

end

subsection \<open>Years\<close>

lemma days_before_year_400:
  "400 * days_before_year y = 146097 * (y - 1)
     - (100 * ((y - 1) mod 4) - 4 * ((y - 1) mod 100) + (y - 1) mod 400)"
proof -
  have "400 * (365 * u + a - b + c) = 146097 * u - (100 * p - 4 * q + r)"
    if "u = 4 * a + p" "u = 100 * b + q" "u = 400 * c + r" for u a b c p q r :: int
    using that by (simp add: algebra_simps)
  from this [OF mult_div_mod_eq [symmetric] mult_div_mod_eq [symmetric] mult_div_mod_eq [symmetric]]
  show ?thesis unfolding days_before_year_def .
qed

lemma days_before_year_bounds:
  "146097 * (y - 1) - 699 \<le> 400 * days_before_year y"
  "400 * days_before_year y \<le> 146097 * (y - 1) + 396"
proof -
  have "0 \<le> (y - 1) mod 4" "(y - 1) mod 4 < 4" "0 \<le> (y - 1) mod 100" "(y - 1) mod 100 < 100"
    "0 \<le> (y - 1) mod 400" "(y - 1) mod 400 < 400" by simp_all
  then show "146097 * (y - 1) - 699 \<le> 400 * days_before_year y"
    "400 * days_before_year y \<le> 146097 * (y - 1) + 396"
    unfolding days_before_year_400 by simp_all
qed

lemma year_of_bounds:
  "days_before_year (year_of z) \<le> z" "z < days_before_year (year_of z + 1)"
proof -
  define y where "y = 400 * z div 146097 + 1"
  have q: "146097 * (y - 1) \<le> 400 * z" "400 * z < 146097 * y"
    unfolding y_def by simp_all
  have lo: "days_before_year (y - 1) \<le> z"
    using days_before_year_bounds(2) [of "y - 1"] q by (simp add: algebra_simps)
  have hi: "z < days_before_year (y + 1 + 1)"
    using days_before_year_bounds(1) [of "y + 1 + 1"] q by (simp add: algebra_simps)
  have e: "year_of z = (if z < days_before_year y then y - 1
      else if z < days_before_year (y + 1) then y else y + 1)"
    by (simp add: year_of_def y_def Let_def)
  show "days_before_year (year_of z) \<le> z" "z < days_before_year (year_of z + 1)"
    unfolding e using lo hi by (auto simp: not_less)
qed

lemma div_step: "0 < k \<Longrightarrow> u div k - (u - 1) div k = (if k dvd u then 1 else 0)" for u k :: int
proof -
  assume k: "0 < k"
  show ?thesis
  proof (cases "k dvd u")
    case True
    then obtain c where c: "u = k * c" ..
    have "k * c - 1 = k * (c - 1) + (k - 1)" by (simp add: algebra_simps)
    then have "(k * c - 1) div k = c - 1"
      by (rule int_div_pos_eq) (use k in simp_all)
    with c k show ?thesis by simp
  next
    case False
    then have "u mod k \<noteq> 0" by (simp add: dvd_eq_mod_eq_0)
    then have m: "0 \<le> u mod k - 1" "u mod k - 1 < k"
      using pos_mod_sign [OF k, of u] pos_mod_bound [OF k, of u] by linarith+
    have "u - 1 = k * (u div k) + (u mod k - 1)" by simp
    then have "(u - 1) div k = u div k" by (rule int_div_pos_eq) (use m in simp_all)
    with False show ?thesis by simp
  qed
qed

lemma days_before_year_step:
  "days_before_year (y + 1) = days_before_year y + 365 + (if leap y then 1 else 0)"
proof -
  have "days_before_year (y + 1) - days_before_year y =
      365 + (y div 4 - (y - 1) div 4) - (y div 100 - (y - 1) div 100) + (y div 400 - (y - 1) div 400)"
    by (simp add: days_before_year_def)
  also have "\<dots> = 365 + (if leap y then 1 else 0)"
  proof -
    have d: "y div 4 - (y - 1) div 4 = (if 4 dvd y then 1 else 0)"
      "y div 100 - (y - 1) div 100 = (if 100 dvd y then 1 else 0)"
      "y div 400 - (y - 1) div 400 = (if 400 dvd y then 1 else 0)" by (rule div_step, simp)+
    have "400 dvd y \<Longrightarrow> 100 dvd y" "100 dvd y \<Longrightarrow> 4 dvd y"
      by (rule dvd_trans [rotated], assumption, simp)+
    then show ?thesis unfolding d leap_def
      by (cases "4 dvd y"; cases "100 dvd y"; cases "400 dvd y") simp_all
  qed
  finally show ?thesis by simp
qed

lemma days_before_year_mono: "y \<le> y' \<Longrightarrow> days_before_year y \<le> days_before_year y'"
  by (induction rule: int_ge_induct) (auto simp: days_before_year_step)

lemma year_of_mono: "z \<le> z' \<Longrightarrow> year_of z \<le> year_of z'"
  using year_of_bounds [of z] year_of_bounds [of z']
    days_before_year_mono [of "year_of z' + 1" "year_of z"] by linarith

subsection \<open>Months and days\<close>

lemma month_from_bounds:
  "m \<le> 12 \<Longrightarrow> days_before_month lp m \<le> yd \<Longrightarrow> yd < days_before_month lp 13 \<Longrightarrow>
   m \<le> month_from lp yd m \<and> month_from lp yd m \<le> 12
     \<and> days_before_month lp (month_from lp yd m) \<le> yd \<and> yd < days_before_month lp (month_from lp yd m + 1)"
proof (induction lp yd m rule: month_from.induct)
  case (1 lp yd m)
  show ?case
  proof (cases "m < 12 \<and> days_before_month lp (m + 1) \<le> yd")
    case True
    with 1 show ?thesis by (auto simp: month_from.simps [of lp yd m])
  next
    case False
    moreover have "m = 12" if "\<not> m < 12" using that "1.prems"(1) by simp
    ultimately show ?thesis using "1.prems" by (auto simp: month_from.simps [of lp yd m])
  qed
qed

lemma month_length:
  assumes "1 \<le> m" "m \<le> 12"
  shows "days_before_month lp (m + 1) - days_before_month lp m \<le> 31"
proof -
  have "m = 1 \<or> m = 2 \<or> m = 3 \<or> m = 4 \<or> m = 5 \<or> m = 6 \<or> m = 7 \<or> m = 8 \<or> m = 9 \<or> m = 10
      \<or> m = 11 \<or> m = 12" using assms by presburger
  then show ?thesis by (elim disjE) (simp_all add: days_before_month_def)
qed

lemma month_of_cases:
  assumes "0 \<le> yd" "yd < 365 + (if lp then 1 else 0)"
  shows "1 \<le> month_of lp yd \<and> month_of lp yd \<le> 12 \<and> days_before_month lp (month_of lp yd) \<le> yd
    \<and> yd - days_before_month lp (month_of lp yd) < 31 \<and> yd < days_before_month lp (month_of lp yd + 1)"
proof -
  have "days_before_month lp 1 = 0" "days_before_month lp 13 = 365 + (if lp then 1 else 0)"
    by (simp_all add: days_before_month_def)
  with assms month_from_bounds [of 1 lp yd] month_length [of "month_of lp yd" lp]
  show ?thesis unfolding month_of_def by auto
qed

lemma month_from_ge: "m \<le> month_from lp yd m"
proof (induction lp yd m rule: month_from.induct)
  case (1 lp yd m)
  then show ?case
    by (cases "m < 12 \<and> days_before_month lp (m + 1) \<le> yd") (auto simp: month_from.simps [of lp yd m])
qed

lemma month_from_mono: "yd \<le> yd' \<Longrightarrow> month_from lp yd m \<le> month_from lp yd' m"
proof (induction lp yd m rule: month_from.induct)
  case (1 lp yd m)
  show ?case
  proof (cases "m < 12 \<and> days_before_month lp (m + 1) \<le> yd")
    case True
    with 1 show ?thesis by (auto simp: month_from.simps [of lp yd m] month_from.simps [of lp yd' m])
  next
    case False
    then show ?thesis using month_from_ge [of m lp yd'] by (auto simp: month_from.simps [of lp yd m])
  qed
qed

lemma month_of_mono: "yd \<le> yd' \<Longrightarrow> month_of lp yd \<le> month_of lp yd'"
  by (simp add: month_of_def month_from_mono)

lemma date_of_range:
  assumes "date_of z = (y, m, d)"
  shows "y = year_of z" "1 \<le> m" "m \<le> 12" "1 \<le> d" "d \<le> 31"
    and "z = days_before_year y + days_before_month (leap y) m + d - 1"
    and "d \<le> days_before_month (leap y) (m + 1) - days_before_month (leap y) m"
proof -
  have "0 \<le> z - days_before_year (year_of z)"
    "z - days_before_year (year_of z) < 365 + (if leap (year_of z) then 1 else 0)"
    using year_of_bounds [of z] by (simp_all add: days_before_year_step)
  from month_of_cases [OF this] assms
  show "y = year_of z" "1 \<le> m" "m \<le> 12" "1 \<le> d" "d \<le> 31"
    and "z = days_before_year y + days_before_month (leap y) m + d - 1"
    and "d \<le> days_before_month (leap y) (m + 1) - days_before_month (leap y) m"
    by (auto simp: date_of_def Let_def)
qed

lemma date_of_less: "z < z' \<Longrightarrow> date_of z < date_of z'"
  using year_of_mono [of z z'] month_of_mono [of "z - days_before_year (year_of z)"
      "z' - days_before_year (year_of z)" "leap (year_of z)"]
  by (auto simp: date_of_def Let_def less_prod_def)

lemma div_mod_lex:
  "0 < k \<Longrightarrow> a < b \<Longrightarrow> a div k < b div k \<or> a div k = b div k \<and> a mod k < b mod k" for a b k :: int
proof -
  assume k: "0 < k" and ab: "a < b"
  have "a div k \<le> b div k" using k ab by (simp add: zdiv_mono1)
  moreover have "a mod k < b mod k" if "a div k = b div k"
    using ab that by (simp add: minus_mult_div_eq_mod [symmetric])
  ultimately show ?thesis by linarith
qed

lemma clock_less:
  fixes h k :: int
  assumes "h < k"
  shows "(h div 3600, h mod 3600 div 60, h mod 60) < (k div 3600, k mod 3600 div 60, k mod 60)"
proof -
  have "h div 3600 < k div 3600 \<or> h div 3600 = k div 3600 \<and> h mod 3600 < k mod 3600"
    by (rule div_mod_lex) (use assms in simp_all)
  moreover have "h mod 3600 div 60 < k mod 3600 div 60
      \<or> h mod 3600 div 60 = k mod 3600 div 60 \<and> h mod 60 < k mod 60" if "h mod 3600 < k mod 3600"
    using div_mod_lex [OF _ that, of 60] by (simp add: mod_mod_cancel)
  ultimately show ?thesis
    by (simp only: less_prod_simp) (blast intro: eq_refl)
qed

lemma civil_ms_less:
  assumes "a < b"
  shows "civil_ms a < civil_ms b"
proof -
  define A B where AB: "A = a div 1000" "B = b div 1000"
  have s: "A < B \<or> A = B \<and> a mod 1000 < b mod 1000"
    unfolding AB by (rule div_mod_lex) (use assms in simp_all)
  have key: "civil_key (civil_ms x) = (let z = x div 1000 div 86400 + 719162; d = x div 1000 mod 86400
      in (fst (date_of z), fst (snd (date_of z)), snd (snd (date_of z)),
          d div 3600, d mod 3600 div 60, d mod 60, x mod 1000))" for x
    by (simp add: civil_ms_def Let_def split: prod.splits)
  consider "A div 86400 < B div 86400"
    | "A div 86400 = B div 86400" "A mod 86400 < B mod 86400"
    | "A = B" "a mod 1000 < b mod 1000"
    using s div_mod_lex [of 86400 A B] by auto
  then show ?thesis
  proof cases
    case 1
    then have "date_of (A div 86400 + 719162) < date_of (B div 86400 + 719162)"
      by (intro date_of_less) simp
    then show ?thesis
      unfolding less_civil_def key AB [symmetric] Let_def by (auto simp: less_prod_def)
  next
    case 2
    from clock_less [OF 2(2)] 2(1) show ?thesis
      unfolding less_civil_def key AB [symmetric] Let_def by (auto simp: less_prod_def)
  next
    case 3
    then show ?thesis
      unfolding less_civil_def key AB [symmetric] Let_def by (simp add: less_prod_def)
  qed
qed

lemma civil_of_less_iff: "civil_of s < civil_of t \<longleftrightarrow> unix_milli s < unix_milli t"
  unfolding civil_of_def
  by (metis civil_ms_less linorder_neq_iff order_less_asym)

section \<open>Printing\<close>

definition fmt_date :: "int \<Rightarrow> int \<Rightarrow> int \<Rightarrow> string" where
  "fmt_date y m d = append_int y 4 @ ''-'' @ append_int m 2 @ ''-'' @ append_int d 2"

definition fmt_clock :: "int \<Rightarrow> int \<Rightarrow> int \<Rightarrow> string" where
  "fmt_clock h mi s = append_int h 2 @ '':'' @ append_int mi 2 @ '':'' @ append_int s 2"

text \<open>The layouts \<^verbatim>\<open>2006-01-02 15:04:05.000\<close> and \<^verbatim>\<open>2006-01-02 15:04:05\<close>.\<close>

fun fmt_milli :: "civil \<Rightarrow> string" where
  "fmt_milli (Civil y m d h mi s ms) = fmt_date y m d @ '' '' @ fmt_clock h mi s @ ''.'' @ append_int ms 3"

fun fmt_seconds :: "civil \<Rightarrow> string" where
  "fmt_seconds (Civil y m d h mi s ms) = fmt_date y m d @ '' '' @ fmt_clock h mi s"

text \<open>\<^verbatim>\<open>time.RFC3339\<close> and \<^verbatim>\<open>time.RFC3339Nano\<close> for a UTC time.\<close>

definition fmt_nano :: "int \<Rightarrow> string" where
  "fmt_nano ns =
     (if ns = 0 then []
      else CHR ''.'' # rev (dropWhile (\<lambda>c. c = CHR ''0'') (rev (append_int ns 9))))"

fun fmt_rfc3339 :: "civil \<Rightarrow> string \<Rightarrow> string" where
  "fmt_rfc3339 (Civil y m d h mi s ms) frac = fmt_date y m d @ ''T'' @ fmt_clock h mi s @ frac @ ''Z''"

definition rfc3339 :: "time \<Rightarrow> string" where
  "rfc3339 t = fmt_rfc3339 (civil_of t) []"

definition rfc3339_nano :: "time \<Rightarrow> string" where
  "rfc3339_nano t = fmt_rfc3339 (civil_of t) (fmt_nano (t mod Second))"

text \<open>tasks/repository.go \<^verbatim>\<open>formatTime\<close>; SQLite's \<^verbatim>\<open>CURRENT_TIMESTAMP\<close> has whole seconds.\<close>

definition formatTime :: "time \<Rightarrow> string" where
  "formatTime t = fmt_milli (civil_of t)"

definition current_timestamp :: "time \<Rightarrow> string" where
  "current_timestamp t = fmt_seconds (civil_of t)"

section \<open>Reading\<close>

definition days_in :: "bool \<Rightarrow> int \<Rightarrow> int" where
  "days_in lp m = days_before_month lp (m + 1) - days_before_month lp m"

text \<open>\<^verbatim>\<open>getnum\<close>: two digits; a single digit is accepted where the layout field is not fixed.\<close>

fun getnum :: "bool \<Rightarrow> string \<Rightarrow> (int \<times> string) option" where
  "getnum fixed [] = None"
| "getnum fixed (a # r) =
     (case digit_val a of
        None \<Rightarrow> None
      | Some x \<Rightarrow>
          (case r of
             b # r' \<Rightarrow>
               (case digit_val b of
                  Some y \<Rightarrow> Some (10 * x + y, r')
                | None \<Rightarrow> if fixed then None else Some (x, r))
           | [] \<Rightarrow> if fixed then None else Some (x, r)))"

definition getyear :: "string \<Rightarrow> (int \<times> string) option" where
  "getyear s =
     (if length s < 4 then None
      else map_option (\<lambda>y. (y, drop 4 s)) (read_digits 0 (take 4 s)))"

fun skip_char :: "char \<Rightarrow> string \<Rightarrow> string option" where
  "skip_char c [] = None"
| "skip_char c (x # xs) = (if x = c then Some xs else None)"

text \<open>
  A layout literal between date and clock: a blank skips any run of blanks, a \<^verbatim>\<open>T\<close> is exact.
\<close>

definition skip_sep :: "char \<Rightarrow> string \<Rightarrow> string option" where
  "skip_sep c s =
     map_option (\<lambda>r. if c = CHR '' '' then dropWhile (\<lambda>x. x = CHR '' '') r else r) (skip_char c s)"

text \<open>
  An optional fraction of a second, separated by a full stop or a comma; digits after the ninth
  are dropped (\<^verbatim>\<open>parseNanoseconds\<close>).
\<close>

definition is_digit :: "char \<Rightarrow> bool" where
  "is_digit c \<longleftrightarrow> digit_val c \<noteq> None"

definition getfrac :: "string \<Rightarrow> (int \<times> string) option" where
  "getfrac s =
     (case s of
        p # c # r \<Rightarrow>
          if (p = CHR ''.'' \<or> p = CHR '','') \<and> is_digit c
          then (let ds = takeWhile is_digit (c # r); us = take 9 ds
                in map_option (\<lambda>n. (n * 10 ^ (9 - length us), dropWhile is_digit (c # r)))
                     (read_digits 0 us))
          else Some (0, s)
      | _ \<Rightarrow> Some (0, s))"

definition mk_time :: "int \<Rightarrow> int \<Rightarrow> int \<Rightarrow> int \<Rightarrow> int \<Rightarrow> int \<Rightarrow> int \<Rightarrow> time" where
  "mk_time y m d h mi s ns =
     ((days_before_year y + days_before_month (leap y) m + d - 1 - 719162) * 86400
        + h * 3600 + mi * 60 + s) * Second + ns"

text \<open>
  \<^verbatim>\<open>time.Parse\<close> for the layouts \<^verbatim>\<open>2006-01-02 15:04:05[.999999999]\<close> and, with \<^verbatim>\<open>T\<close>, the
  common part of RFC 3339: the instant as if in UTC, and the rest of the text.
\<close>

definition parse_dt :: "char \<Rightarrow> string \<Rightarrow> (time \<times> string) option" where
  "parse_dt sep s = do {
     (y, s) \<leftarrow> getyear s; s \<leftarrow> skip_char (CHR ''-'') s;
     (m, s) \<leftarrow> getnum True s; s \<leftarrow> skip_char (CHR ''-'') s;
     (d, s) \<leftarrow> getnum True s; s \<leftarrow> skip_sep sep s;
     (h, s) \<leftarrow> getnum False s; s \<leftarrow> skip_char (CHR '':'') s;
     (mi, s) \<leftarrow> getnum True s; s \<leftarrow> skip_char (CHR '':'') s;
     (sec, s) \<leftarrow> getnum True s;
     (ns, s) \<leftarrow> getfrac s;
     if 1 \<le> m \<and> m \<le> 12 \<and> 1 \<le> d \<and> d \<le> days_in (leap y) m \<and> h < 24 \<and> mi < 60 \<and> sec < 60
     then Some (mk_time y m d h mi sec ns, s) else None
   }"

definition parse_sqlite_layout :: "string \<Rightarrow> time option" where
  "parse_sqlite_layout s =
     (case parse_dt (CHR '' '') s of Some (t, []) \<Rightarrow> Some t | _ \<Rightarrow> None)"

text \<open>The zone of RFC 3339: \<^verbatim>\<open>Z\<close> or a signed hh:mm offset.\<close>

definition parse_zone :: "string \<Rightarrow> duration option" where
  "parse_zone z =
     (if z = ''Z'' then Some 0
      else case z of
        sg # r \<Rightarrow> do {
          (hh, r) \<leftarrow> getnum True r; r \<leftarrow> skip_char (CHR '':'') r; (mm, r) \<leftarrow> getnum True r;
          if r = [] \<and> hh \<le> 24 \<and> mm \<le> 60 \<and> (sg = CHR ''+'' \<or> sg = CHR ''-'')
          then Some ((if sg = CHR ''-'' then -1 else 1) * (hh * 3600 + mm * 60) * Second)
          else None }
      | [] \<Rightarrow> None)"

definition parse_rfc3339 :: "string \<Rightarrow> time option" where
  "parse_rfc3339 s = do {
     (t, z) \<leftarrow> parse_dt (CHR ''T'') s; off \<leftarrow> parse_zone z; Some (t - off)
   }"

text \<open>
  tasks/repository.go \<^verbatim>\<open>parseSQLiteTime\<close>: the layouts with and without a fraction, which
  \<^verbatim>\<open>time.Parse\<close> reads alike, then RFC 3339. \<^const>\<open>None\<close> is the error its callers drop.
\<close>

definition parseSQLiteTime :: "string \<Rightarrow> time option" where
  "parseSQLiteTime s =
     (case parse_sqlite_layout s of
        Some t \<Rightarrow> Some t
      | None \<Rightarrow> (case parse_sqlite_layout s of Some t \<Rightarrow> Some t | None \<Rightarrow> parse_rfc3339 s))"

section \<open>Text order is time order\<close>

definition four_digit_year :: "time \<Rightarrow> bool" where
  "four_digit_year t \<longleftrightarrow> (case civil_of t of Civil y _ _ _ _ _ _ \<Rightarrow> 0 \<le> y \<and> y < 10000)"

lemma civil_of_range:
  assumes "civil_of t = Civil y m d h mi s ms"
  shows "1 \<le> m" "m \<le> 12" "1 \<le> d" "d \<le> 31" "0 \<le> h" "h < 24" "0 \<le> mi" "mi < 60"
    "0 \<le> s" "s < 60" "0 \<le> ms" "ms < 1000"
proof -
  define z S where "z = unix_milli t div 1000 div 86400 + 719162"
    and "S = unix_milli t div 1000 mod 86400"
  then have S: "0 \<le> S" "S < 86400" by simp_all
  have d: "date_of z = (y, m, d)" and c: "h = S div 3600" "mi = S mod 3600 div 60" "s = S mod 60"
    and ms: "ms = unix_milli t mod 1000"
    using assms unfolding civil_of_def civil_ms_def Let_def z_def [symmetric] S_def [symmetric]
    by (simp_all split: prod.splits)
  show "1 \<le> m" "m \<le> 12" "1 \<le> d" "d \<le> 31" by (rule date_of_range [OF d])+
  show "0 \<le> h" "h < 24" "0 \<le> mi" "mi < 60" "0 \<le> s" "s < 60" unfolding c using S by simp_all
  show "0 \<le> ms" "ms < 1000" unfolding ms by simp_all
qed

lemma fmt_milli_zpad:
  assumes "civil_of t = Civil y m d h mi s ms" and "0 \<le> y" and "y < 10000"
  shows "formatTime t = zpad 4 y @ ''-'' @ zpad 2 m @ ''-'' @ zpad 2 d @ '' '' @ zpad 2 h @ '':''
    @ zpad 2 mi @ '':'' @ zpad 2 s @ ''.'' @ zpad 3 ms"
  using assms civil_of_range [OF assms(1)]
  by (simp add: formatTime_def fmt_date_def fmt_clock_def append_int_zpad)

lemma prod_less_iff: "(a, b) < (c, d) \<longleftrightarrow> a < c \<or> a = c \<and> b < d" for a c :: "'a::order"
  by (auto simp: less_prod_simp le_less)

lemma sep_field_less:
  assumes "0 \<le> a" "a < 10 ^ k" "0 \<le> b" "b < 10 ^ k"
  shows "zpad k a @ c # r < zpad k b @ c # r' \<longleftrightarrow> a < b \<or> a = b \<and> r < r'"
  using zpad_append_less [OF assms] by simp

lemma formatTime_less_iff:
  assumes "four_digit_year s" and "four_digit_year t"
  shows "formatTime s < formatTime t \<longleftrightarrow> unix_milli s < unix_milli t"
proof -
  obtain y m d h mi c ms where s: "civil_of s = Civil y m d h mi c ms" by (cases "civil_of s")
  obtain y' m' d' h' mi' c' ms' where t: "civil_of t = Civil y' m' d' h' mi' c' ms'"
    by (cases "civil_of t")
  have y: "0 \<le> y" "y < 10000" "0 \<le> y'" "y' < 10000"
    using assms s t by (simp_all add: four_digit_year_def)
  have ten_pow: "(10::int) ^ 2 = 100" "(10::int) ^ 3 = 1000" "(10::int) ^ 4 = 10000" by simp_all
  have b: "0 \<le> y" "y < 10 ^ 4" "0 \<le> y'" "y' < 10 ^ 4" "0 \<le> m" "m < 10 ^ 2" "0 \<le> m'" "m' < 10 ^ 2"
    "0 \<le> d" "d < 10 ^ 2" "0 \<le> d'" "d' < 10 ^ 2" "0 \<le> h" "h < 10 ^ 2" "0 \<le> h'" "h' < 10 ^ 2"
    "0 \<le> mi" "mi < 10 ^ 2" "0 \<le> mi'" "mi' < 10 ^ 2" "0 \<le> c" "c < 10 ^ 2" "0 \<le> c'" "c' < 10 ^ 2"
    "0 \<le> ms" "ms < 10 ^ 3" "0 \<le> ms'" "ms' < 10 ^ 3"
    unfolding ten_pow using y civil_of_range [OF s] civil_of_range [OF t] by linarith+
  have "formatTime s < formatTime t \<longleftrightarrow> civil_of s < civil_of t"
    unfolding fmt_milli_zpad [OF s y(1,2)] fmt_milli_zpad [OF t y(3,4)] less_civil_def s t
      civil_key.simps prod_less_iff append_Cons append_Nil
      sep_field_less [OF b(1-4)] sep_field_less [OF b(5-8)] sep_field_less [OF b(9-12)]
      sep_field_less [OF b(13-16)] sep_field_less [OF b(17-20)] sep_field_less [OF b(21-24)]
      zpad_less [OF b(25-28)] ..
  then show ?thesis by (simp add: civil_of_less_iff)
qed

lemma formatTime_le_iff:
  assumes "four_digit_year s" and "four_digit_year t"
  shows "formatTime s \<le> formatTime t \<longleftrightarrow> unix_milli s \<le> unix_milli t"
  using formatTime_less_iff [OF assms(2,1)] by (simp add: not_less [symmetric])

section \<open>Reading back what was printed\<close>

lemma getnum_zpad: "0 \<le> n \<Longrightarrow> n < 100 \<Longrightarrow> getnum f (zpad 2 n @ r) = Some (n, r)"
  by (simp add: numeral_2_eq_2)

lemma getyear_zpad: "0 \<le> n \<Longrightarrow> n < 10000 \<Longrightarrow> getyear (zpad 4 n @ r) = Some (n, r)"
  using read_zpad [of n 4] by (simp add: getyear_def)

lemma skip_zpad:
  assumes "0 \<le> n" "n < 100"
  shows "dropWhile (\<lambda>x. x = CHR '' '') (zpad 2 n @ r) = zpad 2 n @ r"
proof -
  have "digit_val (CHR '' '') = None" by code_simp
  moreover have "digit_val (digit (n div 10)) = Some (n div 10)" using assms by simp
  ultimately have "digit (n div 10) \<noteq> CHR '' ''" by auto
  then show ?thesis using assms by (simp add: numeral_2_eq_2)
qed

lemma getfrac_zpad:
  assumes "0 \<le> n" "n < 1000"
  shows "getfrac (CHR ''.'' # zpad 3 n) = Some (n * Millisecond, [])"
proof -
  define a b c where abc: "a = n div 10 div 10" "b = n div 10 mod 10" "c = n mod 10"
  then have r: "0 \<le> a" "a < 10" "0 \<le> b" "b < 10" "0 \<le> c" "c < 10"
    using assms by simp_all
  have "10 * (10 * a + b) + c = n" unfolding abc by simp
  moreover have "zpad 3 n = [digit a, digit b, digit c]"
    unfolding abc using r by (simp add: numeral_3_eq_3 abc)
  ultimately show ?thesis
    using r by (simp add: getfrac_def is_digit_def)
qed

lemma mk_time_civil:
  assumes "civil_of t = Civil y m d h mi s ms"
  shows "mk_time y m d h mi s (ms * Millisecond) = unix_milli t * Millisecond"
    and "d \<le> days_in (leap y) m"
proof -
  define A where "A = unix_milli t div 1000"
  define S where "S = A mod 86400"
  have "date_of (A div 86400 + 719162) = (y, m, d)"
    and c: "h = S div 3600" "mi = S mod 3600 div 60" "s = S mod 60" "ms = unix_milli t mod 1000"
    using assms unfolding civil_of_def civil_ms_def Let_def A_def [symmetric] S_def [symmetric]
    by (simp_all split: prod.splits)
  note z = date_of_range(6,7) [OF this(1)]
  from z(2) show "d \<le> days_in (leap y) m" by (simp add: days_in_def)
  have "S = 3600 * h + S mod 3600" "S mod 3600 = 60 * mi + S mod 3600 mod 60"
    unfolding c by simp_all
  then have S: "h * 3600 + mi * 60 + s = S" by (simp add: c(3) mod_mod_cancel)
  have "days_before_year y + days_before_month (leap y) m + d - 1 - 719162 = A div 86400"
    using z(1) by simp
  then have "mk_time y m d h mi s (ms * Millisecond) = (A div 86400 * 86400 + S) * Second + ms * Millisecond"
    unfolding mk_time_def by (simp add: S [symmetric])
  also have "A div 86400 * 86400 + S = A" by (simp add: S_def)
  also have "A * Second + ms * Millisecond = (1000 * A + ms) * Millisecond" by simp
  also have "1000 * A + ms = unix_milli t" by (simp add: A_def c(4))
  finally show "mk_time y m d h mi s (ms * Millisecond) = unix_milli t * Millisecond" .
qed

lemma parse_dt_formatTime:
  assumes "four_digit_year t"
  shows "parse_dt (CHR '' '') (formatTime t) = Some (unix_milli t * Millisecond, [])"
proof -
  obtain y m d h mi s ms where c: "civil_of t = Civil y m d h mi s ms" by (cases "civil_of t")
  with assms have y: "0 \<le> y" "y < 10000" by (simp_all add: four_digit_year_def)
  note r = civil_of_range [OF c]
  have "getnum True (zpad 2 s @ CHR ''.'' # zpad 3 ms) = Some (s, CHR ''.'' # zpad 3 ms)"
    using r by (simp add: getnum_zpad)
  then show ?thesis
    unfolding fmt_milli_zpad [OF c y] parse_dt_def
    using y r mk_time_civil [OF c]
    by (simp add: getyear_zpad getnum_zpad skip_sep_def skip_zpad getfrac_zpad)
qed

lemma parse_sqlite_formatTime:
  "four_digit_year t \<Longrightarrow> parse_sqlite_layout (formatTime t) = Some (unix_milli t * Millisecond)"
  by (simp add: parse_sqlite_layout_def parse_dt_formatTime)

lemma parseSQLiteTime_formatTime:
  "four_digit_year t \<Longrightarrow> parseSQLiteTime (formatTime t) = Some (unix_milli t * Millisecond)"
  by (simp add: parseSQLiteTime_def parse_sqlite_formatTime)

section \<open>The other layouts\<close>

lemma civil_seconds:
  assumes "civil_of t = Civil y m d h mi s ms"
  shows "mk_time y m d h mi s ns = unix_sec t * Second + ns"
proof -
  have "ms = unix_milli t mod 1000"
    using assms by (simp add: civil_of_def civil_ms_def Let_def split: prod.splits)
  moreover have "mk_time y m d h mi s ns = mk_time y m d h mi s (ms * Millisecond) - ms * Millisecond + ns"
    by (simp add: mk_time_def)
  ultimately have "mk_time y m d h mi s ns = (unix_milli t - unix_milli t mod 1000) * Millisecond + ns"
    using mk_time_civil(1) [OF assms] by (simp add: algebra_simps)
  also have "unix_milli t - unix_milli t mod 1000 = unix_sec t * 1000"
    by (simp add: unix_milli_def unix_sec_def minus_mod_eq_div_mult zdiv_zmult2_eq [symmetric])
  finally show ?thesis by simp
qed

lemma fmt_date_clock:
  assumes "civil_of t = Civil y m d h mi s ms" and "0 \<le> y" and "y < 10000"
  shows "fmt_date y m d = zpad 4 y @ ''-'' @ zpad 2 m @ ''-'' @ zpad 2 d"
    and "fmt_clock h mi s = zpad 2 h @ '':'' @ zpad 2 mi @ '':'' @ zpad 2 s"
  using assms civil_of_range [OF assms(1)]
  by (simp_all add: fmt_date_def fmt_clock_def append_int_zpad)

lemma parse_dt_fields:
  assumes c: "civil_of t = Civil y m d h mi s ms" and y: "0 \<le> y" "y < 10000"
    and r: "getfrac r = Some (ns, r')" and sep: "skip_sep sep (sep # zpad 2 h @ x) = Some (zpad 2 h @ x)"
      "x = CHR '':'' # zpad 2 mi @ CHR '':'' # zpad 2 s @ r"
  shows "parse_dt sep (fmt_date y m d @ sep # fmt_clock h mi s @ r) = Some (unix_sec t * Second + ns, r')"
  using y r sep civil_of_range [OF c] mk_time_civil(2) [OF c] civil_seconds [OF c]
  by (simp add: parse_dt_def fmt_date_clock [OF c y] getyear_zpad getnum_zpad)

lemma parse_current_timestamp:
  assumes "four_digit_year t"
  shows "parse_sqlite_layout (current_timestamp t) = Some (unix_sec t * Second)"
proof -
  obtain y m d h mi s ms where c: "civil_of t = Civil y m d h mi s ms" by (cases "civil_of t")
  with assms have y: "0 \<le> y" "y < 10000" by (simp_all add: four_digit_year_def)
  have "parse_dt (CHR '' '') (current_timestamp t) = Some (unix_sec t * Second + 0, [])"
    using parse_dt_fields [OF c y, of "[]" 0 "[]" "CHR '' ''"] civil_of_range [OF c]
    by (simp add: current_timestamp_def c getfrac_def skip_sep_def skip_zpad)
  then show ?thesis by (simp add: parse_sqlite_layout_def)
qed

lemma read_zeros: "read_digits a (replicate k (CHR ''0'')) = Some (a * 10 ^ k)"
proof (induction k arbitrary: a)
  case (Suc k)
  have "digit_val (CHR ''0'') = Some 0" by code_simp
  with Suc show ?case by simp
qed simp

lemma strip_end: "\<exists>k. s = rev (dropWhile (\<lambda>c. c = z) (rev s)) @ replicate k z"
proof -
  have "takeWhile (\<lambda>c. c = z) (rev s) = replicate (length (takeWhile (\<lambda>c. c = z) (rev s))) z"
    by (intro replicate_eqI) (auto dest: set_takeWhileD)
  then have "rev s = replicate (length (takeWhile (\<lambda>c. c = z) (rev s))) z @ dropWhile (\<lambda>c. c = z) (rev s)"
    by (metis takeWhile_dropWhile_id)
  then show ?thesis by (metis rev_append rev_replicate rev_rev_ident)
qed

lemma zpad_digits: "c \<in> set (zpad w n) \<Longrightarrow> is_digit c"
  by (induction w arbitrary: n) (auto simp: is_digit_def)

lemma getfrac_fmt_nano:
  assumes "0 \<le> n" "n < Second"
  shows "getfrac (fmt_nano n @ ''Z'') = Some (n, ''Z'')"
proof (cases "n = 0")
  case False
  define ds where "ds = rev (dropWhile (\<lambda>c. c = CHR ''0'') (rev (zpad 9 n)))"
  obtain k where k: "zpad 9 n = ds @ replicate k (CHR ''0'')"
    using strip_end [of "zpad 9 n" "CHR ''0''"] by (auto simp: ds_def)
  have len: "length ds + k = 9" using arg_cong [OF k, of length] by simp
  have rd: "read_digits 0 (zpad 9 n) = Some n" using assms by (intro read_zpad) simp_all
  then obtain b where b: "read_digits 0 ds = Some b" "b * 10 ^ k = n"
    by (cases "read_digits 0 ds") (auto simp: k read_digits_append read_zeros)
  have "ds \<noteq> []" using b False by auto
  then obtain c r where cr: "ds = c # r" by (cases ds) auto
  have dig: "is_digit x" if "x \<in> set ds" for x using that zpad_digits [of x 9 n] by (simp add: k)
  have z: "\<not> is_digit (CHR ''Z'')" by code_simp
  have "takeWhile is_digit (ds @ ''Z'') = ds" "dropWhile is_digit (ds @ ''Z'') = ''Z''"
    using dig z by (simp_all add: takeWhile_append dropWhile_append)
  moreover have "fmt_nano n = CHR ''.'' # ds"
    using False assms by (simp add: fmt_nano_def ds_def append_int_zpad)
  moreover have "take 9 ds = ds" "9 - length ds = k" using len by simp_all
  moreover have "getfrac (CHR ''.'' # ds @ ''Z'') =
      map_option (\<lambda>n. (n * 10 ^ (9 - length (take 9 (takeWhile is_digit (ds @ ''Z'')))), dropWhile is_digit (ds @ ''Z'')))
        (read_digits 0 (take 9 (takeWhile is_digit (ds @ ''Z''))))"
    using dig [of c] by (simp add: getfrac_def cr Let_def)
  ultimately show ?thesis using b by simp
qed (simp add: fmt_nano_def getfrac_def)

lemma parseSQLiteTime_rfc3339_nano:
  assumes "four_digit_year t"
  shows "parseSQLiteTime (rfc3339_nano t) = Some t"
proof -
  obtain y m d h mi s ms where c: "civil_of t = Civil y m d h mi s ms" by (cases "civil_of t")
  with assms have y: "0 \<le> y" "y < 10000" by (simp_all add: four_digit_year_def)
  have e: "rfc3339_nano t = fmt_date y m d @ CHR ''T'' # fmt_clock h mi s @ (fmt_nano (t mod Second) @ ''Z'')"
    by (simp add: rfc3339_nano_def c)
  have g: "getfrac (fmt_nano (t mod Second) @ ''Z'') = Some (t mod Second, ''Z'')"
    by (rule getfrac_fmt_nano) (rule pos_mod_sign pos_mod_bound, simp)+
  have "parse_dt (CHR ''T'') (rfc3339_nano t) = Some (unix_sec t * Second + t mod Second, ''Z'')"
    unfolding e by (rule parse_dt_fields [OF c y g]) (simp_all add: skip_sep_def)
  then have "parse_rfc3339 (rfc3339_nano t) = Some t"
    by (simp add: parse_rfc3339_def parse_zone_def unix_sec_def)
  moreover have "parse_dt (CHR '' '') (rfc3339_nano t) = None"
    unfolding e parse_dt_def fmt_date_clock [OF c y]
    using y civil_of_range [OF c] by (simp add: getyear_zpad getnum_zpad skip_sep_def)
  ultimately show ?thesis by (simp add: parseSQLiteTime_def parse_sqlite_layout_def)
qed

end
