(* ===== verification/Externals.thy ===== *)
theory Externals
  imports Complex_Main Go_Time
begin

text \<open>
  The code the emulator calls but does not contain, as one record of functions that every
  definition using it takes as its first argument: the cron parser
  (\<^verbatim>\<open>github.com/robfig/cron/v3\<close>), the SQLite driver's reading of \<^verbatim>\<open>DATETIME\<close> columns
  (\<^verbatim>\<open>github.com/mattn/go-sqlite3\<close>), the time zone database of the host, and the table-driven
  parts of the standard library (\<^verbatim>\<open>net/url\<close>, \<^verbatim>\<open>encoding/json\<close>, the Unicode case tables,
  \<^verbatim>\<open>%q\<close> of non-printable text). What the emulator relies on is stated as the predicates at the
  end; a property that needs one has it as a hypothesis.
\<close>

text \<open>
  A \<^verbatim>\<open>map[string]string\<close> of headers, as the list of its entries in the order the map is ranged
  over; \<^const>\<open>None\<close> is the nil map.
\<close>

type_synonym headers = "(string \<times> string) list"

text \<open>A \<^verbatim>\<open>float64\<close>: a finite value, an infinity by its sign, or not a number.\<close>

datatype go_float = Fin rat | Infinite bool | NaN

record ext =
  url_parse :: "string \<Rightarrow> (string \<times> string) option"
  load_location :: "string \<Rightarrow> string option"
  cron_parse :: "string \<Rightarrow> string + (time \<Rightarrow> time)"
  dt_scan :: "string \<Rightarrow> time"
  hdr_marshal :: "headers \<Rightarrow> string"
  hdr_unmarshal :: "string \<Rightarrow> headers option"
  json_string :: "string \<Rightarrow> string"
  hmac_sha256 :: "string \<Rightarrow> string \<Rightarrow> string"
  status_text :: "int \<Rightarrow> string"
  unicode_upper :: "string \<Rightarrow> string"
  unicode_snake :: "string \<Rightarrow> string"
  unicode_quote :: "string \<Rightarrow> string"
  unicode_valid :: "string \<Rightarrow> string"
  parse_float :: "string \<Rightarrow> go_float option"
  format_float :: "rat \<Rightarrow> string"
  json_unstring :: "string \<Rightarrow> string + string"
  time_error :: "string \<Rightarrow> string"

text \<open>
  \<^verbatim>\<open>url_parse\<close> gives scheme and host, or nothing when \<^verbatim>\<open>url.Parse\<close> fails; \<^verbatim>\<open>load_location\<close>
  the error text of \<^verbatim>\<open>time.LoadLocation\<close>, if any; \<^verbatim>\<open>cron_parse\<close> the error text or the
  schedule's \<^verbatim>\<open>Next\<close> function; \<^verbatim>\<open>dt_scan\<close> the time the driver makes of the text of a
  \<^verbatim>\<open>DATETIME\<close> column; \<^verbatim>\<open>hdr_unmarshal\<close> the map left after \<^verbatim>\<open>json.Unmarshal\<close> into a nil map;
  \<^verbatim>\<open>json_string\<close> a string as a JSON literal; \<^verbatim>\<open>hmac_sha256\<close> the code of a text under a secret;
  \<^verbatim>\<open>status_text\<close> the table of \<^verbatim>\<open>http.StatusText\<close>; \<^verbatim>\<open>parse_float\<close> is \<^verbatim>\<open>strconv.ParseFloat(s, 64)\<close>,
  \<^verbatim>\<open>format_float\<close> \<^verbatim>\<open>strconv.FormatFloat(x, 'f', -1, 64)\<close>; \<^verbatim>\<open>json_unstring\<close> the error text of
  \<^verbatim>\<open>json.Unmarshal\<close> into a string, or the string; \<^verbatim>\<open>time_error\<close> the text of the error of
  \<^verbatim>\<open>time.Parse(time.RFC3339, s)\<close>.
\<close>

definition to_upper :: "ext \<Rightarrow> string \<Rightarrow> string" where
  "to_upper E s = (if list_all ascii s then map ascii_upper s else unicode_upper E s)"

text \<open>\<^verbatim>\<open>strings.ToValidUTF8(s, "")\<close>: ASCII text is valid as it is.\<close>

definition to_valid_utf8 :: "ext \<Rightarrow> string \<Rightarrow> string" where
  "to_valid_utf8 E s = (if list_all ascii s then s else unicode_valid E s)"

text \<open>\<^verbatim>\<open>fmt\<close>'s \<^verbatim>\<open>%q\<close>: printable ASCII is kept, with a backslash before quotes and backslashes.\<close>

definition printable :: "char \<Rightarrow> bool" where
  "printable c \<longleftrightarrow> (let n = of_char c :: nat in 32 \<le> n \<and> n \<le> 126)"

definition quote :: "ext \<Rightarrow> string \<Rightarrow> string" where
  "quote E s =
     (if list_all printable s
      then [CHR 0x22] @ concat (map (\<lambda>c. if c = CHR 0x22 \<or> c = CHR 0x5C then [CHR 0x5C, c] else [c]) s)
        @ [CHR 0x22]
      else unicode_quote E s)"

section \<open>What is relied on\<close>

text \<open>
  The driver reads the layouts SQLite and the emulator write back as the instants they denote:
  milliseconds for \<^const>\<open>formatTime\<close>, whole seconds for \<^verbatim>\<open>CURRENT_TIMESTAMP\<close>.
\<close>

definition driver_datetime :: "ext \<Rightarrow> bool" where
  "driver_datetime E \<longleftrightarrow>
     (\<forall>t. four_digit_year t \<longrightarrow>
        dt_scan E (formatTime t) = unix_milli t * Millisecond
      \<and> dt_scan E (current_timestamp t) = unix_sec t * Second)"

text \<open>\<^verbatim>\<open>json.Unmarshal\<close> reads back the entries \<^verbatim>\<open>json.Marshal\<close> wrote for the given header map.\<close>

definition json_reads_back :: "ext \<Rightarrow> headers \<Rightarrow> bool" where
  "json_reads_back E h \<longleftrightarrow> hdr_unmarshal E (hdr_marshal E h) = Some h \<and> hdr_marshal E h \<noteq> []"

text \<open>\<^verbatim>\<open>json.Marshal\<close> of an empty map.\<close>

definition json_empty_map :: "ext \<Rightarrow> bool" where
  "json_empty_map E \<longleftrightarrow> hdr_marshal E [] = ''{}''"

text \<open>\<^verbatim>\<open>json.Unmarshal\<close> reads back a string as \<^verbatim>\<open>json.Marshal\<close> wrote it, between quotes.\<close>

definition json_string_reads_back :: "ext \<Rightarrow> string \<Rightarrow> bool" where
  "json_string_reads_back E s \<longleftrightarrow> json_unstring E (json_string E s) = Inr s
     \<and> json_string E s \<noteq> [] \<and> hd (json_string E s) = CHR 0x22 \<and> last (json_string E s) = CHR 0x22"

text \<open>
  \<^verbatim>\<open>cron\<close>'s \<^verbatim>\<open>Schedule.Next\<close> returns a whole second strictly after its argument, or the zero
  time when no such second exists.
\<close>

definition cron_later :: "ext \<Rightarrow> bool" where
  "cron_later E \<longleftrightarrow>
     (\<forall>spec nx t. cron_parse E spec = Inr nx \<longrightarrow>
        is_zero (nx t) \<or> t < nx t \<and> nx t mod Second = 0)"

text \<open>
  A concrete environment, for evaluating the definitions: every zone exists, a schedule fires
  every whole minute, a URL is split at its first colon, headers have no JSON special characters.
\<close>

definition demo_url :: "string \<Rightarrow> (string \<times> string) option" where
  "demo_url u =
     (case go_cut colon u of
        (sch, r, True) \<Rightarrow>
          Some (sch, if has_prefix r ''//'' then fst (go_cut slash (drop 2 r)) else [])
      | _ \<Rightarrow> None)"

fun demo_marshal :: "headers \<Rightarrow> string" where
  "demo_marshal [] = ''{}''"
| "demo_marshal ((k, v) # r) = k @ CHR ''='' # v @ CHR '';'' # demo_marshal r"

definition demo_unmarshal :: "string \<Rightarrow> headers option" where
  "demo_unmarshal s =
     Some (map (\<lambda>e. case go_cut (CHR ''='') e of (k, v, _) \<Rightarrow> (k, v))
       (butlast (go_split (CHR '';'') s)))"

definition demo_dt :: "string \<Rightarrow> time" where
  "demo_dt s = (case parse_sqlite_layout s of Some t \<Rightarrow> t | None \<Rightarrow> zero_time)"

definition demo_next :: "time \<Rightarrow> time" where
  "demo_next t = (t div (60 * Second) + 1) * (60 * Second)"

definition demo_ext :: ext where
  "demo_ext = \<lparr>url_parse = demo_url, load_location = (\<lambda>_. None), cron_parse = (\<lambda>_. Inr demo_next),
     dt_scan = demo_dt, hdr_marshal = demo_marshal, hdr_unmarshal = demo_unmarshal,
     json_string = (\<lambda>s. [CHR 0x22] @ s @ [CHR 0x22]), hmac_sha256 = (\<lambda>k t. k @ t), status_text = (\<lambda>_. ''status''),
     unicode_upper = (\<lambda>s. s), unicode_snake = (\<lambda>s. s), unicode_quote = (\<lambda>s. s), unicode_valid = (\<lambda>s. s),
     parse_float = (\<lambda>s. map_option (\<lambda>n. Fin (of_int n)) (atoi s)), format_float = (\<lambda>x. itoa \<lfloor>x\<rfloor>),
     json_unstring = (\<lambda>s. Inr (butlast (tl s))), time_error = (\<lambda>s. s)\<rparr>"

lemma demo_driver_datetime: "driver_datetime demo_ext"
  by (simp add: driver_datetime_def demo_ext_def demo_dt_def parse_current_timestamp
      parse_sqlite_formatTime)

lemma demo_cron_later: "cron_later demo_ext"
proof -
  have "t < demo_next t" for t :: int
    using minus_mod_eq_mult_div [of t "60 * Second"] pos_mod_bound [of "60 * Second" t]
    by (simp add: demo_next_def algebra_simps)
  moreover have "demo_next t mod Second = 0" for t
    unfolding demo_next_def by (simp add: mult.assoc [symmetric])
  ultimately show ?thesis by (simp add: cron_later_def demo_ext_def)
qed

end
