(* ===== verification/Database.thy ===== *)
theory Database
  imports Externals
begin

text \<open>
  Package db and the SQLite tables: the schema the migrations leave, the rows as the columns store
  them, and the single SQL statement as the unit of atomicity. A table is the list of its rows in
  rowid order: the tables have \<^verbatim>\<open>TEXT\<close> primary keys, so a new row gets the next rowid and
  stands last. The connection pool has one connection (\<^verbatim>\<open>SetMaxOpenConns(1)\<close>), so statements
  never overlap. Any statement may fail: \<open>faults\<close> is the script of the failures still to come, one
  entry per statement, and an exhausted script means no more failures.
\<close>

section \<open>Errors\<close>

datatype db_error = SqliteError (ExtendedCode: int) (err_text: string)
  | DriverError (err_text: string)

definition ErrConstraintPrimaryKey :: int where "ErrConstraintPrimaryKey = 1555"
definition ErrConstraintUnique :: int where "ErrConstraintUnique = 2067"

text \<open>db/errors.go \<^verbatim>\<open>IsUniqueViolation\<close>; the nil error is \<^const>\<open>None\<close>.\<close>

definition IsUniqueViolation :: "db_error option \<Rightarrow> bool" where
  "IsUniqueViolation e =
     (case e of
        Some (SqliteError c _) \<Rightarrow> c = ErrConstraintPrimaryKey \<or> c = ErrConstraintUnique
      | _ \<Rightarrow> False)"

text \<open>The errors the repositories and the services built on them return.\<close>

datatype error = QueueNotFound | QueueAlreadyExists | TaskNotFound | TaskAlreadyExists
  | JobNotFound | JobAlreadyExists | ValidationError string | InvalidInput string | SqlError db_error

fun error_text :: "error \<Rightarrow> string" where
  "error_text QueueNotFound = ''queue not found''"
| "error_text QueueAlreadyExists = ''queue already exists''"
| "error_text TaskNotFound = ''task not found''"
| "error_text TaskAlreadyExists = ''task already exists''"
| "error_text JobNotFound = ''job not found''"
| "error_text JobAlreadyExists = ''job already exists''"
| "error_text (ValidationError m) = m"
| "error_text (InvalidInput m) = m"
| "error_text (SqlError e) = err_text e"

section \<open>Rows\<close>

record queue_row =
  qr_id :: string
  qr_project :: string
  qr_location :: string
  qr_name :: string
  qr_rate_limit :: int
  qr_max_concurrent :: int
  qr_created_at :: string
  qr_state :: string

record task_row =
  tr_id :: string
  tr_queue_id :: string
  tr_http_method :: string
  tr_url :: string
  tr_headers :: string
  tr_body :: string
  tr_schedule_time :: string
  tr_dispatch_deadline :: int
  tr_status :: string
  tr_retry_count :: int
  tr_max_retries :: int
  tr_next_attempt_at :: string
  tr_last_error :: "string option"
  tr_created_at :: string

record job_row =
  jr_id :: string
  jr_project :: string
  jr_location :: string
  jr_name :: string
  jr_description :: string
  jr_schedule :: string
  jr_time_zone :: string
  jr_http_method :: string
  jr_url :: string
  jr_headers :: string
  jr_body :: "string option"
  jr_state :: string
  jr_attempt_deadline_ms :: int
  jr_retry_count :: int
  jr_min_backoff_ms :: int
  jr_max_backoff_ms :: int
  jr_max_doublings :: int
  jr_max_retry_duration_ms :: int
  jr_next_run_at :: int
  jr_last_attempt_at :: int
  jr_last_status :: string
  jr_last_status_code :: int
  jr_last_error :: string
  jr_created_at :: int
  jr_updated_at :: int

record db =
  queue_tbl :: "queue_row list"
  task_tbl :: "task_row list"
  job_tbl :: "job_row list"
  faults :: "db_error option list"

definition empty_db :: db where
  "empty_db = \<lparr>queue_tbl = [], task_tbl = [], job_tbl = [], faults = []\<rparr>"

text \<open>The contents apart from the failure script.\<close>

definition tables :: "db \<Rightarrow> queue_row list \<times> task_row list \<times> job_row list" where
  "tables d = (queue_tbl d, task_tbl d, job_tbl d)"

text \<open>Primary keys are unique.\<close>

definition wf_db :: "db \<Rightarrow> bool" where
  "wf_db d \<longleftrightarrow> distinct (map qr_id (queue_tbl d)) \<and> distinct (map tr_id (task_tbl d))
     \<and> distinct (map jr_id (job_tbl d))"

section \<open>Statements\<close>

text \<open>One statement: it fails without effect when the script says so, and runs otherwise.\<close>

definition stmt :: "(db \<Rightarrow> (db_error + 'a) \<times> db) \<Rightarrow> db \<Rightarrow> (db_error + 'a) \<times> db" where
  "stmt f d =
     (case faults d of
        [] \<Rightarrow> f d
      | None # fs \<Rightarrow> f (d\<lparr>faults := fs\<rparr>)
      | Some e # fs \<Rightarrow> (Inl e, d\<lparr>faults := fs\<rparr>))"

text \<open>\<^verbatim>\<open>INSERT\<close>, \<^verbatim>\<open>UPDATE ... WHERE\<close> and \<^verbatim>\<open>DELETE ... WHERE\<close> on the rows of a table.\<close>

definition unique_failed :: "string \<Rightarrow> db_error" where
  "unique_failed col = SqliteError ErrConstraintPrimaryKey (''UNIQUE constraint failed: '' @ col)"

definition rows_insert :: "('r \<Rightarrow> string) \<Rightarrow> 'r \<Rightarrow> 'r list \<Rightarrow> 'r list option" where
  "rows_insert key r rs = (if key r \<in> set (map key rs) then None else Some (rs @ [r]))"

definition rows_update :: "('r \<Rightarrow> bool) \<Rightarrow> ('r \<Rightarrow> 'r) \<Rightarrow> 'r list \<Rightarrow> 'r list" where
  "rows_update P f rs = map (\<lambda>r. if P r then f r else r) rs"

definition rows_delete :: "('r \<Rightarrow> bool) \<Rightarrow> 'r list \<Rightarrow> 'r list" where
  "rows_delete P rs = filter (\<lambda>r. \<not> P r) rs"

definition rows_affected :: "('r \<Rightarrow> bool) \<Rightarrow> 'r list \<Rightarrow> int" where
  "rows_affected P rs = int (length (filter P rs))"

text \<open>\<^verbatim>\<open>LIMIT ? OFFSET ?\<close>: a negative limit is no limit, a negative offset is zero.\<close>

definition sql_limit :: "int \<Rightarrow> int \<Rightarrow> 'r list \<Rightarrow> 'r list" where
  "sql_limit limit off rs =
     (let rs' = drop (nat off) rs in if limit < 0 then rs' else take (nat limit) rs')"

definition insert_queue :: "queue_row \<Rightarrow> db \<Rightarrow> (db_error + unit) \<times> db" where
  "insert_queue r = stmt (\<lambda>d.
     case rows_insert qr_id r (queue_tbl d) of
       None \<Rightarrow> (Inl (unique_failed ''queues.id''), d)
     | Some rs \<Rightarrow> (Inr (), d\<lparr>queue_tbl := rs\<rparr>))"

definition insert_task :: "task_row \<Rightarrow> db \<Rightarrow> (db_error + unit) \<times> db" where
  "insert_task r = stmt (\<lambda>d.
     case rows_insert tr_id r (task_tbl d) of
       None \<Rightarrow> (Inl (unique_failed ''tasks.id''), d)
     | Some rs \<Rightarrow> (Inr (), d\<lparr>task_tbl := rs\<rparr>))"

definition insert_job :: "job_row \<Rightarrow> db \<Rightarrow> (db_error + unit) \<times> db" where
  "insert_job r = stmt (\<lambda>d.
     case rows_insert jr_id r (job_tbl d) of
       None \<Rightarrow> (Inl (unique_failed ''jobs.id''), d)
     | Some rs \<Rightarrow> (Inr (), d\<lparr>job_tbl := rs\<rparr>))"

definition update_queues :: "(queue_row \<Rightarrow> bool) \<Rightarrow> (queue_row \<Rightarrow> queue_row) \<Rightarrow> db \<Rightarrow> (db_error + int) \<times> db" where
  "update_queues P f = stmt (\<lambda>d.
     (Inr (rows_affected P (queue_tbl d)), d\<lparr>queue_tbl := rows_update P f (queue_tbl d)\<rparr>))"

definition update_tasks :: "(task_row \<Rightarrow> bool) \<Rightarrow> (task_row \<Rightarrow> task_row) \<Rightarrow> db \<Rightarrow> (db_error + int) \<times> db" where
  "update_tasks P f = stmt (\<lambda>d.
     (Inr (rows_affected P (task_tbl d)), d\<lparr>task_tbl := rows_update P f (task_tbl d)\<rparr>))"

definition update_jobs :: "(job_row \<Rightarrow> bool) \<Rightarrow> (job_row \<Rightarrow> job_row) \<Rightarrow> db \<Rightarrow> (db_error + int) \<times> db" where
  "update_jobs P f = stmt (\<lambda>d.
     (Inr (rows_affected P (job_tbl d)), d\<lparr>job_tbl := rows_update P f (job_tbl d)\<rparr>))"

definition delete_queues :: "(queue_row \<Rightarrow> bool) \<Rightarrow> db \<Rightarrow> (db_error + int) \<times> db" where
  "delete_queues P = stmt (\<lambda>d.
     (Inr (rows_affected P (queue_tbl d)), d\<lparr>queue_tbl := rows_delete P (queue_tbl d)\<rparr>))"

definition delete_tasks :: "(task_row \<Rightarrow> bool) \<Rightarrow> db \<Rightarrow> (db_error + int) \<times> db" where
  "delete_tasks P = stmt (\<lambda>d.
     (Inr (rows_affected P (task_tbl d)), d\<lparr>task_tbl := rows_delete P (task_tbl d)\<rparr>))"

definition delete_jobs :: "(job_row \<Rightarrow> bool) \<Rightarrow> db \<Rightarrow> (db_error + int) \<times> db" where
  "delete_jobs P = stmt (\<lambda>d.
     (Inr (rows_affected P (job_tbl d)), d\<lparr>job_tbl := rows_delete P (job_tbl d)\<rparr>))"

definition select :: "(db \<Rightarrow> 'a) \<Rightarrow> db \<Rightarrow> (db_error + 'a) \<times> db" where
  "select f = stmt (\<lambda>d. (Inr (f d), d))"

text \<open>\<^verbatim>\<open>Begin\<close> and \<^verbatim>\<open>Commit\<close> are statements; rolling back restores the tables.\<close>

definition begin_tx :: "db \<Rightarrow> (db_error + unit) \<times> db" where
  "begin_tx = stmt (\<lambda>d. (Inr (), d))"

definition commit_tx :: "db \<Rightarrow> (db_error + unit) \<times> db" where
  "commit_tx = stmt (\<lambda>d. (Inr (), d))"

definition rollback :: "db \<Rightarrow> db \<Rightarrow> db" where
  "rollback d0 d = d0\<lparr>faults := faults d\<rparr>"

section \<open>Facts about rows\<close>

lemma find_key_Some: "find (\<lambda>r. key r = k) rs = Some r \<Longrightarrow> r \<in> set rs \<and> key r = k"
  by (auto simp: find_Some_iff)

lemma find_key_None: "find (\<lambda>r. key r = k) rs = None \<longleftrightarrow> k \<notin> set (map key rs)"
  by (auto simp: find_None_iff)

lemma find_key_mem:
  "distinct (map key rs) \<Longrightarrow> r \<in> set rs \<Longrightarrow> find (\<lambda>x. key x = key r) rs = Some r"
  by (induction rs) auto

lemma find_key_snoc:
  "find (\<lambda>x. key x = key r) rs = None \<Longrightarrow>
   find (\<lambda>x. key x = k) (rs @ [r]) = (if k = key r then Some r else find (\<lambda>x. key x = k) rs)"
  by (induction rs) (auto split: if_splits)

lemma find_append: "find P (xs @ ys) = (case find P xs of None \<Rightarrow> find P ys | Some r \<Rightarrow> Some r)"
  by (induction xs) auto

lemma find_rows_update:
  assumes "\<And>r. key (f r) = key r"
  shows "find (\<lambda>r. key r = k) (rows_update P f rs)
    = map_option (\<lambda>r. if P r then f r else r) (find (\<lambda>r. key r = k) rs)"
  by (induction rs) (auto simp: rows_update_def assms)

lemma find_rows_delete:
  "distinct (map key rs) \<Longrightarrow> find (\<lambda>r. key r = k) (rows_delete P rs)
    = (case find (\<lambda>r. key r = k) rs of Some r \<Rightarrow> if P r then None else Some r | None \<Rightarrow> None)"
proof (induction rs)
  case (Cons r rs)
  have "find (\<lambda>x. key x = key r) rs = None" using Cons.prems by (simp add: find_key_None)
  with Cons show ?case by (auto simp: rows_delete_def)
qed (simp add: rows_delete_def)

lemma map_rows_update: "(\<And>r. g (f r) = g r) \<Longrightarrow> map g (rows_update P f rs) = map g rs"
  by (simp add: rows_update_def)

lemma set_rows_delete [simp]: "set (rows_delete P rs) = {r \<in> set rs. \<not> P r}"
  by (auto simp: rows_delete_def)

lemma distinct_rows_delete [wf_intros]: "distinct (map key rs) \<Longrightarrow> distinct (map key (rows_delete P rs))"
  by (simp add: rows_delete_def distinct_map_filter)

lemma rows_affected_0: "rows_affected P rs = 0 \<longleftrightarrow> (\<forall>r \<in> set rs. \<not> P r)"
  by (simp add: rows_affected_def filter_empty_conv)

lemma rows_affected_nonneg [simp]: "0 \<le> rows_affected P rs"
  by (simp add: rows_affected_def)

lemma rows_affected_key:
  "rows_affected (\<lambda>r. key r = k) rs = 0 \<longleftrightarrow> find (\<lambda>r. key r = k) rs = None"
  by (auto simp: rows_affected_0 find_None_iff)

lemma rows_affected_key_if:
  assumes "distinct (map key rs)"
  shows "rows_affected (\<lambda>r. key r = k \<and> P r) rs
    = (case find (\<lambda>r. key r = k) rs of Some r \<Rightarrow> if P r then 1 else 0 | None \<Rightarrow> 0)"
  using assms
proof (induction rs)
  case (Cons r rs)
  have "filter (\<lambda>x. key x = key r \<and> P x) rs = []"
    using Cons.prems by (auto simp: filter_empty_conv image_iff)
  with Cons show ?case by (auto simp: rows_affected_def)
qed (simp add: rows_affected_def)

lemma rows_update_none: "rows_affected P rs = 0 \<Longrightarrow> rows_update P f rs = rs"
  by (auto simp: rows_affected_0 rows_update_def intro: map_idI)

lemma rows_delete_none: "rows_affected P rs = 0 \<Longrightarrow> rows_delete P rs = rs"
  by (simp add: rows_affected_0 rows_delete_def filter_id_conv)

section \<open>Facts about statements\<close>

lemma stmt_nofault [simp]: "faults d = [] \<Longrightarrow> stmt f d = f d"
  by (simp add: stmt_def)

lemma stmt_cases:
  obtains (fault) e fs where "stmt f d = (Inl e, d\<lparr>faults := fs\<rparr>)"
    | (run) fs where "stmt f d = f (d\<lparr>faults := fs\<rparr>)"
proof (cases "faults d")
  case Nil
  then have "d = d\<lparr>faults := []\<rparr>" by simp
  with Nil have "stmt f d = f (d\<lparr>faults := []\<rparr>)" by (metis stmt_nofault)
  then show thesis by (rule run)
next
  case (Cons x fs)
  then show thesis by (cases x) (auto simp: stmt_def intro: that)
qed

lemma tables_eq_iff:
  "tables d = tables d' \<longleftrightarrow>
     queue_tbl d = queue_tbl d' \<and> task_tbl d = task_tbl d' \<and> job_tbl d = job_tbl d'"
  by (auto simp: tables_def)

lemma tables_faults [simp]: "tables (d\<lparr>faults := fs\<rparr>) = tables d"
  by (simp add: tables_def)

lemma tables_rollback [simp]: "tables (rollback d0 d) = tables d0"
  by (simp add: rollback_def)

lemma wf_db_tables: "tables d = tables d' \<Longrightarrow> wf_db d \<longleftrightarrow> wf_db d'"
  by (simp add: tables_eq_iff wf_db_def)

lemma wf_db_faults [simp]: "wf_db (d\<lparr>faults := fs\<rparr>) = wf_db d"
  by (simp add: wf_db_def)

lemma wf_empty [simp]: "wf_db empty_db"
  by (simp add: wf_db_def empty_db_def)

text \<open>
  A statement keeps a property of the tables when its body does; the failing statement keeps
  everything.
\<close>

lemma stmt_keeps:
  assumes "stmt f d = (r, d')" and "Q d" and "\<And>fs. Q (d\<lparr>faults := fs\<rparr>) = Q d"
    and "\<And>e r e'. Q e \<Longrightarrow> f e = (r, e') \<Longrightarrow> Q e'"
  shows "Q d'"
proof (cases rule: stmt_cases [of f d])
  case (fault e fs)
  with assms(1,2,3) show ?thesis by auto
next
  case (run fs)
  with assms(1) have "f (d\<lparr>faults := fs\<rparr>) = (r, d')" by simp
  moreover have "Q (d\<lparr>faults := fs\<rparr>)" using assms(2,3) by simp
  ultimately show ?thesis using assms(4) by blast
qed

lemma select_tables: "select f d = (r, d') \<Longrightarrow> tables d' = tables d"
  by (cases rule: stmt_cases [of "\<lambda>d. (Inr (f d), d)" d]) (auto simp: select_def)

lemma stmt_Inl_tables:
  assumes "stmt f d = (Inl e, d')" and "\<And>x y e. f x = (Inl e, y) \<Longrightarrow> tables y = tables x"
  shows "tables d' = tables d"
  using assms(1) assms(2) [of "d\<lparr>faults := _\<rparr>"]
  by (cases rule: stmt_cases [of f d]) auto

lemmas stmt_defs = insert_queue_def insert_task_def insert_job_def update_queues_def update_tasks_def
  update_jobs_def delete_queues_def delete_tasks_def delete_jobs_def select_def begin_tx_def commit_tx_def

section \<open>What each statement does\<close>

text \<open>
  For any failure script: an error leaves the tables as they were, success has the statement's
  effect. These are the facts the repositories' error behaviour rests on.
\<close>

lemma insert_queue_effect:
  assumes "insert_queue r d = (res, d')"
  shows "case res of Inl _ \<Rightarrow> tables d' = tables d
    | Inr _ \<Rightarrow> qr_id r \<notin> set (map qr_id (queue_tbl d)) \<and> queue_tbl d' = queue_tbl d @ [r]
        \<and> task_tbl d' = task_tbl d \<and> job_tbl d' = job_tbl d"
  using assms unfolding insert_queue_def
  by (cases rule: stmt_cases [of "\<lambda>d. case rows_insert qr_id r (queue_tbl d) of
        None \<Rightarrow> (Inl (unique_failed ''queues.id''), d) | Some rs \<Rightarrow> (Inr (), d\<lparr>queue_tbl := rs\<rparr>)" d])
    (auto simp: rows_insert_def split: if_splits)

lemma update_queues_effect:
  assumes "update_queues P f d = (res, d')"
  shows "case res of Inl _ \<Rightarrow> tables d' = tables d
    | Inr n \<Rightarrow> n = rows_affected P (queue_tbl d) \<and> queue_tbl d' = rows_update P f (queue_tbl d)
        \<and> task_tbl d' = task_tbl d \<and> job_tbl d' = job_tbl d"
  using assms unfolding update_queues_def
  by (cases rule: stmt_cases [of "\<lambda>d. (Inr (rows_affected P (queue_tbl d)),
        d\<lparr>queue_tbl := rows_update P f (queue_tbl d)\<rparr>)" d]) auto

lemma delete_queues_effect:
  assumes "delete_queues P d = (res, d')"
  shows "case res of Inl _ \<Rightarrow> tables d' = tables d
    | Inr n \<Rightarrow> n = rows_affected P (queue_tbl d) \<and> queue_tbl d' = rows_delete P (queue_tbl d)
        \<and> task_tbl d' = task_tbl d \<and> job_tbl d' = job_tbl d"
  using assms unfolding delete_queues_def
  by (cases rule: stmt_cases [of "\<lambda>d. (Inr (rows_affected P (queue_tbl d)),
        d\<lparr>queue_tbl := rows_delete P (queue_tbl d)\<rparr>)" d]) auto

lemma insert_task_effect:
  assumes "insert_task r d = (res, d')"
  shows "case res of Inl _ \<Rightarrow> tables d' = tables d
    | Inr _ \<Rightarrow> tr_id r \<notin> set (map tr_id (task_tbl d)) \<and> task_tbl d' = task_tbl d @ [r]
        \<and> queue_tbl d' = queue_tbl d \<and> job_tbl d' = job_tbl d"
  using assms unfolding insert_task_def
  by (cases rule: stmt_cases [of "\<lambda>d. case rows_insert tr_id r (task_tbl d) of
        None \<Rightarrow> (Inl (unique_failed ''tasks.id''), d) | Some rs \<Rightarrow> (Inr (), d\<lparr>task_tbl := rs\<rparr>)" d])
    (auto simp: rows_insert_def split: if_splits)

lemma update_tasks_effect:
  assumes "update_tasks P f d = (res, d')"
  shows "case res of Inl _ \<Rightarrow> tables d' = tables d
    | Inr n \<Rightarrow> n = rows_affected P (task_tbl d) \<and> task_tbl d' = rows_update P f (task_tbl d)
        \<and> queue_tbl d' = queue_tbl d \<and> job_tbl d' = job_tbl d"
  using assms unfolding update_tasks_def
  by (cases rule: stmt_cases [of "\<lambda>d. (Inr (rows_affected P (task_tbl d)),
        d\<lparr>task_tbl := rows_update P f (task_tbl d)\<rparr>)" d]) auto

lemma delete_tasks_effect:
  assumes "delete_tasks P d = (res, d')"
  shows "case res of Inl _ \<Rightarrow> tables d' = tables d
    | Inr n \<Rightarrow> n = rows_affected P (task_tbl d) \<and> task_tbl d' = rows_delete P (task_tbl d)
        \<and> queue_tbl d' = queue_tbl d \<and> job_tbl d' = job_tbl d"
  using assms unfolding delete_tasks_def
  by (cases rule: stmt_cases [of "\<lambda>d. (Inr (rows_affected P (task_tbl d)),
        d\<lparr>task_tbl := rows_delete P (task_tbl d)\<rparr>)" d]) auto

lemma insert_job_effect:
  assumes "insert_job r d = (res, d')"
  shows "case res of Inl _ \<Rightarrow> tables d' = tables d
    | Inr _ \<Rightarrow> jr_id r \<notin> set (map jr_id (job_tbl d)) \<and> job_tbl d' = job_tbl d @ [r]
        \<and> queue_tbl d' = queue_tbl d \<and> task_tbl d' = task_tbl d"
  using assms unfolding insert_job_def
  by (cases rule: stmt_cases [of "\<lambda>d. case rows_insert jr_id r (job_tbl d) of
        None \<Rightarrow> (Inl (unique_failed ''jobs.id''), d) | Some rs \<Rightarrow> (Inr (), d\<lparr>job_tbl := rs\<rparr>)" d])
    (auto simp: rows_insert_def split: if_splits)

lemma update_jobs_effect:
  assumes "update_jobs P f d = (res, d')"
  shows "case res of Inl _ \<Rightarrow> tables d' = tables d
    | Inr n \<Rightarrow> n = rows_affected P (job_tbl d) \<and> job_tbl d' = rows_update P f (job_tbl d)
        \<and> queue_tbl d' = queue_tbl d \<and> task_tbl d' = task_tbl d"
  using assms unfolding update_jobs_def
  by (cases rule: stmt_cases [of "\<lambda>d. (Inr (rows_affected P (job_tbl d)),
        d\<lparr>job_tbl := rows_update P f (job_tbl d)\<rparr>)" d]) auto

lemma delete_jobs_effect:
  assumes "delete_jobs P d = (res, d')"
  shows "case res of Inl _ \<Rightarrow> tables d' = tables d
    | Inr n \<Rightarrow> n = rows_affected P (job_tbl d) \<and> job_tbl d' = rows_delete P (job_tbl d)
        \<and> queue_tbl d' = queue_tbl d \<and> task_tbl d' = task_tbl d"
  using assms unfolding delete_jobs_def
  by (cases rule: stmt_cases [of "\<lambda>d. (Inr (rows_affected P (job_tbl d)),
        d\<lparr>job_tbl := rows_delete P (job_tbl d)\<rparr>)" d]) auto

lemma select_effect:
  assumes "select f d = (res, d')"
  shows "tables d' = tables d \<and> (case res of Inl _ \<Rightarrow> True | Inr x \<Rightarrow> x = f (d\<lparr>faults := faults d'\<rparr>))"
proof (cases rule: stmt_cases [of "\<lambda>d. (Inr (f d), d)" d])
  case (fault e fs)
  with assms have "res = Inl e" "d' = d\<lparr>faults := fs\<rparr>" by (auto simp: select_def)
  then show ?thesis by simp
next
  case (run fs)
  with assms have "res = Inr (f (d\<lparr>faults := fs\<rparr>))" "d' = d\<lparr>faults := fs\<rparr>" by (auto simp: select_def)
  then show ?thesis by simp
qed

lemma tx_effect:
  "begin_tx d = (res, d') \<Longrightarrow> tables d' = tables d"
  "commit_tx d = (res, d') \<Longrightarrow> tables d' = tables d"
  using select_effect [of "\<lambda>_. ()" d] by (auto simp: begin_tx_def commit_tx_def select_def)

lemmas stmt_effects = insert_queue_effect insert_task_effect insert_job_effect
  update_queues_effect update_tasks_effect update_jobs_effect
  delete_queues_effect delete_tasks_effect delete_jobs_effect select_effect tx_effect

end
