(* ===== verification/Repo_Spec.thy ===== *)
theory Repo_Spec
  imports Database
begin

text \<open>
  What the clients of a repository rely on, as interfaces. \<open>keyed_repository\<close> is the contract of
  create, get and delete under a primary key: a repository refines a partial map from keys to
  values. \<open>claimable\<close> is the contract of the two compare-and-swap updates that hand work to
  exactly one of several competing callers. Each is interpreted on the model of every repository
  that provides it, in that repository's theory.
\<close>

section \<open>Repositories as partial maps\<close>

locale keyed_repository =
  fixes ok :: "'s \<Rightarrow> bool"
    and lookup :: "'k \<Rightarrow> 's \<Rightarrow> 'v option"
    and create :: "'n \<Rightarrow> 's \<Rightarrow> ('e + 'x) \<times> 's"
    and remove :: "'k \<Rightarrow> 's \<Rightarrow> ('e + unit) \<times> 's"
    and key :: "'n \<Rightarrow> 'k"
    and stored :: "'n \<Rightarrow> 'v"
    and taken missing :: 'e
  assumes create_new: "ok s \<Longrightarrow> lookup (key n) s = None \<Longrightarrow>
      \<exists>x s'. create n s = (Inr x, s') \<and> ok s'
        \<and> (\<forall>k. lookup k s' = (if k = key n then Some (stored n) else lookup k s))"
    and create_taken: "ok s \<Longrightarrow> lookup (key n) s \<noteq> None \<Longrightarrow> create n s = (Inl taken, s)"
    and remove_present: "ok s \<Longrightarrow> lookup k s \<noteq> None \<Longrightarrow>
      \<exists>s'. remove k s = (Inr (), s') \<and> ok s'
        \<and> (\<forall>k'. lookup k' s' = (if k' = k then None else lookup k' s))"
    and remove_missing: "ok s \<Longrightarrow> lookup k s = None \<Longrightarrow> remove k s = (Inl missing, s)"
begin

text \<open>The repository as a partial map, and what the operations do to it.\<close>

lemma create_map:
  assumes "ok s" "lookup (key n) s = None" "create n s = (r, s')"
  shows "(\<lambda>k. lookup k s') = (\<lambda>k. lookup k s)(key n \<mapsto> stored n)" and "ok s'" and "\<exists>x. r = Inr x"
  using create_new [OF assms(1,2)] assms(3) by (auto simp: fun_eq_iff)

lemma remove_map:
  assumes "ok s" "remove k s = (r, s')"
  shows "(\<lambda>k. lookup k s') = (\<lambda>k. lookup k s)(k := None)" and "ok s'"
    and "r = (if lookup k s = None then Inl missing else Inr ())"
proof -
  have "(\<lambda>k. lookup k s') = (\<lambda>k. lookup k s)(k := None) \<and> ok s'
      \<and> r = (if lookup k s = None then Inl missing else Inr ())"
  proof (cases "lookup k s = None")
    case True
    with remove_missing [OF assms(1) True] assms show ?thesis by (simp add: fun_eq_iff)
  next
    case False
    with remove_present [OF assms(1) False] assms(2) show ?thesis by (auto simp: fun_eq_iff)
  qed
  then show "(\<lambda>k. lookup k s') = (\<lambda>k. lookup k s)(k := None)" and "ok s'"
    and "r = (if lookup k s = None then Inl missing else Inr ())" by simp_all
qed

lemma create_lookup: "ok s \<Longrightarrow> create n s = (Inr x, s') \<Longrightarrow> lookup (key n) s' = Some (stored n)"
  using create_new [of s n] create_taken [of s n] by (cases "lookup (key n) s") auto

lemma create_other:
  "ok s \<Longrightarrow> create n s = (r, s') \<Longrightarrow> k \<noteq> key n \<Longrightarrow> lookup k s' = lookup k s"
  using create_new [of s n] create_taken [of s n] by (cases "lookup (key n) s") auto

lemma create_ok: "ok s \<Longrightarrow> create n s = (r, s') \<Longrightarrow> ok s'"
  using create_new [of s n] create_taken [of s n] by (cases "lookup (key n) s") auto

lemma create_Inl_iff: "ok s \<Longrightarrow> fst (create n s) = Inl taken \<longleftrightarrow> lookup (key n) s \<noteq> None"
  using create_new [of s n] create_taken [of s n] by (cases "lookup (key n) s") auto

lemma create_twice:
  "ok s \<Longrightarrow> create n s = (Inr x, s') \<Longrightarrow> key n' = key n \<Longrightarrow> create n' s' = (Inl taken, s')"
  using create_taken [of s' n'] create_lookup [of s n x s'] create_ok [of s n "Inr x" s'] by simp

lemma create_remove:
  assumes "ok s" "lookup (key n) s = None" "create n s = (r, s')" "remove (key n) s' = (r', s'')"
  shows "r' = Inr ()" and "lookup k s'' = lookup k s"
  using create_map [OF assms(1-3)] remove_map [OF _ assms(4)] assms(2)
  by (auto simp: fun_eq_iff split: if_splits)

end

section \<open>Claims\<close>

text \<open>Several callers claim in turn; the winners are the calls that returned true.\<close>

fun winners :: "('k \<Rightarrow> 's \<Rightarrow> bool \<times> 's) \<Rightarrow> 'k list \<Rightarrow> 's \<Rightarrow> 'k list \<times> 's" where
  "winners claim [] s = ([], s)"
| "winners claim (k # ks) s =
     (case claim k s of (b, s') \<Rightarrow>
        (case winners claim ks s' of (ws, s'') \<Rightarrow> (if b then k # ws else ws, s'')))"

locale claimable =
  fixes ok :: "'s \<Rightarrow> bool"
    and claim :: "'k \<Rightarrow> 's \<Rightarrow> bool \<times> 's"
    and free :: "'k \<Rightarrow> 's \<Rightarrow> bool"
  assumes claim_result: "ok s \<Longrightarrow> fst (claim k s) = free k s"
    and claim_ok: "ok s \<Longrightarrow> ok (snd (claim k s))"
    and claim_free: "ok s \<Longrightarrow> free k' (snd (claim k s)) \<longleftrightarrow> free k' s \<and> k' \<noteq> k"
begin

lemma snd_winners: "snd (winners claim (k # ks) s) = snd (winners claim ks (snd (claim k s)))"
  by (simp split: prod.splits)

lemma winners_free: "ok s \<Longrightarrow> free k (snd (winners claim ks s)) \<Longrightarrow> free k s"
proof (induction ks arbitrary: s)
  case (Cons a ks)
  from Cons.prems(2) have "free k (snd (winners claim ks (snd (claim a s))))"
    unfolding snd_winners .
  from Cons.IH [OF claim_ok [OF Cons.prems(1)] this] show ?case
    using Cons.prems(1) by (simp add: claim_free)
qed simp

lemma winners_spec:
  "ok s \<Longrightarrow> winners claim ks s = (ws, s') \<Longrightarrow>
     distinct ws \<and> set ws = {k \<in> set ks. free k s} \<and> ok s' \<and> (\<forall>k \<in> set ks. \<not> free k s')"
proof (induction ks arbitrary: s ws)
  case (Cons k ks)
  obtain ws' where w: "winners claim ks (snd (claim k s)) = (ws', s')"
    and ws: "ws = (if free k s then k # ws' else ws')"
    using Cons.prems by (auto simp: claim_result [symmetric] split: prod.splits)
  have "ok (snd (claim k s))" using Cons.prems(1) by (rule claim_ok)
  from Cons.IH [OF this w] have IH: "distinct ws'" "set ws' = {x \<in> set ks. free x s \<and> x \<noteq> k}"
    "ok s'" "\<forall>x \<in> set ks. \<not> free x s'"
    using Cons.prems(1) by (simp_all add: claim_free)
  have "\<not> free k s'"
    using winners_free [OF \<open>ok (snd (claim k s))\<close>, of k ks] w Cons.prems(1) by (auto simp: claim_free)
  with IH show ?case by (auto simp: ws)
qed simp

lemma winners_once: "ok s \<Longrightarrow> distinct (fst (winners claim ks s))"
  using winners_spec [of s ks "fst (winners claim ks s)" "snd (winners claim ks s)"] by simp

lemma winners_exact: "ok s \<Longrightarrow> set (fst (winners claim ks s)) = {k \<in> set ks. free k s}"
  using winners_spec [of s ks "fst (winners claim ks s)" "snd (winners claim ks s)"] by simp

end

end
