(* ===== verification/Queues.thy ===== *)
theory Queues
  imports Repo_Spec
begin

text \<open>
  Package queues: the queue record, its name rules (queues/model.go) and the repository over the
  queues table (queues/repository.go). \<^verbatim>\<open>queue_X\<close> models the method \<^verbatim>\<open>Repository.X\<close>; it takes the
  time where the method or its SQL reads the clock, and the database before, and returns the
  result and the database after. Shown: the repository refines a partial map
  (\<^verbatim>\<open>keyed_repository\<close>), every operation keeps the queue invariant (names, positive limits,
  one of the two states), and deletion is all or nothing under any statement failure.
\<close>

section \<open>Model\<close>

definition StateRunning :: string where "StateRunning = ''RUNNING''"
definition StatePaused :: string where "StatePaused = ''PAUSED''"

definition DefaultMaxDispatchesPerSecond :: int where "DefaultMaxDispatchesPerSecond = 500"
definition DefaultMaxConcurrentDispatches :: int where "DefaultMaxConcurrentDispatches = 1000"

definition queue_ValidateName :: "ext \<Rightarrow> string \<Rightarrow> error option" where
  "queue_ValidateName E name =
     (if \<not> match_name 100 name
      then Some (InvalidInput (''invalid queue name '' @ quote E name
             @ '': use 1-100 letters, numbers, hyphens or underscores''))
      else None)"

record RateLimits =
  MaxDispatchesPerSecond :: int
  MaxConcurrentDispatches :: int

record Queue =
  q_ID :: string
  q_Name :: string
  q_Project :: string
  q_Location :: string
  q_State :: string
  q_RateLimits :: "RateLimits option"
  q_CreatedAt :: time

definition Paused :: "Queue \<Rightarrow> bool" where
  "Paused q \<longleftrightarrow> q_State q = StatePaused"

definition queue_path :: "string \<Rightarrow> string \<Rightarrow> string \<Rightarrow> string" where
  "queue_path project location name =
     ''projects/'' @ project @ ''/locations/'' @ location @ ''/queues/'' @ name"

definition queue_ResourceName :: "Queue \<Rightarrow> string \<Rightarrow> string \<Rightarrow> string" where
  "queue_ResourceName q project location =
     (let project = (if project = [] then q_Project q else project);
          location = (if location = [] then q_Location q else location)
      in queue_path project location (q_Name q))"

section \<open>Repository\<close>

definition scanQueue :: "ext \<Rightarrow> queue_row \<Rightarrow> Queue" where
  "scanQueue E r = \<lparr>q_ID = qr_id r, q_Name = qr_name r, q_Project = qr_project r,
     q_Location = qr_location r, q_State = qr_state r,
     q_RateLimits = Some \<lparr>MaxDispatchesPerSecond = qr_rate_limit r,
                          MaxConcurrentDispatches = qr_max_concurrent r\<rparr>,
     q_CreatedAt = dt_scan E (qr_created_at r)\<rparr>"

text \<open>The limits \<^verbatim>\<open>Create\<close> stores: the given ones where positive, the defaults otherwise.\<close>

definition effective_limits :: "RateLimits option \<Rightarrow> RateLimits" where
  "effective_limits rl =
     \<lparr>MaxDispatchesPerSecond =
        (case rl of
           Some l \<Rightarrow> if MaxDispatchesPerSecond l > 0 then MaxDispatchesPerSecond l
                     else DefaultMaxDispatchesPerSecond
         | None \<Rightarrow> DefaultMaxDispatchesPerSecond),
      MaxConcurrentDispatches =
        (case rl of
           Some l \<Rightarrow> if MaxConcurrentDispatches l > 0 then MaxConcurrentDispatches l
                     else DefaultMaxConcurrentDispatches
         | None \<Rightarrow> DefaultMaxConcurrentDispatches)\<rparr>"

definition queue_insert_row :: "time \<Rightarrow> Queue \<Rightarrow> queue_row" where
  "queue_insert_row now q =
     (let rl = effective_limits (q_RateLimits q)
      in \<lparr>qr_id = q_ID q, qr_project = q_Project q, qr_location = q_Location q, qr_name = q_Name q,
          qr_rate_limit = MaxDispatchesPerSecond rl, qr_max_concurrent = MaxConcurrentDispatches rl,
          qr_created_at = current_timestamp now, qr_state = q_State q\<rparr>)"

text \<open>The identifier and state \<^verbatim>\<open>Create\<close> sets on its argument before the \<^verbatim>\<open>INSERT\<close>.\<close>

definition queue_prepared :: "Queue \<Rightarrow> Queue" where
  "queue_prepared q =
     (let q = q\<lparr>q_ID := queue_ResourceName q (q_Project q) (q_Location q)\<rparr>
      in if q_State q = [] then q\<lparr>q_State := StateRunning\<rparr> else q)"

definition queue_Create :: "time \<Rightarrow> Queue \<Rightarrow> db \<Rightarrow> (error + Queue) \<times> db" where
  "queue_Create now q d =
     (let q = queue_prepared q
      in case insert_queue (queue_insert_row now q) d of
           (Inl e, d) \<Rightarrow>
             (if IsUniqueViolation (Some e) then Inl QueueAlreadyExists else Inl (SqlError e), d)
         | (Inr _, d) \<Rightarrow> (Inr (q\<lparr>q_RateLimits := Some (effective_limits (q_RateLimits q))\<rparr>), d))"

definition find_queue :: "string \<Rightarrow> db \<Rightarrow> queue_row option" where
  "find_queue qid d = find (\<lambda>r. qr_id r = qid) (queue_tbl d)"

definition queue_Get :: "ext \<Rightarrow> string \<Rightarrow> db \<Rightarrow> (error + Queue option) \<times> db" where
  "queue_Get E qid d =
     (case select (find_queue qid) d of
        (Inl e, d) \<Rightarrow> (Inl (SqlError e), d)
      | (Inr r, d) \<Rightarrow> (Inr (map_option (scanQueue E) r), d))"

definition queue_query :: "ext \<Rightarrow> (db \<Rightarrow> queue_row list) \<Rightarrow> db \<Rightarrow> (error + Queue list) \<times> db" where
  "queue_query E sel d =
     (case select sel d of
        (Inl e, d) \<Rightarrow> (Inl (SqlError e), d)
      | (Inr rs, d) \<Rightarrow> (Inr (map (scanQueue E) rs), d))"

definition queue_ListAll :: "ext \<Rightarrow> db \<Rightarrow> (error + Queue list) \<times> db" where
  "queue_ListAll E =
     queue_query E (\<lambda>d. sort_key (\<lambda>r. (qr_project r, qr_location r, qr_name r)) (queue_tbl d))"

definition queue_List :: "ext \<Rightarrow> string \<Rightarrow> string \<Rightarrow> db \<Rightarrow> (error + Queue list) \<times> db" where
  "queue_List E project location =
     queue_query E (\<lambda>d. sort_key qr_name
       (filter (\<lambda>r. qr_project r = project \<and> qr_location r = location) (queue_tbl d)))"

text \<open>\<^verbatim>\<open>Delete\<close> runs in a transaction that every early return rolls back.\<close>

definition queue_Delete :: "string \<Rightarrow> db \<Rightarrow> (error + unit) \<times> db" where
  "queue_Delete qid d0 =
     (case begin_tx d0 of
        (Inl e, d) \<Rightarrow> (Inl (SqlError e), d)
      | (Inr _, d) \<Rightarrow>
     (case delete_queues (\<lambda>r. qr_id r = qid) d of
        (Inl e, d) \<Rightarrow> (Inl (SqlError e), rollback d0 d)
      | (Inr n, d) \<Rightarrow>
        if n = 0 then (Inl QueueNotFound, rollback d0 d)
        else
     (case delete_tasks (\<lambda>r. tr_queue_id r = qid) d of
        (Inl e, d) \<Rightarrow> (Inl (SqlError e), rollback d0 d)
      | (Inr _, d) \<Rightarrow>
     (case commit_tx d of
        (Inl e, d) \<Rightarrow> (Inl (SqlError e), rollback d0 d)
      | (Inr _, d) \<Rightarrow> (Inr (), d)))))"

definition queue_SetState :: "string \<Rightarrow> string \<Rightarrow> db \<Rightarrow> (error + unit) \<times> db" where
  "queue_SetState qid state d =
     (case update_queues (\<lambda>r. qr_id r = qid) (\<lambda>r. r\<lparr>qr_state := state\<rparr>) d of
        (Inl e, d) \<Rightarrow> (Inl (SqlError e), d)
      | (Inr n, d) \<Rightarrow> (if n = 0 then Inl QueueNotFound else Inr (), d))"

definition queue_Purge :: "ext \<Rightarrow> string \<Rightarrow> db \<Rightarrow> (error + int) \<times> db" where
  "queue_Purge E qid d =
     (case queue_Get E qid d of
        (Inl e, d) \<Rightarrow> (Inl e, d)
      | (Inr None, d) \<Rightarrow> (Inl QueueNotFound, d)
      | (Inr (Some _), d) \<Rightarrow>
          (case delete_tasks (\<lambda>r. tr_queue_id r = qid) d of
             (Inl e, d) \<Rightarrow> (Inl (SqlError e), d)
           | (Inr n, d) \<Rightarrow> (Inr n, d)))"

definition set_limits :: "RateLimits \<Rightarrow> queue_row \<Rightarrow> queue_row" where
  "set_limits rl r =
     r\<lparr>qr_rate_limit := (if MaxDispatchesPerSecond rl > 0 then MaxDispatchesPerSecond rl
                         else qr_rate_limit r),
       qr_max_concurrent := (if MaxConcurrentDispatches rl > 0 then MaxConcurrentDispatches rl
                         else qr_max_concurrent r)\<rparr>"

definition queue_UpdateRateLimits :: "string \<Rightarrow> RateLimits \<Rightarrow> db \<Rightarrow> (error + unit) \<times> db" where
  "queue_UpdateRateLimits qid rl d =
     (case update_queues (\<lambda>r. qr_id r = qid) (set_limits rl) d of
        (Inl e, d) \<Rightarrow> (Inl (SqlError e), d)
      | (Inr n, d) \<Rightarrow> (if n = 0 then Inl QueueNotFound else Inr (), d))"

lemmas queue_ops = queue_Create_def queue_Get_def queue_query_def queue_ListAll_def queue_List_def
  queue_Delete_def queue_SetState_def queue_Purge_def queue_UpdateRateLimits_def

section \<open>The repository as a partial map\<close>

definition db_ok :: "db \<Rightarrow> bool" where
  "db_ok d \<longleftrightarrow> wf_db d \<and> faults d = []"

definition queue_lookup :: "ext \<Rightarrow> string \<Rightarrow> db \<Rightarrow> Queue option" where
  "queue_lookup E qid d = map_option (scanQueue E) (find_queue qid d)"

lemma db_okD: "db_ok d \<Longrightarrow> faults d = []" "db_ok d \<Longrightarrow> wf_db d"
  by (simp_all add: db_ok_def)

lemma queue_Get_lookup: "db_ok d \<Longrightarrow> queue_Get E qid d = (Inr (queue_lookup E qid d), d)"
  by (simp add: queue_Get_def queue_lookup_def select_def db_ok_def)

lemma queue_prepared_simps [simp]:
  "q_ID (queue_prepared q) = queue_path (q_Project q) (q_Location q) (q_Name q)"
  "q_RateLimits (queue_prepared q) = q_RateLimits q"
  by (simp_all add: queue_prepared_def queue_ResourceName_def Let_def)

lemma qr_id_insert_row [simp]: "qr_id (queue_insert_row now q) = q_ID q"
  by (simp add: queue_insert_row_def Let_def)

lemma unique_failed_violation [simp]: "IsUniqueViolation (Some (unique_failed c))"
  by (simp add: IsUniqueViolation_def unique_failed_def)

lemma queue_Create_ok:
  assumes "db_ok d"
  shows "queue_Create now q d =
    (if find_queue (queue_path (q_Project q) (q_Location q) (q_Name q)) d \<noteq> None
     then (Inl QueueAlreadyExists, d)
     else (Inr ((queue_prepared q)\<lparr>q_RateLimits := Some (effective_limits (q_RateLimits q))\<rparr>),
           d\<lparr>queue_tbl := queue_tbl d @ [queue_insert_row now (queue_prepared q)]\<rparr>))"
  using assms
  by (auto simp: queue_Create_def Let_def insert_queue_def rows_insert_def db_ok_def
      find_queue_def find_key_None [of qr_id])

lemma queue_Delete_ok:
  assumes "db_ok d"
  shows "queue_Delete qid d =
    (if find_queue qid d = None then (Inl QueueNotFound, d)
     else (Inr (), d\<lparr>queue_tbl := rows_delete (\<lambda>r. qr_id r = qid) (queue_tbl d),
                      task_tbl := rows_delete (\<lambda>r. tr_queue_id r = qid) (task_tbl d)\<rparr>))"
  using assms
  by (simp add: queue_Delete_def stmt_defs db_ok_def rows_affected_key find_queue_def rollback_def)

interpretation queue_repo: keyed_repository db_ok "queue_lookup E" "queue_Create now" queue_Delete
  "\<lambda>q. queue_path (q_Project q) (q_Location q) (q_Name q)"
  "\<lambda>q. scanQueue E (queue_insert_row now (queue_prepared q))" QueueAlreadyExists QueueNotFound
proof (unfold_locales, goal_cases)
  case (1 d q)
  let ?r = "queue_insert_row now (queue_prepared q)"
  have n: "find (\<lambda>r. qr_id r = qr_id ?r) (queue_tbl d) = None"
    using 1 by (simp add: queue_lookup_def find_queue_def)
  have "qr_id ?r \<notin> set (map qr_id (queue_tbl d))" using n by (simp only: find_key_None) simp
  with 1 show ?case
    by (auto simp: queue_Create_ok queue_lookup_def db_ok_def wf_db_def find_queue_def find_key_snoc [OF n])
next
  case (2 d q)
  then show ?case by (simp add: queue_Create_ok queue_lookup_def)
next
  case (3 d qid)
  then have "distinct (map qr_id (queue_tbl d))" by (simp add: db_ok_def wf_db_def)
  with 3 show ?case
    by (auto simp: queue_Delete_ok queue_lookup_def db_ok_def wf_db_def find_queue_def
        find_rows_delete [of qr_id] intro: distinct_rows_delete split: option.splits
        dest: find_key_Some [of qr_id])
next
  case (4 d qid)
  then show ?case by (simp add: queue_Delete_ok queue_lookup_def)
qed

section \<open>Effects under any failure script\<close>

lemma queue_Create_effect:
  assumes "queue_Create now q d = (r, d')"
  shows "case r of Inl _ \<Rightarrow> tables d' = tables d
    | Inr _ \<Rightarrow> find_queue (queue_path (q_Project q) (q_Location q) (q_Name q)) d = None
        \<and> queue_tbl d' = queue_tbl d @ [queue_insert_row now (queue_prepared q)]
        \<and> task_tbl d' = task_tbl d \<and> job_tbl d' = job_tbl d"
proof -
  obtain x d1 where i: "insert_queue (queue_insert_row now (queue_prepared q)) d = (x, d1)"
    by (cases "insert_queue (queue_insert_row now (queue_prepared q)) d")
  from insert_queue_effect [OF this] assms i show ?thesis
    by (cases x) (auto simp: queue_Create_def Let_def find_queue_def find_key_None [of qr_id] split: if_splits)
qed

lemma queue_SetState_effect:
  assumes "queue_SetState qid st d = (r, d')"
  shows "case r of Inl _ \<Rightarrow> tables d' = tables d
    | Inr _ \<Rightarrow> find_queue qid d \<noteq> None
        \<and> queue_tbl d' = rows_update (\<lambda>r. qr_id r = qid) (\<lambda>r. r\<lparr>qr_state := st\<rparr>) (queue_tbl d)
        \<and> task_tbl d' = task_tbl d \<and> job_tbl d' = job_tbl d"
proof -
  obtain x d1 where u: "update_queues (\<lambda>r. qr_id r = qid) (\<lambda>r. r\<lparr>qr_state := st\<rparr>) d = (x, d1)"
    by (cases "update_queues (\<lambda>r. qr_id r = qid) (\<lambda>r. r\<lparr>qr_state := st\<rparr>) d")
  from update_queues_effect [OF this] assms u show ?thesis
    by (cases x) (auto simp: queue_SetState_def find_queue_def rows_affected_key rows_update_none
        tables_def split: if_splits)
qed

lemma queue_UpdateRateLimits_effect:
  assumes "queue_UpdateRateLimits qid rl d = (r, d')"
  shows "case r of Inl _ \<Rightarrow> tables d' = tables d
    | Inr _ \<Rightarrow> find_queue qid d \<noteq> None
        \<and> queue_tbl d' = rows_update (\<lambda>r. qr_id r = qid) (set_limits rl) (queue_tbl d)
        \<and> task_tbl d' = task_tbl d \<and> job_tbl d' = job_tbl d"
proof -
  obtain x d1 where u: "update_queues (\<lambda>r. qr_id r = qid) (set_limits rl) d = (x, d1)"
    by (cases "update_queues (\<lambda>r. qr_id r = qid) (set_limits rl) d")
  from update_queues_effect [OF this] assms u show ?thesis
    by (cases x) (auto simp: queue_UpdateRateLimits_def find_queue_def rows_affected_key rows_update_none
        tables_def split: if_splits)
qed

lemma queue_Get_effect:
  assumes "queue_Get E qid d = (r, d')"
  shows "tables d' = tables d \<and> (case r of Inl _ \<Rightarrow> True | Inr q \<Rightarrow> q = queue_lookup E qid d)"
proof -
  obtain x d1 where u: "select (find_queue qid) d = (x, d1)" by (cases "select (find_queue qid) d")
  from select_effect [OF this] assms u show ?thesis
    by (cases x) (auto simp: queue_Get_def queue_lookup_def find_queue_def)
qed

lemma queue_query_effect:
  assumes "queue_query E sel d = (r, d')" and "\<And>d fs. sel (d\<lparr>faults := fs\<rparr>) = sel d"
  shows "tables d' = tables d \<and> (case r of Inl _ \<Rightarrow> True | Inr qs \<Rightarrow> qs = map (scanQueue E) (sel d))"
proof -
  obtain x d1 where u: "select sel d = (x, d1)" by (cases "select sel d")
  from select_effect [OF this] assms u show ?thesis by (cases x) (auto simp: queue_query_def)
qed

lemma queue_Purge_effect:
  assumes "queue_Purge E qid d = (r, d')"
  shows "case r of Inl _ \<Rightarrow> tables d' = tables d
    | Inr n \<Rightarrow> find_queue qid d \<noteq> None \<and> n = rows_affected (\<lambda>r. tr_queue_id r = qid) (task_tbl d)
        \<and> task_tbl d' = rows_delete (\<lambda>r. tr_queue_id r = qid) (task_tbl d)
        \<and> queue_tbl d' = queue_tbl d \<and> job_tbl d' = job_tbl d"
proof -
  obtain x d1 where g: "queue_Get E qid d = (x, d1)" by (cases "queue_Get E qid d")
  obtain y d2 where u: "delete_tasks (\<lambda>r. tr_queue_id r = qid) d1 = (y, d2)"
    by (cases "delete_tasks (\<lambda>r. tr_queue_id r = qid) d1")
  note G = queue_Get_effect [OF g] and U = delete_tasks_effect [OF u]
  show ?thesis
  proof (cases x)
    case (Inl e)
    with G assms g show ?thesis by (auto simp: queue_Purge_def)
  next
    case (Inr qo)
    with G U assms g u show ?thesis
      by (cases "find_queue qid d"; cases y) (auto simp: queue_Purge_def queue_lookup_def tables_eq_iff)
  qed
qed

lemma queue_Delete_effect:
  assumes "queue_Delete qid d = (r, d')"
  shows "case r of Inl _ \<Rightarrow> tables d' = tables d
    | Inr _ \<Rightarrow> find_queue qid d \<noteq> None
        \<and> queue_tbl d' = rows_delete (\<lambda>r. qr_id r = qid) (queue_tbl d)
        \<and> task_tbl d' = rows_delete (\<lambda>r. tr_queue_id r = qid) (task_tbl d)
        \<and> job_tbl d' = job_tbl d"
proof -
  obtain x0 d0 where b: "begin_tx d = (x0, d0)" by (cases "begin_tx d")
  obtain x1 d1 where q: "delete_queues (\<lambda>r. qr_id r = qid) d0 = (x1, d1)"
    by (cases "delete_queues (\<lambda>r. qr_id r = qid) d0")
  obtain x2 d2 where t: "delete_tasks (\<lambda>r. tr_queue_id r = qid) d1 = (x2, d2)"
    by (cases "delete_tasks (\<lambda>r. tr_queue_id r = qid) d1")
  obtain x3 d3 where c: "commit_tx d2 = (x3, d3)" by (cases "commit_tx d2")
  note e = tx_effect(1) [OF b] delete_queues_effect [OF q] delete_tasks_effect [OF t] tx_effect(2) [OF c]
  consider "\<exists>e. r = Inl e" "tables d' = tables d"
    | n m where "x0 = Inr ()" "x1 = Inr n" "n \<noteq> 0" "x2 = Inr m" "x3 = Inr ()" "r = Inr ()" "d' = d3"
    using assms b q t c e
    by (cases x0; cases x1; cases x2; cases x3) (auto simp: queue_Delete_def split: if_splits)
  then show ?thesis
  proof cases
    case 1
    then show ?thesis by auto
  next
    case 2
    with e show ?thesis by (simp add: tables_eq_iff find_queue_def rows_affected_key)
  qed
qed

section \<open>The queue invariant\<close>

text \<open>
  Every stored queue is filed under its resource name, has positive limits, and is running or
  paused.
\<close>

definition queue_row_ok :: "queue_row \<Rightarrow> bool" where
  "queue_row_ok r \<longleftrightarrow> qr_id r = queue_path (qr_project r) (qr_location r) (qr_name r)
     \<and> 0 < qr_rate_limit r \<and> 0 < qr_max_concurrent r \<and> qr_state r \<in> {StateRunning, StatePaused}"

definition queues_ok :: "db \<Rightarrow> bool" where
  "queues_ok d \<longleftrightarrow> list_all queue_row_ok (queue_tbl d)"

lemma effective_limits_pos:
  "0 < MaxDispatchesPerSecond (effective_limits rl)" "0 < MaxConcurrentDispatches (effective_limits rl)"
  by (auto simp: effective_limits_def DefaultMaxDispatchesPerSecond_def
      DefaultMaxConcurrentDispatches_def split: option.splits)

lemma queue_insert_row_ok:
  assumes "q_State q \<in> {[], StateRunning, StatePaused}"
  shows "queue_row_ok (queue_insert_row now (queue_prepared q))"
  using assms effective_limits_pos
  by (auto simp: queue_row_ok_def queue_insert_row_def queue_prepared_def queue_ResourceName_def
      StateRunning_def Let_def)

lemma list_all_rows_update:
  "list_all P rs \<Longrightarrow> (\<And>r. P r \<Longrightarrow> P (f r)) \<Longrightarrow> list_all P (rows_update Q f rs)"
  by (auto simp: list_all_iff rows_update_def)

lemma list_all_rows_delete: "list_all P rs \<Longrightarrow> list_all P (rows_delete Q rs)"
  by (auto simp: list_all_iff rows_delete_def)

lemma set_limits_simps [simp]: "qr_id (set_limits rl r) = qr_id r"
  by (simp add: set_limits_def)

lemma set_limits_ok: "queue_row_ok r \<Longrightarrow> queue_row_ok (set_limits rl r)"
  by (simp add: queue_row_ok_def set_limits_def)

lemma queue_Create_keeps:
  assumes "queue_Create now q d = (r, d')" "q_State q \<in> {[], StateRunning, StatePaused}"
  shows "wf_db d \<Longrightarrow> wf_db d'" and "queues_ok d \<Longrightarrow> queues_ok d'"
proof -
  from queue_Create_effect [OF assms(1)] show "wf_db d \<Longrightarrow> wf_db d'"
    by (cases r) (auto simp: wf_db_def tables_eq_iff find_queue_def find_key_None [of qr_id])
  from queue_Create_effect [OF assms(1)] queue_insert_row_ok [OF assms(2), of now]
  show "queues_ok d \<Longrightarrow> queues_ok d'"
    by (cases r) (auto simp: queues_ok_def tables_eq_iff)
qed

lemma queue_SetState_keeps:
  assumes "queue_SetState qid st d = (r, d')" "st \<in> {StateRunning, StatePaused}"
  shows "wf_db d \<Longrightarrow> wf_db d'" and "queues_ok d \<Longrightarrow> queues_ok d'"
proof -
  from queue_SetState_effect [OF assms(1)] show "wf_db d \<Longrightarrow> wf_db d'"
    by (cases r) (auto simp: wf_db_def tables_eq_iff map_rows_update)
  from queue_SetState_effect [OF assms(1)] assms(2) show "queues_ok d \<Longrightarrow> queues_ok d'"
    by (cases r) (auto simp: queues_ok_def tables_eq_iff queue_row_ok_def intro!: list_all_rows_update)
qed

lemma queue_UpdateRateLimits_keeps:
  assumes "queue_UpdateRateLimits qid rl d = (r, d')"
  shows "wf_db d \<Longrightarrow> wf_db d'" and "queues_ok d \<Longrightarrow> queues_ok d'"
proof -
  from queue_UpdateRateLimits_effect [OF assms(1)] show "wf_db d \<Longrightarrow> wf_db d'"
    by (cases r) (auto simp: wf_db_def tables_eq_iff map_rows_update)
  from queue_UpdateRateLimits_effect [OF assms(1)] show "queues_ok d \<Longrightarrow> queues_ok d'"
    by (cases r) (auto simp: queues_ok_def tables_eq_iff set_limits_ok intro!: list_all_rows_update)
qed

lemma queue_Purge_keeps:
  assumes "queue_Purge E qid d = (r, d')"
  shows "wf_db d \<Longrightarrow> wf_db d'" and "queues_ok d \<Longrightarrow> queues_ok d'"
  using queue_Purge_effect [OF assms(1)]
  by (cases r; auto simp: wf_db_def queues_ok_def tables_eq_iff intro: distinct_rows_delete)+

lemma queue_Delete_keeps:
  assumes "queue_Delete qid d = (r, d')"
  shows "wf_db d \<Longrightarrow> wf_db d'" and "queues_ok d \<Longrightarrow> queues_ok d'"
  using queue_Delete_effect [OF assms(1)]
  by (cases r; auto simp: wf_db_def queues_ok_def tables_eq_iff
      intro: distinct_rows_delete list_all_rows_delete)+

end
