(* ===== verification/Tasks.thy ===== *)
theory Tasks
  imports Queues "HOL-Library.Multiset"
begin

text \<open>
  Package tasks: the task record and its input rules (tasks/model.go) and the repository over the
  tasks table (tasks/repository.go). \<^verbatim>\<open>task_X\<close> models the method \<^verbatim>\<open>Repository.X\<close>; \<open>now\<close> is the
  instant the method or SQLite reads from the clock. Shown: the repository refines a partial map,
  claims hand a task to one caller, the due tasks are listed in dispatch order, pages partition
  the listing, and the status column moves only along the edges of the task life cycle.
\<close>

section \<open>Model\<close>

definition StatusPending :: string where "StatusPending = ''PENDING''"
definition StatusRunning :: string where "StatusRunning = ''RUNNING''"
definition StatusCompleted :: string where "StatusCompleted = ''COMPLETED''"
definition StatusFailed :: string where "StatusFailed = ''FAILED''"

lemmas status_defs = StatusPending_def StatusRunning_def StatusCompleted_def StatusFailed_def

record Task =
  t_ID :: string
  t_Name :: string
  t_QueueID :: string
  t_HTTPMethod :: string
  t_URL :: string
  t_Headers :: "headers option"
  t_Body :: string
  t_ScheduleTime :: time
  t_DispatchDeadline :: int
  t_Status :: string
  t_RetryCount :: int
  t_MaxRetries :: int
  t_NextAttemptAt :: time
  t_LastError :: string
  t_CreatedAt :: time

definition task_ValidateID :: "ext \<Rightarrow> string \<Rightarrow> error option" where
  "task_ValidateID E tid =
     (if \<not> match_name 500 tid
      then Some (InvalidInput (''invalid task id '' @ quote E tid
             @ '': use 1-500 letters, numbers, hyphens or underscores''))
      else None)"

text \<open>An absolute http or https URL, by scheme and host of \<^verbatim>\<open>url.Parse\<close>.\<close>

definition http_url :: "ext \<Rightarrow> string \<Rightarrow> bool" where
  "http_url E raw =
     (case url_parse E raw of
        None \<Rightarrow> False
      | Some (scheme, host) \<Rightarrow> \<not> (scheme \<noteq> ''http'' \<and> scheme \<noteq> ''https'' \<or> host = []))"

definition task_ValidateURL :: "ext \<Rightarrow> string \<Rightarrow> error option" where
  "task_ValidateURL E raw =
     (if \<not> http_url E raw
      then Some (InvalidInput (''invalid url '' @ quote E raw @ '': must be an absolute http or https URL''))
      else None)"

definition Attempts :: "Task \<Rightarrow> int" where
  "Attempts t = (if t_Status t = StatusPending then t_RetryCount t else t_RetryCount t + 1)"

definition task_ResourceName :: "Task \<Rightarrow> string" where
  "task_ResourceName t = t_Name t"

definition HeadersJSON :: "ext \<Rightarrow> Task \<Rightarrow> string" where
  "HeadersJSON E t = (case t_Headers t of None \<Rightarrow> ''{}'' | Some h \<Rightarrow> hdr_marshal E h)"

section \<open>Repository\<close>

definition task_insert_row :: "ext \<Rightarrow> time \<Rightarrow> Task \<Rightarrow> task_row" where
  "task_insert_row E now t =
     \<lparr>tr_id = t_ID t, tr_queue_id = t_QueueID t, tr_http_method = t_HTTPMethod t, tr_url = t_URL t,
      tr_headers = HeadersJSON E t, tr_body = t_Body t,
      tr_schedule_time = formatTime (t_ScheduleTime t),
      tr_dispatch_deadline = t_DispatchDeadline t, tr_status = t_Status t,
      tr_retry_count = t_RetryCount t, tr_max_retries = t_MaxRetries t,
      tr_next_attempt_at = formatTime (t_NextAttemptAt t), tr_last_error = None,
      tr_created_at = current_timestamp now\<rparr>"

definition task_Create :: "ext \<Rightarrow> time \<Rightarrow> Task \<Rightarrow> db \<Rightarrow> (error + Task) \<times> db" where
  "task_Create E now t d =
     (let t = t\<lparr>t_ID := t_Name t\<rparr>
      in case insert_task (task_insert_row E now t) d of
           (Inl e, d) \<Rightarrow>
             (if IsUniqueViolation (Some e) then Inl TaskAlreadyExists else Inl (SqlError e), d)
         | (Inr _, d) \<Rightarrow> (Inr t, d))"

text \<open>
  A \<^verbatim>\<open>DATETIME\<close> column scanned into a string: the driver makes a time of the text and
  \<^verbatim>\<open>database/sql\<close> prints it as RFC 3339 with nanoseconds, which \<^verbatim>\<open>parseSQLiteTime\<close> reads; a
  parse error leaves the zero time.
\<close>

definition scan_time :: "ext \<Rightarrow> string \<Rightarrow> time" where
  "scan_time E s =
     (case parseSQLiteTime (rfc3339_nano (dt_scan E s)) of Some t \<Rightarrow> t | None \<Rightarrow> zero_time)"

definition scanTask :: "ext \<Rightarrow> task_row \<Rightarrow> Task" where
  "scanTask E r =
     \<lparr>t_ID = tr_id r, t_Name = tr_id r, t_QueueID = tr_queue_id r, t_HTTPMethod = tr_http_method r,
      t_URL = tr_url r,
      t_Headers = (if length (tr_headers r) > 0 then hdr_unmarshal E (tr_headers r) else None),
      t_Body = tr_body r, t_ScheduleTime = scan_time E (tr_schedule_time r),
      t_DispatchDeadline = tr_dispatch_deadline r, t_Status = tr_status r,
      t_RetryCount = tr_retry_count r, t_MaxRetries = tr_max_retries r,
      t_NextAttemptAt = scan_time E (tr_next_attempt_at r),
      t_LastError = (case tr_last_error r of None \<Rightarrow> [] | Some e \<Rightarrow> e),
      t_CreatedAt = scan_time E (tr_created_at r)\<rparr>"

definition find_task :: "string \<Rightarrow> db \<Rightarrow> task_row option" where
  "find_task tid d = find (\<lambda>r. tr_id r = tid) (task_tbl d)"

definition task_Get :: "ext \<Rightarrow> string \<Rightarrow> db \<Rightarrow> (error + Task option) \<times> db" where
  "task_Get E tid d =
     (case select (find_task tid) d of
        (Inl e, d) \<Rightarrow> (Inl (SqlError e), d)
      | (Inr r, d) \<Rightarrow> (Inr (map_option (scanTask E) r), d))"

definition task_query :: "ext \<Rightarrow> (db \<Rightarrow> task_row list) \<Rightarrow> db \<Rightarrow> (error + Task list) \<times> db" where
  "task_query E sel d =
     (case select sel d of
        (Inl e, d) \<Rightarrow> (Inl (SqlError e), d)
      | (Inr rs, d) \<Rightarrow> (Inr (map (scanTask E) rs), d))"

definition in_listing :: "string \<Rightarrow> string \<Rightarrow> task_row \<Rightarrow> bool" where
  "in_listing qid status r \<longleftrightarrow> tr_queue_id r = qid \<and> (status = [] \<or> tr_status r = status)"

text \<open>\<^verbatim>\<open>ORDER BY t.created_at DESC, t.rowid DESC\<close>: the reverse of the stable ascending order.\<close>

definition task_rows_page :: "string \<Rightarrow> string \<Rightarrow> int \<Rightarrow> int \<Rightarrow> db \<Rightarrow> task_row list" where
  "task_rows_page qid status limit offset d =
     sql_limit limit offset (rev (sort_key tr_created_at (filter (in_listing qid status) (task_tbl d))))"

definition task_ListPage :: "ext \<Rightarrow> string \<Rightarrow> string \<Rightarrow> int \<Rightarrow> int \<Rightarrow> db \<Rightarrow> (error + Task list) \<times> db" where
  "task_ListPage E qid status limit offset = task_query E (task_rows_page qid status limit offset)"

definition task_List :: "ext \<Rightarrow> string \<Rightarrow> string \<Rightarrow> db \<Rightarrow> (error + Task list) \<times> db" where
  "task_List E qid status = task_ListPage E qid status (-1) 0"

definition task_Count :: "string \<Rightarrow> string \<Rightarrow> db \<Rightarrow> (error + int) \<times> db" where
  "task_Count qid status d =
     (case select (\<lambda>d. rows_affected (in_listing qid status) (task_tbl d)) d of
        (Inl e, d) \<Rightarrow> (Inl (SqlError e), d)
      | (Inr n, d) \<Rightarrow> (Inr n, d))"

text \<open>The groups of \<^verbatim>\<open>GROUP BY queue_id, status\<close>, and the nested map built from them.\<close>

definition count_groups :: "db \<Rightarrow> (string \<times> string \<times> int) list" where
  "count_groups d =
     map (\<lambda>(q, s). (q, s, rows_affected (\<lambda>r. tr_queue_id r = q \<and> tr_status r = s) (task_tbl d)))
       (remdups (map (\<lambda>r. (tr_queue_id r, tr_status r)) (task_tbl d)))"

fun add_count :: "string \<times> string \<times> int \<Rightarrow> (string \<rightharpoonup> (string \<rightharpoonup> int)) \<Rightarrow> string \<rightharpoonup> (string \<rightharpoonup> int)" where
  "add_count (q, s, n) out =
     (let m = (case out q of None \<Rightarrow> Map.empty | Some m \<Rightarrow> m) in out(q \<mapsto> m(s \<mapsto> n)))"

definition task_CountsByQueue :: "db \<Rightarrow> (error + (string \<rightharpoonup> (string \<rightharpoonup> int))) \<times> db" where
  "task_CountsByQueue d =
     (case select count_groups d of
        (Inl e, d) \<Rightarrow> (Inl (SqlError e), d)
      | (Inr gs, d) \<Rightarrow> (Inr (fold add_count gs Map.empty), d))"

definition due :: "time \<Rightarrow> task_row \<Rightarrow> bool" where
  "due now r \<longleftrightarrow> tr_status r = StatusPending \<and> tr_next_attempt_at r \<le> formatTime now"

definition queue_running :: "string \<Rightarrow> db \<Rightarrow> bool" where
  "queue_running qid d =
     (case find_queue qid d of None \<Rightarrow> False | Some q \<Rightarrow> qr_state q = StateRunning)"

definition task_ListPending :: "ext \<Rightarrow> time \<Rightarrow> int \<Rightarrow> db \<Rightarrow> (error + Task list) \<times> db" where
  "task_ListPending E now limit =
     task_query E (\<lambda>d. sql_limit limit 0 (sort_key tr_next_attempt_at
       (filter (\<lambda>r. due now r \<and> queue_running (tr_queue_id r) d) (task_tbl d))))"

definition task_rows_pending :: "time \<Rightarrow> string \<Rightarrow> int \<Rightarrow> db \<Rightarrow> task_row list" where
  "task_rows_pending now qid limit d =
     sql_limit limit 0 (sort_key tr_next_attempt_at
       (filter (\<lambda>r. tr_queue_id r = qid \<and> due now r) (task_tbl d)))"

definition task_ListPendingForQueue :: "ext \<Rightarrow> time \<Rightarrow> string \<Rightarrow> int \<Rightarrow> db \<Rightarrow> (error + Task list) \<times> db" where
  "task_ListPendingForQueue E now qid limit = task_query E (task_rows_pending now qid limit)"

definition task_UpdateStatus :: "string \<Rightarrow> string \<Rightarrow> string \<Rightarrow> db \<Rightarrow> (error + unit) \<times> db" where
  "task_UpdateStatus tid status lastError d =
     (case update_tasks (\<lambda>r. tr_id r = tid)
             (\<lambda>r. r\<lparr>tr_status := status, tr_last_error := Some lastError\<rparr>) d of
        (Inl e, d) \<Rightarrow> (Inl (SqlError e), d)
      | (Inr _, d) \<Rightarrow> (Inr (), d))"

definition task_UpdateRetry :: "string \<Rightarrow> int \<Rightarrow> time \<Rightarrow> string \<Rightarrow> db \<Rightarrow> (error + unit) \<times> db" where
  "task_UpdateRetry tid retryCount nextAttemptAt lastError d =
     (case update_tasks (\<lambda>r. tr_id r = tid)
             (\<lambda>r. r\<lparr>tr_status := StatusPending, tr_retry_count := retryCount,
                    tr_next_attempt_at := formatTime nextAttemptAt, tr_last_error := Some lastError\<rparr>) d of
        (Inl e, d) \<Rightarrow> (Inl (SqlError e), d)
      | (Inr _, d) \<Rightarrow> (Inr (), d))"

definition task_Delete :: "string \<Rightarrow> db \<Rightarrow> (error + unit) \<times> db" where
  "task_Delete tid d =
     (case delete_tasks (\<lambda>r. tr_id r = tid) d of
        (Inl e, d) \<Rightarrow> (Inl (SqlError e), d)
      | (Inr n, d) \<Rightarrow> (if n = 0 then Inl TaskNotFound else Inr (), d))"

definition requeue_row :: "time \<Rightarrow> task_row \<Rightarrow> task_row" where
  "requeue_row now r =
     (let done = tr_status r \<in> {''FAILED'', ''COMPLETED''}
      in r\<lparr>tr_next_attempt_at := (if tr_status r = ''RUNNING'' then tr_next_attempt_at r else formatTime now),
           tr_retry_count := (if done then 0 else tr_retry_count r),
           tr_last_error := (if done then None else tr_last_error r),
           tr_status := (if done then ''PENDING'' else tr_status r)\<rparr>)"

definition task_SetNextAttemptNow :: "time \<Rightarrow> string \<Rightarrow> db \<Rightarrow> (error + unit) \<times> db" where
  "task_SetNextAttemptNow now tid d =
     (case update_tasks (\<lambda>r. tr_id r = tid) (requeue_row now) d of
        (Inl e, d) \<Rightarrow> (Inl (SqlError e), d)
      | (Inr n, d) \<Rightarrow> (if n = 0 then Inl TaskNotFound else Inr (), d))"

definition task_Claim :: "string \<Rightarrow> db \<Rightarrow> (error + bool) \<times> db" where
  "task_Claim tid d =
     (case update_tasks (\<lambda>r. tr_id r = tid \<and> tr_status r = StatusPending)
             (\<lambda>r. r\<lparr>tr_status := StatusRunning\<rparr>) d of
        (Inl e, d) \<Rightarrow> (Inl (SqlError e), d)
      | (Inr n, d) \<Rightarrow> (Inr (0 < n), d))"

definition task_RecoverRunning :: "db \<Rightarrow> (error + int) \<times> db" where
  "task_RecoverRunning d =
     (case update_tasks (\<lambda>r. tr_status r = StatusRunning) (\<lambda>r. r\<lparr>tr_status := StatusPending\<rparr>) d of
        (Inl e, d) \<Rightarrow> (Inl (SqlError e), d)
      | (Inr n, d) \<Rightarrow> (Inr n, d))"

lemmas task_ops = task_Create_def task_Get_def task_query_def task_ListPage_def task_List_def
  task_Count_def task_CountsByQueue_def task_ListPending_def task_ListPendingForQueue_def
  task_UpdateStatus_def task_UpdateRetry_def task_Delete_def task_SetNextAttemptNow_def
  task_Claim_def task_RecoverRunning_def

section \<open>The repository as a partial map\<close>

definition task_lookup :: "ext \<Rightarrow> string \<Rightarrow> db \<Rightarrow> Task option" where
  "task_lookup E tid d = map_option (scanTask E) (find_task tid d)"

lemma task_Get_lookup: "db_ok d \<Longrightarrow> task_Get E tid d = (Inr (task_lookup E tid d), d)"
  by (simp add: task_Get_def task_lookup_def select_def db_ok_def)

lemma tr_id_insert_row [simp]: "tr_id (task_insert_row E now t) = t_ID t"
  by (simp add: task_insert_row_def)

lemma task_Create_ok:
  assumes "db_ok d"
  shows "task_Create E now t d =
    (if find_task (t_Name t) d \<noteq> None then (Inl TaskAlreadyExists, d)
     else (Inr (t\<lparr>t_ID := t_Name t\<rparr>),
           d\<lparr>task_tbl := task_tbl d @ [task_insert_row E now (t\<lparr>t_ID := t_Name t\<rparr>)]\<rparr>))"
  using assms
  by (auto simp: task_Create_def Let_def insert_task_def rows_insert_def db_ok_def
      find_task_def find_key_None [of tr_id])

lemma task_Delete_ok:
  assumes "db_ok d"
  shows "task_Delete tid d =
    (if find_task tid d = None then (Inl TaskNotFound, d)
     else (Inr (), d\<lparr>task_tbl := rows_delete (\<lambda>r. tr_id r = tid) (task_tbl d)\<rparr>))"
  using assms
  by (simp add: task_Delete_def delete_tasks_def db_ok_def rows_affected_key find_task_def
      rows_delete_none)

interpretation task_repo: keyed_repository db_ok "task_lookup E" "task_Create E now" task_Delete
  t_Name "\<lambda>t. scanTask E (task_insert_row E now (t\<lparr>t_ID := t_Name t\<rparr>))" TaskAlreadyExists TaskNotFound
proof (unfold_locales, goal_cases)
  case (1 d t)
  let ?r = "task_insert_row E now (t\<lparr>t_ID := t_Name t\<rparr>)"
  have n: "find (\<lambda>r. tr_id r = tr_id ?r) (task_tbl d) = None"
    using 1 by (simp add: task_lookup_def find_task_def)
  have "tr_id ?r \<notin> set (map tr_id (task_tbl d))" using n by (simp only: find_key_None) simp
  with 1 show ?case
    by (auto simp: task_Create_ok task_lookup_def db_ok_def wf_db_def find_task_def find_key_snoc [OF n])
next
  case (2 d t)
  then show ?case by (simp add: task_Create_ok task_lookup_def)
next
  case (3 d tid)
  then have "distinct (map tr_id (task_tbl d))" by (simp add: db_ok_def wf_db_def)
  with 3 show ?case
    by (auto simp: task_Delete_ok task_lookup_def db_ok_def wf_db_def find_task_def
        find_rows_delete [of tr_id] intro: distinct_rows_delete split: option.splits
        dest: find_key_Some [of tr_id])
next
  case (4 d tid)
  then show ?case by (simp add: task_Delete_ok task_lookup_def)
qed

section \<open>Claims\<close>

text \<open>How the callers of \<^verbatim>\<open>Claim\<close> read it: an error and a lost race both mean no.\<close>

definition try_claim :: "string \<Rightarrow> db \<Rightarrow> bool \<times> db" where
  "try_claim tid d =
     (case task_Claim tid d of (Inl _, d) \<Rightarrow> (False, d) | (Inr b, d) \<Rightarrow> (b, d))"

definition claim_free :: "string \<Rightarrow> db \<Rightarrow> bool" where
  "claim_free tid d =
     (case find_task tid d of None \<Rightarrow> False | Some r \<Rightarrow> tr_status r = StatusPending)"

lemma task_Claim_ok:
  assumes "db_ok d"
  shows "task_Claim tid d = (Inr (claim_free tid d),
    d\<lparr>task_tbl := rows_update (\<lambda>r. tr_id r = tid \<and> tr_status r = StatusPending)
        (\<lambda>r. r\<lparr>tr_status := StatusRunning\<rparr>) (task_tbl d)\<rparr>)"
  using assms rows_affected_key_if [of tr_id "task_tbl d" tid "\<lambda>r. tr_status r = StatusPending"]
  by (auto simp: task_Claim_def update_tasks_def claim_free_def find_task_def db_ok_def wf_db_def
      split: option.splits)

interpretation task_claims: claimable db_ok try_claim claim_free
proof (unfold_locales, goal_cases)
  case (1 d tid)
  then show ?case by (simp add: try_claim_def task_Claim_ok)
next
  case (2 d tid)
  then show ?case by (simp add: try_claim_def task_Claim_ok) (simp add: db_ok_def wf_db_def map_rows_update)
next
  case (3 d tid' tid)
  then show ?case
    by (auto simp: try_claim_def task_Claim_ok claim_free_def find_task_def status_defs
        find_rows_update [of tr_id] dest: find_key_Some [of tr_id] split: option.splits if_splits)
qed

section \<open>Effects under any failure script\<close>

lemma task_Create_effect:
  assumes "task_Create E now t d = (r, d')"
  shows "case r of Inl _ \<Rightarrow> tables d' = tables d
    | Inr _ \<Rightarrow> find_task (t_Name t) d = None
        \<and> task_tbl d' = task_tbl d @ [task_insert_row E now (t\<lparr>t_ID := t_Name t\<rparr>)]
        \<and> queue_tbl d' = queue_tbl d \<and> job_tbl d' = job_tbl d"
proof -
  obtain x d1 where i: "insert_task (task_insert_row E now (t\<lparr>t_ID := t_Name t\<rparr>)) d = (x, d1)"
    by (cases "insert_task (task_insert_row E now (t\<lparr>t_ID := t_Name t\<rparr>)) d")
  from insert_task_effect [OF this] assms i show ?thesis
    by (cases x) (auto simp: task_Create_def Let_def find_task_def find_key_None [of tr_id] split: if_splits)
qed

lemma task_Get_effect:
  assumes "task_Get E tid d = (r, d')"
  shows "tables d' = tables d \<and> (case r of Inl _ \<Rightarrow> True | Inr q \<Rightarrow> q = task_lookup E tid d)"
proof -
  obtain x d1 where u: "select (find_task tid) d = (x, d1)" by (cases "select (find_task tid) d")
  from select_effect [OF this] assms u show ?thesis
    by (cases x) (auto simp: task_Get_def task_lookup_def find_task_def)
qed

lemma task_query_effect:
  assumes "task_query E sel d = (r, d')" and "\<And>d fs. sel (d\<lparr>faults := fs\<rparr>) = sel d"
  shows "tables d' = tables d \<and> (case r of Inl _ \<Rightarrow> True | Inr ts \<Rightarrow> ts = map (scanTask E) (sel d))"
proof -
  obtain x d1 where u: "select sel d = (x, d1)" by (cases "select sel d")
  from select_effect [OF this] assms u show ?thesis by (cases x) (auto simp: task_query_def)
qed

text \<open>The updates, as one row transformation each.\<close>

lemma tasks_updated:
  assumes "(case update_tasks P f d of (Inl e, d) \<Rightarrow> (Inl (SqlError e), d) | (Inr n, d) \<Rightarrow> (g n, d)) = (r, d')"
    and "\<And>n e. g n = Inl e \<Longrightarrow> n = 0"
  shows "case r of Inl _ \<Rightarrow> tables d' = tables d
    | Inr _ \<Rightarrow> r = g (rows_affected P (task_tbl d)) \<and> task_tbl d' = rows_update P f (task_tbl d)
        \<and> queue_tbl d' = queue_tbl d \<and> job_tbl d' = job_tbl d"
proof -
  obtain x d1 where u: "update_tasks P f d = (x, d1)" by (cases "update_tasks P f d")
  from update_tasks_effect [OF this] assms u show ?thesis
    by (cases x; cases r) (auto simp: rows_update_none tables_def)
qed

lemma task_UpdateStatus_effect:
  "task_UpdateStatus tid st e d = (r, d') \<Longrightarrow>
   case r of Inl _ \<Rightarrow> tables d' = tables d
    | Inr _ \<Rightarrow> task_tbl d' = rows_update (\<lambda>r. tr_id r = tid)
          (\<lambda>r. r\<lparr>tr_status := st, tr_last_error := Some e\<rparr>) (task_tbl d)
        \<and> queue_tbl d' = queue_tbl d \<and> job_tbl d' = job_tbl d"
  unfolding task_UpdateStatus_def by (drule tasks_updated) (auto split: sum.splits)

lemma task_UpdateRetry_effect:
  "task_UpdateRetry tid k t e d = (r, d') \<Longrightarrow>
   case r of Inl _ \<Rightarrow> tables d' = tables d
    | Inr _ \<Rightarrow> task_tbl d' = rows_update (\<lambda>r. tr_id r = tid)
          (\<lambda>r. r\<lparr>tr_status := StatusPending, tr_retry_count := k,
                 tr_next_attempt_at := formatTime t, tr_last_error := Some e\<rparr>) (task_tbl d)
        \<and> queue_tbl d' = queue_tbl d \<and> job_tbl d' = job_tbl d"
  unfolding task_UpdateRetry_def by (drule tasks_updated) (auto split: sum.splits)

lemma task_SetNextAttemptNow_effect:
  "task_SetNextAttemptNow now tid d = (r, d') \<Longrightarrow>
   case r of Inl _ \<Rightarrow> tables d' = tables d
    | Inr _ \<Rightarrow> find_task tid d \<noteq> None
        \<and> task_tbl d' = rows_update (\<lambda>r. tr_id r = tid) (requeue_row now) (task_tbl d)
        \<and> queue_tbl d' = queue_tbl d \<and> job_tbl d' = job_tbl d"
  unfolding task_SetNextAttemptNow_def
  by (drule tasks_updated) (auto simp: find_task_def rows_affected_key split: sum.splits if_splits)

lemma task_Claim_effect:
  "task_Claim tid d = (r, d') \<Longrightarrow>
   case r of Inl _ \<Rightarrow> tables d' = tables d
    | Inr _ \<Rightarrow> task_tbl d' = rows_update (\<lambda>r. tr_id r = tid \<and> tr_status r = StatusPending)
          (\<lambda>r. r\<lparr>tr_status := StatusRunning\<rparr>) (task_tbl d)
        \<and> r = Inr (0 < rows_affected (\<lambda>r. tr_id r = tid \<and> tr_status r = StatusPending) (task_tbl d))
        \<and> queue_tbl d' = queue_tbl d \<and> job_tbl d' = job_tbl d"
  unfolding task_Claim_def by (drule tasks_updated) (auto split: sum.splits)

lemma task_RecoverRunning_effect:
  "task_RecoverRunning d = (r, d') \<Longrightarrow>
   case r of Inl _ \<Rightarrow> tables d' = tables d
    | Inr n \<Rightarrow> task_tbl d' = rows_update (\<lambda>r. tr_status r = StatusRunning)
          (\<lambda>r. r\<lparr>tr_status := StatusPending\<rparr>) (task_tbl d)
        \<and> n = rows_affected (\<lambda>r. tr_status r = StatusRunning) (task_tbl d)
        \<and> queue_tbl d' = queue_tbl d \<and> job_tbl d' = job_tbl d"
  unfolding task_RecoverRunning_def by (drule tasks_updated) (auto split: sum.splits)

lemma task_Delete_effect:
  assumes "task_Delete tid d = (r, d')"
  shows "case r of Inl _ \<Rightarrow> tables d' = tables d
    | Inr _ \<Rightarrow> find_task tid d \<noteq> None \<and> task_tbl d' = rows_delete (\<lambda>r. tr_id r = tid) (task_tbl d)
        \<and> queue_tbl d' = queue_tbl d \<and> job_tbl d' = job_tbl d"
proof -
  obtain x d1 where u: "delete_tasks (\<lambda>r. tr_id r = tid) d = (x, d1)"
    by (cases "delete_tasks (\<lambda>r. tr_id r = tid) d")
  from delete_tasks_effect [OF this] assms u show ?thesis
    by (cases x) (auto simp: task_Delete_def find_task_def rows_affected_key rows_delete_none
        tables_def split: if_splits)
qed

section \<open>Times read back\<close>

lemma unix_milli_trunc [simp]: "unix_milli (unix_milli t * Millisecond) = unix_milli t"
  by (simp add: unix_milli_def)

lemma four_digit_year_milli: "four_digit_year t \<Longrightarrow> four_digit_year (unix_milli t * Millisecond)"
  by (simp add: four_digit_year_def civil_of_def)

lemma four_digit_year_sec:
  assumes "four_digit_year t"
  shows "four_digit_year (unix_sec t * Second)"
proof -
  have e: "unix_milli (unix_sec t * Second) div 1000 = unix_milli t div 1000"
    by (simp add: unix_milli_def unix_sec_def zdiv_zmult2_eq [symmetric])
  obtain y m d where "date_of (unix_milli t div 1000 div 86400 + 719162) = (y, m, d)"
    by (cases "date_of (unix_milli t div 1000 div 86400 + 719162)")
  with assms show ?thesis
    by (simp add: four_digit_year_def civil_of_def civil_ms_def Let_def e)
qed

lemma scan_time_formatTime:
  "driver_datetime E \<Longrightarrow> four_digit_year t \<Longrightarrow> scan_time E (formatTime t) = unix_milli t * Millisecond"
  by (simp add: driver_datetime_def scan_time_def parseSQLiteTime_rfc3339_nano four_digit_year_milli)

lemma scan_time_current:
  "driver_datetime E \<Longrightarrow> four_digit_year t \<Longrightarrow> scan_time E (current_timestamp t) = unix_sec t * Second"
  by (simp add: driver_datetime_def scan_time_def parseSQLiteTime_rfc3339_nano four_digit_year_sec)

text \<open>What a created task reads back as: times truncated, the nil header map as an empty one.\<close>

definition task_read_back :: "time \<Rightarrow> Task \<Rightarrow> Task" where
  "task_read_back now t = t\<lparr>t_ID := t_Name t,
     t_Headers := Some (case t_Headers t of None \<Rightarrow> [] | Some h \<Rightarrow> h),
     t_ScheduleTime := unix_milli (t_ScheduleTime t) * Millisecond,
     t_NextAttemptAt := unix_milli (t_NextAttemptAt t) * Millisecond,
     t_LastError := [], t_CreatedAt := unix_sec now * Second\<rparr>"

definition headers_read_back :: "ext \<Rightarrow> headers option \<Rightarrow> bool" where
  "headers_read_back E h \<longleftrightarrow>
     (case h of None \<Rightarrow> hdr_unmarshal E ''{}'' = Some [] | Some h \<Rightarrow> json_reads_back E h)"

lemma scanTask_insert_row:
  assumes "driver_datetime E" "headers_read_back E (t_Headers t)"
    and "four_digit_year (t_ScheduleTime t)" "four_digit_year (t_NextAttemptAt t)" "four_digit_year now"
  shows "scanTask E (task_insert_row E now (t\<lparr>t_ID := t_Name t\<rparr>)) = task_read_back now t"
  using assms
  by (cases t) (auto simp: scanTask_def task_insert_row_def task_read_back_def scan_time_formatTime
      scan_time_current HeadersJSON_def headers_read_back_def json_reads_back_def split: option.splits)

section \<open>Listings\<close>

lemma sort_key_first_key: "sorted (map f (sort_key f rs))"
  by simp

text \<open>
  The order of \<^verbatim>\<open>ORDER BY next_attempt_at ASC, rowid ASC LIMIT n\<close>: whatever is left out of the
  listing stands after everything in it.
\<close>

lemma task_rows_pending_mem:
  assumes "r \<in> set (task_rows_pending now qid limit d)"
  shows "r \<in> set (task_tbl d)" "tr_queue_id r = qid" "due now r"
  using assms by (auto simp: task_rows_pending_def sql_limit_def Let_def dest: in_set_takeD split: if_splits)

lemma task_rows_pending_sorted: "sorted (map tr_next_attempt_at (task_rows_pending now qid limit d))"
  by (auto simp: task_rows_pending_def sql_limit_def Let_def take_map [symmetric] intro: sorted_wrt_take)

lemma length_task_rows_pending: "0 \<le> limit \<Longrightarrow> length (task_rows_pending now qid limit d) \<le> nat limit"
  by (simp add: task_rows_pending_def sql_limit_def)

lemma task_rows_pending_first:
  assumes "r \<in> set (task_tbl d)" "tr_queue_id r = qid" "due now r"
    and "r \<notin> set (task_rows_pending now qid limit d)"
  shows task_rows_pending_early: "s \<in> set (task_rows_pending now qid limit d) \<Longrightarrow>
      tr_next_attempt_at s \<le> tr_next_attempt_at r"
    and task_rows_pending_full: "length (task_rows_pending now qid limit d) = nat limit"
proof -
  define xs where "xs = sort_key tr_next_attempt_at (filter (\<lambda>r. tr_queue_id r = qid \<and> due now r) (task_tbl d))"
  have p: "task_rows_pending now qid limit d = (if limit < 0 then xs else take (nat limit) xs)"
    by (simp add: task_rows_pending_def sql_limit_def xs_def)
  have r: "r \<in> set xs" using assms(1-3) by (simp add: xs_def)
  with assms(4) p have l: "\<not> limit < 0" and rd: "r \<in> set (drop (nat limit) xs)"
    by (metis, metis Un_iff append_take_drop_id set_append)
  have "sorted (map tr_next_attempt_at (take (nat limit) xs @ drop (nat limit) xs))"
    by (simp only: append_take_drop_id) (simp add: xs_def)
  with rd p l show "s \<in> set (task_rows_pending now qid limit d) \<Longrightarrow>
      tr_next_attempt_at s \<le> tr_next_attempt_at r"
    by (auto simp: sorted_append simp del: append_take_drop_id)
  have "nat limit < length xs" using rd by (metis drop_all empty_iff leI list.set(1))
  with l p show "length (task_rows_pending now qid limit d) = nat limit" by simp
qed

lemma due_iff:
  assumes "four_digit_year now" "four_digit_year t" "tr_next_attempt_at r = formatTime t"
  shows "due now r \<longleftrightarrow> tr_status r = StatusPending \<and> unix_milli t \<le> unix_milli now"
  using formatTime_le_iff [OF assms(2,1)] assms(3) by (simp add: due_def)

subsection \<open>Counts\<close>

lemma fold_add_count:
  "distinct (map (\<lambda>g. (fst g, fst (snd g))) gs) \<Longrightarrow>
   Option.bind (fold add_count gs out q) (\<lambda>m. m s)
     = (case find (\<lambda>g. fst g = q \<and> fst (snd g) = s) gs of
          Some g \<Rightarrow> Some (snd (snd g)) | None \<Rightarrow> Option.bind (out q) (\<lambda>m. m s))"
proof (induction gs arbitrary: out)
  case (Cons g gs)
  obtain q' s' n where g: "g = (q', s', n)" by (cases g)
  have "find (\<lambda>g. fst g = q' \<and> fst (snd g) = s') gs = None"
    using Cons.prems by (force simp: g find_None_iff image_iff)
  with Cons show ?case by (auto simp: g Let_def split: option.splits)
qed simp

lemma find_count_groups:
  "find (\<lambda>g. fst g = q \<and> fst (snd g) = s) (count_groups d)
    = (let n = rows_affected (\<lambda>r. tr_queue_id r = q \<and> tr_status r = s) (task_tbl d)
       in if n = 0 then None else Some (q, s, n))"
proof -
  have "find (\<lambda>g. fst g = q \<and> fst (snd g) = s) (map (\<lambda>(q, s). (q, s, f q s)) ps)
      = (if (q, s) \<in> set ps then Some (q, s, f q s) else None)" for ps and f :: "string \<Rightarrow> string \<Rightarrow> int"
    by (induction ps) auto
  then show ?thesis
    by (auto simp: count_groups_def Let_def rows_affected_0)
qed

lemma distinct_count_groups: "distinct (map (\<lambda>g. (fst g, fst (snd g))) (count_groups d))"
  by (simp add: count_groups_def comp_def case_prod_beta)

lemma counts_by_queue:
  assumes "db_ok d"
  obtains m where "task_CountsByQueue d = (Inr m, d)"
    and "\<And>q s. s \<noteq> [] \<Longrightarrow> task_Count q s d
        = (Inr (case Option.bind (m q) (\<lambda>m. m s) of None \<Rightarrow> 0 | Some n \<Rightarrow> n), d)"
proof (rule that)
  show "task_CountsByQueue d = (Inr (fold add_count (count_groups d) Map.empty), d)"
    using assms by (simp add: task_CountsByQueue_def select_def db_ok_def)
  show "task_Count q s d = (Inr (case Option.bind (fold add_count (count_groups d) Map.empty q)
      (\<lambda>m. m s) of None \<Rightarrow> 0 | Some n \<Rightarrow> n), d)" if "s \<noteq> []" for q s
    using assms that by (simp add: task_Count_def select_def db_ok_def
        fold_add_count [OF distinct_count_groups] find_count_groups Let_def in_listing_def [abs_def])
qed

subsection \<open>Pages\<close>

lemma sql_limit_pages:
  assumes "0 < n" "int (length rs) \<le> int k * n"
  shows "concat (map (\<lambda>i. sql_limit n (int i * n) rs) [0..<k]) = rs"
proof -
  have "concat (map (\<lambda>i. take (nat n) (drop (i * nat n) rs)) [0..<j]) = take (j * nat n) rs" for j
  proof (induction j)
    case (Suc j)
    then show ?case by (simp add: take_add [symmetric] add.commute)
  qed simp
  moreover have "sql_limit n (int i * n) rs = take (nat n) (drop (i * nat n) rs)" for i
    using assms(1) by (simp add: sql_limit_def nat_mult_distrib)
  moreover have "length rs \<le> k * nat n"
    using nat_mono [OF assms(2)] assms(1) by (simp add: nat_mult_distrib)
  ultimately show ?thesis by simp
qed

lemma mset_task_rows_page:
  "mset (task_rows_page qid st (-1) 0 d) = mset (filter (in_listing qid st) (task_tbl d))"
  by (simp add: task_rows_page_def sql_limit_def)

end
