(* ===== verification/Repo_Props.thy ===== *)
theory Repo_Props
  imports Tasks
begin

text \<open>
  The properties of the two repositories of the task side, with the concrete inputs at which the
  conditional ones are applied.
\<close>

section \<open>Concrete inputs\<close>

definition demo_queue :: Queue where
  "demo_queue = \<lparr>q_ID = [], q_Name = ''q'', q_Project = ''p'', q_Location = ''l'', q_State = [],
     q_RateLimits = None, q_CreatedAt = 0\<rparr>"

definition demo_task :: Task where
  "demo_task = \<lparr>t_ID = [], t_Name = ''projects/p/locations/l/queues/q/tasks/a'',
     t_QueueID = ''projects/p/locations/l/queues/q'', t_HTTPMethod = ''POST'', t_URL = ''http://h/'',
     t_Headers = Some [(''K'', ''v'')], t_Body = ''body'', t_ScheduleTime = 1234567890123456789,
     t_DispatchDeadline = 30, t_Status = StatusPending, t_RetryCount = 0, t_MaxRetries = 5,
     t_NextAttemptAt = 1234567890123456789, t_LastError = [], t_CreatedAt = 0\<rparr>"

definition demo_row :: "string \<Rightarrow> string \<Rightarrow> task_row" where
  "demo_row tid status = \<lparr>tr_id = tid, tr_queue_id = ''q'', tr_http_method = ''POST'', tr_url = ''http://h/'',
     tr_headers = [], tr_body = [], tr_schedule_time = ''2024-01-01 00:00:00.000'',
     tr_dispatch_deadline = 30, tr_status = status, tr_retry_count = 2, tr_max_retries = 5,
     tr_next_attempt_at = ''2024-01-01 00:00:00.000'', tr_last_error = Some ''boom'',
     tr_created_at = ''2024-01-01 00:00:00''\<rparr>"

definition demo_db :: db where
  "demo_db = empty_db\<lparr>task_tbl := [demo_row ''a'' ''PENDING'', demo_row ''b'' ''RUNNING'', demo_row ''c'' ''PENDING'']\<rparr>"

lemma demo_db_ok: "db_ok demo_db"
  by (simp add: db_ok_def wf_db_def demo_db_def demo_row_def empty_db_def)

lemma empty_db_ok: "db_ok empty_db"
  by (simp add: db_ok_def) (simp add: empty_db_def)

section \<open>Queues\<close>

text \<open>
  C6: queues.Repository.Delete is all or nothing. Whatever statement of the transaction fails, an error means
  that no table changed; success means that the queue existed and that its row and all and only
  its tasks are gone.
\<close>

theorem queue_delete_atomic:
  "case queue_Delete qid d of
     (Inl _, d') \<Rightarrow> tables d' = tables d
   | (Inr _, d') \<Rightarrow> find_queue qid d \<noteq> None
       \<and> queue_tbl d' = rows_delete (\<lambda>r. qr_id r = qid) (queue_tbl d)
       \<and> task_tbl d' = rows_delete (\<lambda>r. tr_queue_id r = qid) (task_tbl d) \<and> job_tbl d' = job_tbl d"
  using queue_Delete_effect [of qid d] by (auto split: prod.split sum.split)

text \<open>
  C16: queues.Repository refines a partial map from resource names to queues. On a well-formed database without
  statement failures Create fails with ErrAlreadyExists exactly when the name is taken and else
  adds one entry, with the effective limits and state; Delete removes one entry, or fails with
  ErrNotFound; Get reads the map.
\<close>

theorem queue_repository_map:
  assumes "db_ok d"
  shows "queue_Get E qid d = (Inr (queue_lookup E qid d), d)
    \<and> (let k = queue_path (q_Project q) (q_Location q) (q_Name q); d' = snd (queue_Create now q d) in
         (if queue_lookup E k d = None
          then (\<lambda>k. queue_lookup E k d') = (\<lambda>k. queue_lookup E k d)
                 (k \<mapsto> scanQueue E (queue_insert_row now (queue_prepared q)))
          else queue_Create now q d = (Inl QueueAlreadyExists, d)))
    \<and> (\<lambda>k. queue_lookup E k (snd (queue_Delete qid d))) = (\<lambda>k. queue_lookup E k d)(qid := None)
    \<and> fst (queue_Delete qid d) = (if queue_lookup E qid d = None then Inl QueueNotFound else Inr ())"
  using queue_Get_lookup [OF assms] queue_repo.create_map(1) [OF assms _ prod.collapse [symmetric]]
    queue_repo.create_taken [OF assms] queue_repo.remove_map(1,3) [OF assms prod.collapse [symmetric]]
  by (simp add: Let_def)

theorem queue_repository_map_witness:
  "queue_Get demo_ext ''x'' empty_db = (Inr None, empty_db)
   \<and> queue_lookup demo_ext ''projects/p/locations/l/queues/q'' (snd (queue_Create 0 demo_queue empty_db))
       = Some (scanQueue demo_ext (queue_insert_row 0 (queue_prepared demo_queue)))
   \<and> fst (queue_Delete ''x'' empty_db) = Inl QueueNotFound"
  using queue_repository_map [OF empty_db_ok, of demo_ext "''x''" demo_queue 0]
  by (simp add: queue_path_def demo_queue_def queue_lookup_def find_queue_def empty_db_def fun_eq_iff)

section \<open>Tasks\<close>

text \<open>
  C17: formatTime's layout sorts as text the way instants sort in time, to the millisecond, for
  the years 0 to 9999, as the comment on sqliteDatetimeFormat claims; the comparisons of the SQL
  statements rest on it.
\<close>

theorem formatTime_sorts:
  assumes "four_digit_year s" and "four_digit_year t"
  shows "(formatTime s < formatTime t) = (unix_milli s < unix_milli t)
    \<and> (formatTime s = formatTime t) = (unix_milli s = unix_milli t)"
  using formatTime_less_iff [OF assms]
    order_eq_iff [of "formatTime s" "formatTime t"] order_eq_iff [of "unix_milli s" "unix_milli t"]
  by (simp only: formatTime_le_iff [OF assms] formatTime_le_iff [OF assms(2,1)])

lemma four_digit_0: "four_digit_year 0" "four_digit_year 1234567890123456789"
  by code_simp+

theorem formatTime_sorts_witness: "formatTime 0 < formatTime 1234567890123456789"
  using formatTime_sorts [OF four_digit_0] by (simp add: unix_milli_def)

text \<open>
  C18: a created task reads back as it was written, its times truncated to milliseconds, its
  creation time to seconds, the nil header map as an empty one, its last error empty; a second
  Create under the name fails with ErrAlreadyExists.
\<close>

theorem task_create_get:
  assumes "db_ok d" and "find_task (t_Name t) d = None"
    and "driver_datetime E" and "headers_read_back E (t_Headers t)"
    and "four_digit_year (t_ScheduleTime t)" "four_digit_year (t_NextAttemptAt t)" "four_digit_year now"
  shows "\<exists>d'. task_Create E now t d = (Inr (t\<lparr>t_ID := t_Name t\<rparr>), d') \<and> db_ok d'
    \<and> task_Get E (t_Name t) d' = (Inr (Some (task_read_back now t)), d')
    \<and> task_Create E now t d' = (Inl TaskAlreadyExists, d')"
proof -
  let ?d = "d\<lparr>task_tbl := task_tbl d @ [task_insert_row E now (t\<lparr>t_ID := t_Name t\<rparr>)]\<rparr>"
  have c: "task_Create E now t d = (Inr (t\<lparr>t_ID := t_Name t\<rparr>), ?d)"
    using assms(1,2) by (simp add: task_Create_ok)
  have ok: "db_ok ?d" by (rule task_repo.create_ok [OF assms(1) c])
  have "task_lookup E (t_Name t) ?d = Some (task_read_back now t)"
    using task_repo.create_lookup [OF assms(1) c] scanTask_insert_row [OF assms(3-7)] by simp
  with ok c task_repo.create_twice [OF assms(1) c refl] show ?thesis
    by (auto simp: task_Get_lookup)
qed

theorem task_create_get_witness:
  "\<exists>d'. task_Create demo_ext 0 demo_task empty_db = (Inr (demo_task\<lparr>t_ID := t_Name demo_task\<rparr>), d') \<and> db_ok d'
    \<and> task_Get demo_ext (t_Name demo_task) d' = (Inr (Some (task_read_back 0 demo_task)), d')
    \<and> task_Create demo_ext 0 demo_task d' = (Inl TaskAlreadyExists, d')"
proof (rule task_create_get [OF empty_db_ok])
  show "headers_read_back demo_ext (t_Headers demo_task)"
    by (simp add: headers_read_back_def json_reads_back_def demo_task_def demo_ext_def demo_unmarshal_def)
qed (simp_all add: demo_driver_datetime find_task_def empty_db_def demo_task_def four_digit_0)

text \<open>
  C2: tasks.Repository.Claim hands a task to one caller. Of any sequence of claims, by
  any number of callers, the successful ones are for pairwise different tasks and are exactly
  those of the tasks that were pending, and every task claimed is no longer pending.
\<close>

theorem claims_exclusive:
  assumes "db_ok d" and "winners try_claim ks d = (ws, d')"
  shows "distinct ws \<and> set ws = {k \<in> set ks. claim_free k d} \<and> (\<forall>k \<in> set ks. \<not> claim_free k d')"
  using task_claims.winners_spec [OF assms] by simp

theorem claims_exclusive_witness:
  "fst (winners try_claim [''a'', ''b'', ''a'', ''c''] demo_db) = [''a'', ''c'']
   \<and> distinct (fst (winners try_claim [''a'', ''b'', ''a'', ''c''] demo_db))"
proof
  show "fst (winners try_claim [''a'', ''b'', ''a'', ''c''] demo_db) = [''a'', ''c'']"
    by (simp add: try_claim_def task_Claim_def update_tasks_def demo_db_def empty_db_def demo_row_def
        rows_affected_def rows_update_def status_defs)
  show "distinct (fst (winners try_claim [''a'', ''b'', ''a'', ''c''] demo_db))"
    using claims_exclusive [OF demo_db_ok prod.collapse [symmetric]] by blast
qed

text \<open>
  C19: ListPendingForQueue returns, in the order of their next attempt, tasks of the queue that
  are pending and due, at most limit many; a due task it leaves out is no earlier than any it
  returns, and then the limit was reached.
\<close>

theorem pending_listing:
  assumes "db_ok d" and "0 \<le> limit"
  shows "\<exists>rs. task_ListPendingForQueue E now qid limit d = (Inr (map (scanTask E) rs), d)
    \<and> length rs \<le> nat limit \<and> sorted (map tr_next_attempt_at rs)
    \<and> set rs \<subseteq> {r \<in> set (task_tbl d). tr_queue_id r = qid \<and> due now r}
    \<and> (\<forall>r \<in> set (task_tbl d). tr_queue_id r = qid \<and> due now r \<and> r \<notin> set rs \<longrightarrow>
         length rs = nat limit \<and> (\<forall>s \<in> set rs. tr_next_attempt_at s \<le> tr_next_attempt_at r))"
proof (intro exI conjI)
  let ?rs = "task_rows_pending now qid limit d"
  show "task_ListPendingForQueue E now qid limit d = (Inr (map (scanTask E) ?rs), d)"
    using assms(1) by (simp add: task_ListPendingForQueue_def task_query_def select_def db_ok_def)
  show "length ?rs \<le> nat limit" using assms(2) by (rule length_task_rows_pending)
  show "sorted (map tr_next_attempt_at ?rs)" by (rule task_rows_pending_sorted)
  show "set ?rs \<subseteq> {r \<in> set (task_tbl d). tr_queue_id r = qid \<and> due now r}"
    using task_rows_pending_mem by blast
  show "\<forall>r \<in> set (task_tbl d). tr_queue_id r = qid \<and> due now r \<and> r \<notin> set ?rs \<longrightarrow>
         length ?rs = nat limit \<and> (\<forall>s \<in> set ?rs. tr_next_attempt_at s \<le> tr_next_attempt_at r)"
    using task_rows_pending_early task_rows_pending_full by blast
qed

theorem pending_listing_witness:
  "\<exists>rs. task_ListPendingForQueue demo_ext 1234567890123456789 ''q'' 1 demo_db = (Inr (map (scanTask demo_ext) rs), demo_db)
    \<and> length rs \<le> nat 1 \<and> sorted (map tr_next_attempt_at rs)"
  using pending_listing [OF demo_db_ok, of 1 demo_ext 1234567890123456789 "''q''"] by auto

text \<open>
  C20: the pages of ListPage partition the listing. Reading pages of n rows at offsets 0, n, 2n and
  so on yields, concatenated, exactly List's result, in which each matching row occurs once.
\<close>

theorem pages_partition:
  assumes "db_ok d" and "0 < n"
    and "rows_affected (in_listing qid st) (task_tbl d) \<le> int k * n"
  shows "task_List E qid st d
      = (Inr (concat (map (\<lambda>i. projr (fst (task_ListPage E qid st n (int i * n) d))) [0..<k])), d)
    \<and> (\<exists>rs. task_List E qid st d = (Inr (map (scanTask E) rs), d)
           \<and> mset rs = mset (filter (in_listing qid st) (task_tbl d)))"
proof -
  have f: "faults d = []" using assms(1) by (simp add: db_ok_def)
  define xs where "xs = rev (sort_key tr_created_at (filter (in_listing qid st) (task_tbl d)))"
  have L: "task_List E qid st d = (Inr (map (scanTask E) xs), d)"
    using f by (simp add: task_List_def task_ListPage_def task_query_def select_def task_rows_page_def
        sql_limit_def xs_def)
  have P: "projr (fst (task_ListPage E qid st n i d)) = map (scanTask E) (sql_limit n i xs)" for i
    using f by (simp add: task_ListPage_def task_query_def select_def task_rows_page_def xs_def)
  have "concat (map (\<lambda>i. sql_limit n (int i * n) xs) [0..<k]) = xs"
    using assms(2,3) by (intro sql_limit_pages) (simp_all add: xs_def rows_affected_def)
  then have "task_List E qid st d
      = (Inr (concat (map (\<lambda>i. projr (fst (task_ListPage E qid st n (int i * n) d))) [0..<k])), d)"
    using map_concat [of "scanTask E" "map (\<lambda>i. sql_limit n (int i * n) xs) [0..<k]"]
    by (simp add: L P comp_def)
  moreover have "mset xs = mset (filter (in_listing qid st) (task_tbl d))" by (simp add: xs_def)
  ultimately show ?thesis using L by blast
qed

theorem pages_partition_witness:
  "task_List demo_ext ''q'' ''PENDING'' demo_db
     = (Inr (concat (map (\<lambda>i. projr (fst (task_ListPage demo_ext ''q'' ''PENDING'' 1 (int i * 1) demo_db))) [0..<2])), demo_db)"
  by (rule pages_partition [THEN conjunct1, OF demo_db_ok])
    (simp_all add: rows_affected_def demo_db_def demo_row_def empty_db_def in_listing_def)

text \<open>
  C21: SetNextAttemptNow re-queues a finished task from scratch, makes a pending one due, leaves a
  running one as it is, touches no other task, and reports ErrNotFound exactly for unknown tasks.
\<close>

theorem set_next_attempt_now:
  assumes "db_ok d"
  shows "fst (task_SetNextAttemptNow now tid d) = (if find_task tid d = None then Inl TaskNotFound else Inr ())
    \<and> find_task tid' (snd (task_SetNextAttemptNow now tid d)) =
      (case find_task tid' d of
         None \<Rightarrow> None
       | Some r \<Rightarrow> Some (
           if tid' \<noteq> tid \<or> tr_status r = StatusRunning then r
           else if tr_status r = StatusFailed \<or> tr_status r = StatusCompleted
           then r\<lparr>tr_status := StatusPending, tr_retry_count := 0, tr_last_error := None,
                  tr_next_attempt_at := formatTime now\<rparr>
           else r\<lparr>tr_next_attempt_at := formatTime now\<rparr>))"
proof -
  have f: "faults d = []" using assms by (simp add: db_ok_def)
  have k: "tr_id (requeue_row now r) = tr_id r" for r by (simp add: requeue_row_def Let_def)
  have "fst (task_SetNextAttemptNow now tid d) = (if find_task tid d = None then Inl TaskNotFound else Inr ())"
    using f by (simp add: task_SetNextAttemptNow_def update_tasks_def rows_affected_key find_task_def)
  moreover have "find_task tid' (snd (task_SetNextAttemptNow now tid d))
      = map_option (\<lambda>r. if tr_id r = tid then requeue_row now r else r) (find_task tid' d)"
    using f by (simp add: task_SetNextAttemptNow_def update_tasks_def find_task_def find_rows_update k)
  ultimately show ?thesis
    by (auto simp: requeue_row_def Let_def status_defs find_task_def split: option.splits
        dest!: find_key_Some [of tr_id])
qed

theorem set_next_attempt_now_witness:
  "fst (task_SetNextAttemptNow 0 ''b'' demo_db) = Inr ()
   \<and> find_task ''b'' (snd (task_SetNextAttemptNow 0 ''b'' demo_db)) = Some (demo_row ''b'' ''RUNNING'')"
  using set_next_attempt_now [OF demo_db_ok, of 0 "''b''" "''b''"]
  by (simp add: find_task_def demo_db_def demo_row_def empty_db_def status_defs)

text \<open>
  CountsByQueue and Count agree: for every queue and every (non-empty) status the map holds
  the number Count returns, and no entry where that number is zero.
\<close>

theorem counts_agree:
  assumes "db_ok d"
  shows "\<exists>m. task_CountsByQueue d = (Inr m, d) \<and> (\<forall>q s. s \<noteq> [] \<longrightarrow>
    task_Count q s d = (Inr (case Option.bind (m q) (\<lambda>m. m s) of None \<Rightarrow> 0 | Some n \<Rightarrow> n), d))"
  using counts_by_queue [OF assms] by metis

theorem counts_agree_witness:
  "\<exists>m. task_CountsByQueue demo_db = (Inr m, demo_db) \<and> (\<forall>q s. s \<noteq> [] \<longrightarrow>
    task_Count q s demo_db = (Inr (case Option.bind (m q) (\<lambda>m. m s) of None \<Rightarrow> 0 | Some n \<Rightarrow> n), demo_db))"
  by (rule counts_agree [OF demo_db_ok])

end
