(* ===== verification/Sched_Model.thy ===== *)
theory Sched_Model
  imports Externals Database
begin

text \<open>
  scheduler/model.go: the job record, resource names, cron schedules and their next run, defaults
  and validation, and the backoff of the retry configuration. Durations and instants are
  nanoseconds; where Go's \<^verbatim>\<open>time.Duration\<close> arithmetic can leave 64 bits, \<^const>\<open>i64\<close> wraps it.
\<close>

section \<open>Constants and data\<close>

definition JobEnabled :: string where "JobEnabled = ''ENABLED''"
definition JobPaused :: string where "JobPaused = ''PAUSED''"
definition DefaultTimeZone :: string where "DefaultTimeZone = ''UTC''"
definition DefaultAttemptDeadline :: duration where "DefaultAttemptDeadline = 180 * Second"
definition MinAttemptDeadline :: duration where "MinAttemptDeadline = 15 * Second"
definition MaxAttemptDeadline :: duration where "MaxAttemptDeadline = 1800 * Second"
definition DefaultMinBackoff :: duration where "DefaultMinBackoff = 5 * Second"
definition DefaultMaxBackoff :: duration where "DefaultMaxBackoff = 3600 * Second"
definition DefaultMaxDoublings :: int where "DefaultMaxDoublings = 5"

lemmas sched_consts = JobEnabled_def JobPaused_def DefaultTimeZone_def DefaultAttemptDeadline_def
  MinAttemptDeadline_def MaxAttemptDeadline_def DefaultMinBackoff_def DefaultMaxBackoff_def
  DefaultMaxDoublings_def

definition validMethods :: "string list" where
  "validMethods = [''POST'', ''GET'', ''HEAD'', ''PUT'', ''DELETE'', ''PATCH'', ''OPTIONS'']"

definition timezoneAliases :: "(string \<times> string) list" where
  "timezoneAliases =
     [(''Asia/Kolkata'', ''Asia/Calcutta''), (''Asia/Rangoon'', ''Asia/Yangon''),
      (''Asia/Saigon'', ''Asia/Ho_Chi_Minh''), (''Europe/Belfast'', ''Europe/London''),
      (''Europe/Mariehamn'', ''Europe/Helsinki''), (''Etc/GMT+0'', ''UTC'')]"

record RetryConfig =
  RetryCount :: int
  MaxRetryDuration :: duration
  MinBackoff :: duration
  MaxBackoff :: duration
  MaxDoublings :: int

record Job =
  j_ID :: string
  j_Project :: string
  j_Location :: string
  j_Name :: string
  j_Description :: string
  j_Schedule :: string
  j_TimeZone :: string
  j_HTTPMethod :: string
  j_URL :: string
  j_Headers :: "headers option"
  j_Body :: "string option"
  j_State :: string
  j_AttemptDeadline :: duration
  j_Retry :: RetryConfig
  j_NextRunAt :: time
  j_LastAttemptAt :: time
  j_LastStatus :: string
  j_LastStatusCode :: int
  j_LastError :: string
  j_CreatedAt :: time
  j_UpdatedAt :: time

section \<open>Names\<close>

definition job_ResourceName :: "string \<Rightarrow> string \<Rightarrow> string \<Rightarrow> string" where
  "job_ResourceName project location name =
     ''projects/'' @ project @ ''/locations/'' @ location @ ''/jobs/'' @ name"

definition job_ParseName :: "ext \<Rightarrow> string \<Rightarrow> error + (string \<times> string \<times> string)" where
  "job_ParseName E name =
     (case go_split slash name of
        [p0, p1, p2, p3, p4, p5] \<Rightarrow>
          if p0 \<noteq> ''projects'' \<or> p2 \<noteq> ''locations'' \<or> p4 \<noteq> ''jobs'' \<or> p1 = [] \<or> p3 = [] \<or> p5 = []
          then Inl (ValidationError (''invalid job name '' @ quote E name
                 @ '', expected projects/{project}/locations/{location}/jobs/{job}''))
          else Inr (p1, p3, p5)
      | _ \<Rightarrow> Inl (ValidationError (''invalid job name '' @ quote E name
                 @ '', expected projects/{project}/locations/{location}/jobs/{job}'')))"

section \<open>Schedules\<close>

text \<open>
  The time zone that is used: the given one if it loads, else its alias if that loads. The error
  texts are the source's; the one for an alias that does not load looks the alias up again.
\<close>

definition resolve_zone :: "ext \<Rightarrow> string \<Rightarrow> error + string" where
  "resolve_zone E tz =
     (case load_location E tz of
        None \<Rightarrow> Inr tz
      | Some err \<Rightarrow>
          (case map_of timezoneAliases tz of
             Some alias \<Rightarrow>
               (case load_location E alias of
                  None \<Rightarrow> Inr alias
                | Some err \<Rightarrow>
                    Inl (ValidationError (''invalid timeZone ''
                      @ quote E (case map_of timezoneAliases alias of None \<Rightarrow> [] | Some x \<Rightarrow> x)
                      @ '' (and alias '' @ quote E alias @ ''): '' @ err)))
           | None \<Rightarrow> Inl (ValidationError (''invalid timeZone '' @ quote E tz @ '': '' @ err))))"

definition ParseSchedule :: "ext \<Rightarrow> string \<Rightarrow> string \<Rightarrow> error + (time \<Rightarrow> time)" where
  "ParseSchedule E spec tz =
     (let spec = trim_space spec in
      if spec = [] then Inl (ValidationError ''schedule is required'')
      else let up = to_upper E spec in
      if has_prefix up ''TZ='' \<or> has_prefix up ''CRON_TZ=''
      then Inl (ValidationError ''schedule must not contain a TZ= prefix; use timeZone'')
      else case resolve_zone E (if tz = [] then DefaultTimeZone else tz) of
        Inl e \<Rightarrow> Inl e
      | Inr tz \<Rightarrow>
          (case cron_parse E (''CRON_TZ='' @ tz @ '' '' @ spec) of
             Inl err \<Rightarrow> Inl (ValidationError (''invalid schedule '' @ quote E spec @ '': '' @ err))
           | Inr sched \<Rightarrow> Inr sched))"

definition NextRun :: "ext \<Rightarrow> string \<Rightarrow> string \<Rightarrow> time \<Rightarrow> error + time" where
  "NextRun E spec tz from_t =
     (case ParseSchedule E spec tz of
        Inl e \<Rightarrow> Inl e
      | Inr sched \<Rightarrow>
          (let nxt = sched from_t
           in if is_zero nxt then Inl (ValidationError (''schedule '' @ quote E spec @ '' never fires''))
              else Inr nxt))"

section \<open>Defaults and validation\<close>

definition retry_defaults :: "RetryConfig \<Rightarrow> RetryConfig" where
  "retry_defaults r =
     r\<lparr>MinBackoff := (if MinBackoff r = 0 then DefaultMinBackoff else MinBackoff r),
       MaxBackoff := (if MaxBackoff r = 0 then DefaultMaxBackoff else MaxBackoff r),
       MaxDoublings := (if MaxDoublings r = 0 then DefaultMaxDoublings else MaxDoublings r)\<rparr>"

definition ApplyDefaults :: "ext \<Rightarrow> Job \<Rightarrow> Job" where
  "ApplyDefaults E j =
     j\<lparr>j_TimeZone := (if j_TimeZone j = [] then DefaultTimeZone else j_TimeZone j),
       j_HTTPMethod := to_upper E (if j_HTTPMethod j = [] then ''POST'' else j_HTTPMethod j),
       j_State := (if j_State j = [] then JobEnabled else j_State j),
       j_AttemptDeadline := (if j_AttemptDeadline j = 0 then DefaultAttemptDeadline else j_AttemptDeadline j),
       j_Retry := retry_defaults (j_Retry j)\<rparr>"

definition job_http_url :: "ext \<Rightarrow> string \<Rightarrow> bool" where
  "job_http_url E raw =
     (case url_parse E raw of
        None \<Rightarrow> False
      | Some (scheme, host) \<Rightarrow> \<not> (scheme \<noteq> ''http'' \<and> scheme \<noteq> ''https'' \<or> host = []))"

definition Validate :: "ext \<Rightarrow> Job \<Rightarrow> error option" where
  "Validate E j =
     (if \<not> match_name 500 (j_Name j)
      then Some (ValidationError (''invalid job id '' @ quote E (j_Name j)
             @ '': only letters, numbers, hyphens and underscores are allowed (max 500 chars)''))
      else if length (j_Description j) > 500
      then Some (ValidationError ''description must not exceed 500 characters'')
      else case ParseSchedule E (j_Schedule j) (j_TimeZone j) of
        Inl e \<Rightarrow> Some e
      | Inr _ \<Rightarrow>
      if j_URL j = [] then Some (ValidationError ''httpTarget.uri is required'')
      else if \<not> job_http_url E (j_URL j)
      then Some (ValidationError (''httpTarget.uri '' @ quote E (j_URL j) @ '' must be an absolute http(s) URL''))
      else if j_HTTPMethod j \<notin> set validMethods
      then Some (ValidationError (''unsupported httpTarget.httpMethod '' @ quote E (j_HTTPMethod j)))
      else if j_AttemptDeadline j < MinAttemptDeadline \<or> j_AttemptDeadline j > MaxAttemptDeadline
      then Some (ValidationError ''attemptDeadline must be between 15s and 30m0s'')
      else let r = j_Retry j in
      if RetryCount r < 0 then Some (ValidationError ''retryConfig.retryCount must not be negative'')
      else if MaxRetryDuration r < 0 \<or> MinBackoff r < 0 \<or> MaxBackoff r < 0 \<or> MaxDoublings r < 0
      then Some (ValidationError ''retryConfig values must not be negative'')
      else if MinBackoff r > MaxBackoff r
      then Some (ValidationError ''retryConfig.minBackoffDuration must not exceed maxBackoffDuration'')
      else if j_State j \<noteq> JobEnabled \<and> j_State j \<noteq> JobPaused
      then Some (ValidationError (''invalid state '' @ quote E (j_State j)))
      else None)"

section \<open>Backoff\<close>

text \<open>The loop of the first branch: \<^const>\<open>Inl\<close> is the early return of the maximum.\<close>

fun double_capped :: "nat \<Rightarrow> int \<Rightarrow> int \<Rightarrow> int + int" where
  "double_capped 0 mx d = Inr d"
| "double_capped (Suc n) mx d =
     (let d = i64 (d * 2) in if mx > 0 \<and> d \<ge> mx then Inl mx else double_capped n mx d)"

fun double_wrapped :: "nat \<Rightarrow> int \<Rightarrow> int" where
  "double_wrapped 0 b = b"
| "double_wrapped (Suc n) b = double_wrapped n (i64 (b * 2))"

definition cap_backoff :: "int \<Rightarrow> int \<Rightarrow> int" where
  "cap_backoff mx d = (if mx > 0 \<and> d > mx then mx else d)"

definition job_Backoff :: "RetryConfig \<Rightarrow> int \<Rightarrow> duration" where
  "job_Backoff r retry =
     (let retry = (if retry < 1 then 1 else retry);
          doublings = retry - 1
      in if doublings \<le> MaxDoublings r
         then (case double_capped (nat doublings) (MaxBackoff r) (MinBackoff r) of
                 Inl m \<Rightarrow> m
               | Inr d \<Rightarrow> cap_backoff (MaxBackoff r) d)
         else (let base = double_wrapped (nat (MaxDoublings r)) (MinBackoff r)
               in cap_backoff (MaxBackoff r) (i64 (base * i64 (doublings - MaxDoublings r + 1)))))"

text \<open>
  The specification of the comment: the minimum doubles \<open>MaxDoublings\<close> times, then grows by the
  last doubled value each time, and never exceeds the maximum; over unbounded integers.
\<close>

definition backoff_spec :: "RetryConfig \<Rightarrow> int \<Rightarrow> int" where
  "backoff_spec r retry =
     (let k = max 1 retry - 1;
          d = (if k \<le> MaxDoublings r then MinBackoff r * 2 ^ nat k
               else MinBackoff r * 2 ^ nat (MaxDoublings r) * (k - MaxDoublings r + 1))
      in min (MaxBackoff r) d)"

lemma double_capped_spec:
  assumes "0 \<le> d" "d \<le> mx" "0 < mx" "mx < 2 ^ 62"
  shows "(case double_capped n mx d of Inl m \<Rightarrow> m | Inr e \<Rightarrow> cap_backoff mx e) = min mx (d * 2 ^ n)"
  using assms
proof (induction n arbitrary: d)
  case 0
  then show ?case by (simp add: cap_backoff_def)
next
  case (Suc n)
  have i: "i64 (d * 2) = d * 2" using Suc.prems by (intro i64_id) (simp add: in_i64_def)
  show ?case
  proof (cases "mx \<le> d * 2")
    case True
    have "d * 2 * 1 \<le> d * 2 * 2 ^ n" using Suc.prems(1) by (intro mult_left_mono) simp_all
    with True have "mx \<le> d * 2 ^ Suc n" by simp
    with True Suc.prems show ?thesis by (simp add: i)
  next
    case False
    with Suc.IH [of "d * 2"] Suc.prems show ?thesis by (simp add: i mult.assoc)
  qed
qed

lemma double_wrapped_spec:
  "0 \<le> b \<Longrightarrow> b * 2 ^ n < 2 ^ 63 \<Longrightarrow> double_wrapped n b = b * 2 ^ n"
proof (induction n arbitrary: b)
  case (Suc n)
  have "b * 2 * 1 \<le> b * 2 * 2 ^ n" using Suc.prems(1) by (intro mult_left_mono) simp_all
  with Suc.prems have "i64 (b * 2) = b * 2" by (intro i64_id) (simp add: in_i64_def)
  with Suc show ?case by (simp add: mult.assoc)
qed simp

text \<open>Wrapping after every doubling is wrapping once, so 64 doublings leave nothing.\<close>

lemma i64_mod: "i64 x mod 2 ^ 64 = x mod 2 ^ 64"
proof -
  have "i64 x mod 2 ^ 64 = ((x + 2 ^ 63) mod 2 ^ 64 - 2 ^ 63) mod 2 ^ 64" by (simp only: i64_def)
  also have "\<dots> = (x + 2 ^ 63 - 2 ^ 63) mod 2 ^ 64" by (rule mod_diff_left_eq)
  finally show ?thesis by simp
qed

lemma i64_cong: "x mod 2 ^ 64 = y mod 2 ^ 64 \<Longrightarrow> i64 x = i64 y"
  unfolding i64_def using mod_add_cong [of x "2 ^ 64" y "2 ^ 63" "2 ^ 63"] by (simp only: refl)

lemma double_wrapped_once: "0 < n \<Longrightarrow> double_wrapped n b = i64 (b * 2 ^ n)"
proof (induction n arbitrary: b)
  case (Suc n)
  show ?case
  proof (cases "n = 0")
    case False
    have "i64 (b * 2) * 2 ^ n mod 2 ^ 64 = b * 2 * 2 ^ n mod 2 ^ 64" by (rule mod_mult_cong [OF i64_mod refl])
    then have "i64 (i64 (b * 2) * 2 ^ n) = i64 (b * 2 * 2 ^ n)" by (rule i64_cong)
    with Suc.IH False show ?thesis by (simp add: mult.assoc)
  qed simp
qed simp

lemma double_wrapped_64:
  assumes "64 \<le> n"
  shows "double_wrapped n b = 0"
proof -
  have "(2 :: int) ^ 64 dvd 2 ^ n" using assms by (rule le_imp_power_dvd)
  from dvd_imp_mod_0 [OF dvd_mult [OF this, of b]] have "b * 2 ^ n mod 2 ^ 64 = 0 mod 2 ^ 64" by (simp only: mod_0)
  then have "i64 (b * 2 ^ n) = i64 0" by (rule i64_cong)
  with assms show ?thesis by (simp add: double_wrapped_once in_i64_def)
qed

lemma job_Backoff_spec:
  assumes "0 \<le> MinBackoff r" "MinBackoff r \<le> MaxBackoff r" "0 < MaxBackoff r" "MaxBackoff r < 2 ^ 62"
    and "0 \<le> MaxDoublings r" "retry < 2 ^ 63"
    and fit: "MinBackoff r * 2 ^ nat (MaxDoublings r) * max 1 (retry - MaxDoublings r) < 2 ^ 63"
  shows "job_Backoff r retry = backoff_spec r retry"
proof -
  define k where "k = max 1 retry - 1"
  have k: "(if retry < 1 then 1 else retry) - 1 = k" "0 \<le> k" "k < 2 ^ 63" using assms(6) by (auto simp: k_def)
  show ?thesis
  proof (cases "k \<le> MaxDoublings r")
    case True
    then show ?thesis
      using double_capped_spec [OF assms(1-4), of "nat k"] k
      by (simp add: job_Backoff_def backoff_spec_def Let_def flip: k_def)
  next
    case False
    let ?B = "MinBackoff r * 2 ^ nat (MaxDoublings r)"
    have f: "k - MaxDoublings r + 1 = max 1 (retry - MaxDoublings r)" "0 < k - MaxDoublings r + 1"
      using False assms(5) by (auto simp: k_def)
    have B: "0 \<le> ?B" using assms(1) by simp
    then have "?B * 1 \<le> ?B * (k - MaxDoublings r + 1)" using f(2) by (intro mult_left_mono) simp_all
    note B = B this
    then have "double_wrapped (nat (MaxDoublings r)) (MinBackoff r) = ?B"
      using assms(1) fit f by (intro double_wrapped_spec) simp_all
    moreover have "i64 (k - MaxDoublings r + 1) = k - MaxDoublings r + 1"
      using f assms(5,6) by (intro i64_id) (simp add: in_i64_def)
    moreover have "i64 (?B * (k - MaxDoublings r + 1)) = ?B * (k - MaxDoublings r + 1)"
      using fit f B by (intro i64_id) (simp add: in_i64_def)
    ultimately show ?thesis
      using False k assms(3)
      by (simp add: job_Backoff_def backoff_spec_def Let_def cap_backoff_def min_def flip: k_def)
  qed
qed

lemma backoff_spec_bounds:
  assumes "0 \<le> MinBackoff r" "MinBackoff r \<le> MaxBackoff r" "0 \<le> MaxDoublings r"
  shows "MinBackoff r \<le> backoff_spec r retry" "backoff_spec r retry \<le> MaxBackoff r"
proof -
  define k where "k = max 1 retry - 1"
  have p: "MinBackoff r * 1 \<le> MinBackoff r * 2 ^ n" for n
    using assms(1) by (intro mult_left_mono) simp_all
  have q: "MinBackoff r * 2 ^ nat (MaxDoublings r) * 1 \<le> MinBackoff r * 2 ^ nat (MaxDoublings r) * (k - MaxDoublings r + 1)"
    if "\<not> k \<le> MaxDoublings r"
    using that assms(1) by (intro mult_left_mono) simp_all
  show "MinBackoff r \<le> backoff_spec r retry"
    using p [of "nat k"] p [of "nat (MaxDoublings r)"] q assms(2)
    by (auto simp: backoff_spec_def Let_def simp flip: k_def)
  show "backoff_spec r retry \<le> MaxBackoff r" by (simp add: backoff_spec_def Let_def)
qed

section \<open>Facts about names and schedules\<close>

lemma job_ParseName_ResourceName:
  assumes "slash \<notin> set p" "slash \<notin> set l" "slash \<notin> set n" "p \<noteq> []" "l \<noteq> []" "n \<noteq> []"
  shows "job_ParseName E (job_ResourceName p l n) = Inr (p, l, n)"
proof -
  have "go_split slash (job_ResourceName p l n) = [''projects'', p, ''locations'', l, ''jobs'', n]"
    using assms go_split_append [of slash "''projects''"] go_split_append [of slash "''locations''"]
      go_split_append [of slash "''jobs''"] go_split_append [of slash p] go_split_append [of slash l]
    by (simp add: job_ResourceName_def go_split_nosep)
  with assms show ?thesis by (simp add: job_ParseName_def)
qed

lemma job_ParseName_sound:
  assumes "job_ParseName E s = Inr (p, l, n)"
  shows "s = job_ResourceName p l n" and "p \<noteq> []" "l \<noteq> []" "n \<noteq> []"
    and "slash \<notin> set p" "slash \<notin> set l" "slash \<notin> set n"
proof -
  have sp: "go_split slash s = [''projects'', p, ''locations'', l, ''jobs'', n]"
    and "p \<noteq> []" "l \<noteq> []" "n \<noteq> []"
    using assms by (auto simp: job_ParseName_def split: list.splits if_splits)
  then show "p \<noteq> []" "l \<noteq> []" "n \<noteq> []" by simp_all
  have "go_join slash [''projects'', p, ''locations'', l, ''jobs'', n] = s"
    using go_join_split [of slash s] sp by simp
  then show "s = job_ResourceName p l n" by (simp add: job_ResourceName_def)
  show "slash \<notin> set p" "slash \<notin> set l" "slash \<notin> set n"
    using go_split_seps [of _ slash s] sp by simp_all
qed

lemma ParseSchedule_cron:
  assumes "ParseSchedule E spec tz = Inr sched"
  shows "\<exists>s. cron_parse E s = Inr sched"
  using assms by (auto simp: ParseSchedule_def Let_def split: if_splits sum.splits)

lemma NextRun_later:
  assumes "cron_later E" "NextRun E spec tz t = Inr nxt"
  shows "t < nxt" "nxt mod Second = 0" "\<not> is_zero nxt"
proof -
  obtain sched where s: "ParseSchedule E spec tz = Inr sched" "nxt = sched t" "\<not> is_zero nxt"
    using assms(2) by (auto simp: NextRun_def Let_def split: sum.splits if_splits)
  from ParseSchedule_cron [OF s(1)] obtain sp where "cron_parse E sp = Inr sched" by blast
  with assms(1) s show "t < nxt" "nxt mod Second = 0" "\<not> is_zero nxt"
    by (auto simp: cron_later_def)
qed

lemma NextRun_milli:
  assumes "cron_later E" "NextRun E spec tz t = Inr nxt"
  shows "unix_milli t < unix_milli nxt"
proof -
  note n = NextRun_later [OF assms]
  define q where "q = nxt div Second"
  have q: "nxt = q * Second" using n(2) by (simp add: q_def minus_mod_eq_div_mult [symmetric])
  have "unix_milli nxt = q * 1000" by (simp add: unix_milli_def q)
  moreover have "t div Millisecond < q * 1000"
  proof (rule ccontr)
    assume "\<not> ?thesis"
    then have "q * 1000 * Millisecond \<le> t div Millisecond * Millisecond" by simp
    also have "\<dots> \<le> t" using div_mult_mod_eq [of t Millisecond] pos_mod_sign [of Millisecond t] by linarith
    finally show False using n(1) by (simp add: q)
  qed
  ultimately show ?thesis by (simp add: unix_milli_def)
qed

end
