(* ===== verification/Sched_Repo.thy ===== *)
theory Sched_Repo
  imports Sched_Model Repo_Spec Queues
begin

text \<open>
  scheduler/repository.go: jobs as rows of the jobs table, with times as milliseconds since the
  epoch and zero for the zero time. \<^verbatim>\<open>job_X\<close> models the method \<^verbatim>\<open>Repository.X\<close>. Shown: the
  repository refines a partial map, \<^verbatim>\<open>Claim\<close> is a compare-and-swap won by one caller, and what
  every method does under any statement failure.
\<close>

section \<open>Rows\<close>

definition ms :: "time \<Rightarrow> int" where
  "ms t = (if is_zero t then 0 else unix_milli t)"

definition fromMs :: "int \<Rightarrow> time" where
  "fromMs v = (if v = 0 then zero_time else v * Millisecond)"

definition milliseconds :: "duration \<Rightarrow> int" where
  "milliseconds d = go_div d Millisecond"

definition dur_of_ms :: "int \<Rightarrow> duration" where
  "dur_of_ms v = i64 (v * Millisecond)"

definition headersJSON :: "ext \<Rightarrow> headers option \<Rightarrow> string" where
  "headersJSON E h = (case h of None \<Rightarrow> [] | Some [] \<Rightarrow> [] | Some h \<Rightarrow> hdr_marshal E h)"

definition scanJob :: "ext \<Rightarrow> job_row \<Rightarrow> Job" where
  "scanJob E r =
     \<lparr>j_ID = jr_id r, j_Project = jr_project r, j_Location = jr_location r, j_Name = jr_name r,
      j_Description = jr_description r, j_Schedule = jr_schedule r, j_TimeZone = jr_time_zone r,
      j_HTTPMethod = jr_http_method r, j_URL = jr_url r,
      j_Headers = (if jr_headers r \<noteq> [] then hdr_unmarshal E (jr_headers r) else None),
      j_Body = jr_body r, j_State = jr_state r, j_AttemptDeadline = dur_of_ms (jr_attempt_deadline_ms r),
      j_Retry = \<lparr>RetryCount = jr_retry_count r, MaxRetryDuration = dur_of_ms (jr_max_retry_duration_ms r),
                 MinBackoff = dur_of_ms (jr_min_backoff_ms r), MaxBackoff = dur_of_ms (jr_max_backoff_ms r),
                 MaxDoublings = jr_max_doublings r\<rparr>,
      j_NextRunAt = fromMs (jr_next_run_at r), j_LastAttemptAt = fromMs (jr_last_attempt_at r),
      j_LastStatus = jr_last_status r, j_LastStatusCode = jr_last_status_code r,
      j_LastError = jr_last_error r, j_CreatedAt = fromMs (jr_created_at r),
      j_UpdatedAt = fromMs (jr_updated_at r)\<rparr>"

definition job_insert_row :: "ext \<Rightarrow> Job \<Rightarrow> job_row" where
  "job_insert_row E j =
     \<lparr>jr_id = j_ID j, jr_project = j_Project j, jr_location = j_Location j, jr_name = j_Name j,
      jr_description = j_Description j, jr_schedule = j_Schedule j, jr_time_zone = j_TimeZone j,
      jr_http_method = j_HTTPMethod j, jr_url = j_URL j, jr_headers = headersJSON E (j_Headers j),
      jr_body = j_Body j, jr_state = j_State j, jr_attempt_deadline_ms = milliseconds (j_AttemptDeadline j),
      jr_retry_count = RetryCount (j_Retry j), jr_min_backoff_ms = milliseconds (MinBackoff (j_Retry j)),
      jr_max_backoff_ms = milliseconds (MaxBackoff (j_Retry j)), jr_max_doublings = MaxDoublings (j_Retry j),
      jr_max_retry_duration_ms = milliseconds (MaxRetryDuration (j_Retry j)),
      jr_next_run_at = ms (j_NextRunAt j), jr_last_attempt_at = ms (j_LastAttemptAt j),
      jr_last_status = j_LastStatus j, jr_last_status_code = j_LastStatusCode j,
      jr_last_error = j_LastError j, jr_created_at = ms (j_CreatedAt j), jr_updated_at = ms (j_UpdatedAt j)\<rparr>"

definition job_update_row :: "ext \<Rightarrow> Job \<Rightarrow> job_row \<Rightarrow> job_row" where
  "job_update_row E j r =
     r\<lparr>jr_description := j_Description j, jr_schedule := j_Schedule j, jr_time_zone := j_TimeZone j,
       jr_http_method := j_HTTPMethod j, jr_url := j_URL j, jr_headers := headersJSON E (j_Headers j),
       jr_body := j_Body j, jr_state := j_State j,
       jr_attempt_deadline_ms := milliseconds (j_AttemptDeadline j),
       jr_retry_count := RetryCount (j_Retry j), jr_min_backoff_ms := milliseconds (MinBackoff (j_Retry j)),
       jr_max_backoff_ms := milliseconds (MaxBackoff (j_Retry j)), jr_max_doublings := MaxDoublings (j_Retry j),
       jr_max_retry_duration_ms := milliseconds (MaxRetryDuration (j_Retry j)),
       jr_next_run_at := ms (j_NextRunAt j), jr_updated_at := ms (j_UpdatedAt j)\<rparr>"

section \<open>Methods\<close>

definition find_job :: "string \<Rightarrow> db \<Rightarrow> job_row option" where
  "find_job jid d = find (\<lambda>r. jr_id r = jid) (job_tbl d)"

definition job_Get :: "ext \<Rightarrow> string \<Rightarrow> db \<Rightarrow> (error + Job option) \<times> db" where
  "job_Get E jid d =
     (case select (find_job jid) d of
        (Inl e, d) \<Rightarrow> (Inl (SqlError e), d)
      | (Inr r, d) \<Rightarrow> (Inr (map_option (scanJob E) r), d))"

definition job_stamped :: "time \<Rightarrow> Job \<Rightarrow> Job" where
  "job_stamped now j = j\<lparr>j_ID := job_ResourceName (j_Project j) (j_Location j) (j_Name j),
     j_CreatedAt := now, j_UpdatedAt := now\<rparr>"

definition job_Create :: "ext \<Rightarrow> time \<Rightarrow> Job \<Rightarrow> db \<Rightarrow> (error + Job) \<times> db" where
  "job_Create E now j d =
     (case job_Get E (job_ResourceName (j_Project j) (j_Location j) (j_Name j)) d of
        (Inl e, d) \<Rightarrow> (Inl e, d)
      | (Inr (Some _), d) \<Rightarrow> (Inl JobAlreadyExists, d)
      | (Inr None, d) \<Rightarrow>
          (case insert_job (job_insert_row E (job_stamped now j)) d of
             (Inl e, d) \<Rightarrow> (Inl (SqlError e), d)
           | (Inr _, d) \<Rightarrow> (Inr (job_stamped now j), d)))"

definition job_query :: "ext \<Rightarrow> (db \<Rightarrow> job_row list) \<Rightarrow> db \<Rightarrow> (error + Job list) \<times> db" where
  "job_query E sel d =
     (case select sel d of
        (Inl e, d) \<Rightarrow> (Inl (SqlError e), d)
      | (Inr rs, d) \<Rightarrow> (Inr (map (scanJob E) rs), d))"

definition job_List :: "ext \<Rightarrow> string \<Rightarrow> string \<Rightarrow> db \<Rightarrow> (error + Job list) \<times> db" where
  "job_List E project location =
     job_query E (\<lambda>d. sort_key jr_name
       (filter (\<lambda>r. jr_project r = project \<and> jr_location r = location) (job_tbl d)))"

definition job_ListAll :: "ext \<Rightarrow> db \<Rightarrow> (error + Job list) \<times> db" where
  "job_ListAll E =
     job_query E (\<lambda>d. sort_key (\<lambda>r. (jr_project r, jr_location r, jr_name r)) (job_tbl d))"

definition job_due :: "time \<Rightarrow> job_row \<Rightarrow> bool" where
  "job_due now r \<longleftrightarrow> jr_state r = JobEnabled \<and> jr_next_run_at r > 0 \<and> jr_next_run_at r \<le> unix_milli now"

definition job_ListDue :: "ext \<Rightarrow> time \<Rightarrow> db \<Rightarrow> (error + Job list) \<times> db" where
  "job_ListDue E now =
     job_query E (\<lambda>d. sort_key jr_next_run_at (filter (job_due now) (job_tbl d)))"

definition affected :: "(db_error + int) \<times> db \<Rightarrow> (error + unit) \<times> db" where
  "affected res =
     (case res of
        (Inl e, d) \<Rightarrow> (Inl (SqlError e), d)
      | (Inr n, d) \<Rightarrow> (if n = 0 then Inl JobNotFound else Inr (), d))"

definition job_Update :: "ext \<Rightarrow> time \<Rightarrow> Job \<Rightarrow> db \<Rightarrow> (error + unit) \<times> db" where
  "job_Update E now j d =
     affected (update_jobs (\<lambda>r. jr_id r = j_ID j) (job_update_row E (j\<lparr>j_UpdatedAt := now\<rparr>)) d)"

definition job_SetState :: "time \<Rightarrow> string \<Rightarrow> string \<Rightarrow> time \<Rightarrow> db \<Rightarrow> (error + unit) \<times> db" where
  "job_SetState now jid state nextRun d =
     affected (update_jobs (\<lambda>r. jr_id r = jid)
       (\<lambda>r. r\<lparr>jr_state := state, jr_next_run_at := ms nextRun, jr_updated_at := unix_milli now\<rparr>) d)"

definition job_Claim :: "string \<Rightarrow> time \<Rightarrow> time \<Rightarrow> db \<Rightarrow> (error + bool) \<times> db" where
  "job_Claim jid oldNext newNext d =
     (case update_jobs (\<lambda>r. jr_id r = jid \<and> jr_state r = JobEnabled \<and> jr_next_run_at r = ms oldNext)
             (\<lambda>r. r\<lparr>jr_next_run_at := ms newNext\<rparr>) d of
        (Inl e, d) \<Rightarrow> (Inl (SqlError e), d)
      | (Inr n, d) \<Rightarrow> (Inr (n = 1), d))"

definition job_RecordAttempt :: "string \<Rightarrow> time \<Rightarrow> string \<Rightarrow> int \<Rightarrow> string \<Rightarrow> db \<Rightarrow> (error + unit) \<times> db" where
  "job_RecordAttempt jid att status code errMsg d =
     (case update_jobs (\<lambda>r. jr_id r = jid)
             (\<lambda>r. r\<lparr>jr_last_attempt_at := ms att, jr_last_status := status,
                    jr_last_status_code := code, jr_last_error := errMsg\<rparr>) d of
        (Inl e, d) \<Rightarrow> (Inl (SqlError e), d)
      | (Inr _, d) \<Rightarrow> (Inr (), d))"

definition job_Delete :: "string \<Rightarrow> db \<Rightarrow> (error + unit) \<times> db" where
  "job_Delete jid d = affected (delete_jobs (\<lambda>r. jr_id r = jid) d)"

section \<open>The repository as a partial map\<close>

definition job_lookup :: "ext \<Rightarrow> string \<Rightarrow> db \<Rightarrow> Job option" where
  "job_lookup E jid d = map_option (scanJob E) (find_job jid d)"

lemma job_Get_lookup: "db_ok d \<Longrightarrow> job_Get E jid d = (Inr (job_lookup E jid d), d)"
  by (simp add: job_Get_def job_lookup_def select_def db_ok_def)

lemma jr_id_insert_row [simp]: "jr_id (job_insert_row E j) = j_ID j"
  by (simp add: job_insert_row_def)

lemma j_ID_stamped [simp]:
  "j_ID (job_stamped now j) = job_ResourceName (j_Project j) (j_Location j) (j_Name j)"
  by (simp add: job_stamped_def)

lemma jr_id_update_row [simp]: "jr_id (job_update_row E j r) = jr_id r"
  by (simp add: job_update_row_def)

lemma job_Create_ok:
  assumes "db_ok d"
  shows "job_Create E now j d =
    (if find_job (job_ResourceName (j_Project j) (j_Location j) (j_Name j)) d \<noteq> None
     then (Inl JobAlreadyExists, d)
     else (Inr (job_stamped now j), d\<lparr>job_tbl := job_tbl d @ [job_insert_row E (job_stamped now j)]\<rparr>))"
proof (cases "find_job (job_ResourceName (j_Project j) (j_Location j) (j_Name j)) d")
  case None
  then have "job_ResourceName (j_Project j) (j_Location j) (j_Name j) \<notin> set (map jr_id (job_tbl d))"
    unfolding find_job_def find_key_None .
  with None assms show ?thesis
    by (simp add: job_Create_def job_Get_lookup job_lookup_def insert_job_def rows_insert_def db_okD)
next
  case (Some r)
  with assms show ?thesis by (simp add: job_Create_def job_Get_lookup job_lookup_def)
qed

lemma job_Delete_ok:
  assumes "db_ok d"
  shows "job_Delete jid d =
    (if find_job jid d = None then (Inl JobNotFound, d)
     else (Inr (), d\<lparr>job_tbl := rows_delete (\<lambda>r. jr_id r = jid) (job_tbl d)\<rparr>))"
  using assms
  by (simp add: job_Delete_def affected_def delete_jobs_def db_ok_def rows_affected_key find_job_def
      rows_delete_none)

interpretation job_repo: keyed_repository db_ok "job_lookup E" "job_Create E now" job_Delete
  "\<lambda>j. job_ResourceName (j_Project j) (j_Location j) (j_Name j)"
  "\<lambda>j. scanJob E (job_insert_row E (job_stamped now j))" JobAlreadyExists JobNotFound
proof (unfold_locales, goal_cases)
  case (1 d j)
  let ?r = "job_insert_row E (job_stamped now j)"
  have n: "find (\<lambda>r. jr_id r = jr_id ?r) (job_tbl d) = None"
    using 1 by (simp add: job_lookup_def find_job_def)
  have "jr_id ?r \<notin> set (map jr_id (job_tbl d))" using n by (simp only: find_key_None) simp
  with 1 show ?case
    by (auto simp: job_Create_ok job_lookup_def db_ok_def wf_db_def find_job_def find_key_snoc [OF n])
next
  case (2 d j)
  then show ?case by (simp add: job_Create_ok job_lookup_def)
next
  case (3 d jid)
  then have "distinct (map jr_id (job_tbl d))" by (simp add: db_ok_def wf_db_def)
  with 3 show ?case
    by (auto simp: job_Delete_ok job_lookup_def db_ok_def wf_db_def find_job_def
        find_rows_delete [of jr_id] intro: distinct_rows_delete split: option.splits
        dest: find_key_Some [of jr_id])
next
  case (4 d jid)
  then show ?case by (simp add: job_Delete_ok job_lookup_def)
qed

section \<open>Claims\<close>

text \<open>
  Competing callers that all read the same schedule: \<open>old\<close> gives the run each job is due for,
  \<open>new\<close> the next one, and the two differ.
\<close>

definition try_claim_job :: "(string \<Rightarrow> time) \<Rightarrow> (string \<Rightarrow> time) \<Rightarrow> string \<Rightarrow> db \<Rightarrow> bool \<times> db" where
  "try_claim_job old new jid d =
     (case job_Claim jid (old jid) (new jid) d of (Inl _, d) \<Rightarrow> (False, d) | (Inr b, d) \<Rightarrow> (b, d))"

definition job_claim_free :: "(string \<Rightarrow> time) \<Rightarrow> string \<Rightarrow> db \<Rightarrow> bool" where
  "job_claim_free old jid d =
     (case find_job jid d of
        None \<Rightarrow> False
      | Some r \<Rightarrow> jr_state r = JobEnabled \<and> jr_next_run_at r = ms (old jid))"

definition claims_ok :: "(string \<Rightarrow> time) \<Rightarrow> (string \<Rightarrow> time) \<Rightarrow> db \<Rightarrow> bool" where
  "claims_ok old new d \<longleftrightarrow> db_ok d \<and> (\<forall>jid. ms (new jid) \<noteq> ms (old jid))"

lemma job_Claim_ok:
  assumes "db_ok d"
  shows "job_Claim jid old new d = (Inr (job_claim_free (\<lambda>_. old) jid d),
    d\<lparr>job_tbl := rows_update (\<lambda>r. jr_id r = jid \<and> jr_state r = JobEnabled \<and> jr_next_run_at r = ms old)
        (\<lambda>r. r\<lparr>jr_next_run_at := ms new\<rparr>) (job_tbl d)\<rparr>)"
  using assms rows_affected_key_if [of jr_id "job_tbl d" jid
      "\<lambda>r. jr_state r = JobEnabled \<and> jr_next_run_at r = ms old"]
  by (auto simp: job_Claim_def update_jobs_def job_claim_free_def find_job_def db_ok_def wf_db_def
      split: option.splits)

interpretation job_claims: claimable "claims_ok old new" "try_claim_job old new" "job_claim_free old"
proof (unfold_locales, goal_cases)
  case (1 d jid)
  then show ?case by (simp add: try_claim_job_def claims_ok_def job_Claim_ok job_claim_free_def)
next
  case (2 d jid)
  then show ?case by (simp add: try_claim_job_def claims_ok_def job_Claim_ok)
      (simp add: db_ok_def wf_db_def map_rows_update)
next
  case (3 d jid' jid)
  then have "ms (new jid) \<noteq> ms (old jid)" by (simp add: claims_ok_def)
  with 3 show ?case
    by (auto simp: try_claim_job_def claims_ok_def job_Claim_ok job_claim_free_def find_job_def
        find_rows_update [of jr_id] dest: find_key_Some [of jr_id] split: option.splits if_splits)
qed

section \<open>Effects under any failure script\<close>

lemma job_Get_effect:
  assumes "job_Get E jid d = (r, d')"
  shows "tables d' = tables d \<and> (case r of Inl _ \<Rightarrow> True | Inr q \<Rightarrow> q = job_lookup E jid d)"
proof -
  obtain x d1 where u: "select (find_job jid) d = (x, d1)" by (cases "select (find_job jid) d")
  from select_effect [OF this] assms u show ?thesis
    by (cases x) (auto simp: job_Get_def job_lookup_def find_job_def)
qed

lemma job_query_effect:
  assumes "job_query E sel d = (r, d')" and "\<And>d fs. sel (d\<lparr>faults := fs\<rparr>) = sel d"
  shows "tables d' = tables d \<and> (case r of Inl _ \<Rightarrow> True | Inr js \<Rightarrow> js = map (scanJob E) (sel d))"
proof -
  obtain x d1 where u: "select sel d = (x, d1)" by (cases "select sel d")
  from select_effect [OF this] assms u show ?thesis by (cases x) (auto simp: job_query_def)
qed

lemma affected_update:
  assumes "affected (update_jobs P f d) = (r, d')"
  shows "case r of Inl _ \<Rightarrow> tables d' = tables d
    | Inr _ \<Rightarrow> rows_affected P (job_tbl d) \<noteq> 0 \<and> job_tbl d' = rows_update P f (job_tbl d)
        \<and> queue_tbl d' = queue_tbl d \<and> task_tbl d' = task_tbl d"
proof -
  obtain x d1 where u: "update_jobs P f d = (x, d1)" by (cases "update_jobs P f d")
  from update_jobs_effect [OF this] assms u show ?thesis
    by (cases x) (auto simp: affected_def rows_update_none tables_def split: if_splits)
qed

lemma jobs_updated:
  assumes "(case update_jobs P f d of (Inl e, d) \<Rightarrow> (Inl (SqlError e), d) | (Inr n, d) \<Rightarrow> (Inr (g n), d)) = (r, d')"
  shows "case r of Inl _ \<Rightarrow> tables d' = tables d
    | Inr x \<Rightarrow> x = g (rows_affected P (job_tbl d)) \<and> job_tbl d' = rows_update P f (job_tbl d)
        \<and> queue_tbl d' = queue_tbl d \<and> task_tbl d' = task_tbl d"
proof -
  obtain x d1 where u: "update_jobs P f d = (x, d1)" by (cases "update_jobs P f d")
  from update_jobs_effect [OF this] assms u show ?thesis by (cases x) auto
qed

lemma job_Delete_effect:
  assumes "job_Delete jid d = (r, d')"
  shows "case r of Inl _ \<Rightarrow> tables d' = tables d
    | Inr _ \<Rightarrow> find_job jid d \<noteq> None \<and> job_tbl d' = rows_delete (\<lambda>r. jr_id r = jid) (job_tbl d)
        \<and> queue_tbl d' = queue_tbl d \<and> task_tbl d' = task_tbl d"
proof -
  obtain x d1 where u: "delete_jobs (\<lambda>r. jr_id r = jid) d = (x, d1)"
    by (cases "delete_jobs (\<lambda>r. jr_id r = jid) d")
  from delete_jobs_effect [OF this] assms u show ?thesis
    by (cases x) (auto simp: job_Delete_def affected_def find_job_def rows_affected_key rows_delete_none
        tables_def split: if_splits)
qed

lemma job_Create_effect:
  assumes "job_Create E now j d = (r, d')"
  shows "case r of Inl _ \<Rightarrow> tables d' = tables d
    | Inr j' \<Rightarrow> j' = job_stamped now j \<and> find_job (j_ID j') d = None
        \<and> job_tbl d' = job_tbl d @ [job_insert_row E (job_stamped now j)]
        \<and> queue_tbl d' = queue_tbl d \<and> task_tbl d' = task_tbl d"
proof -
  let ?id = "job_ResourceName (j_Project j) (j_Location j) (j_Name j)"
  obtain x d1 where g: "job_Get E ?id d = (x, d1)" by (cases "job_Get E ?id d")
  obtain y d2 where i: "insert_job (job_insert_row E (job_stamped now j)) d1 = (y, d2)"
    by (cases "insert_job (job_insert_row E (job_stamped now j)) d1")
  note G = job_Get_effect [OF g] and I = insert_job_effect [OF i]
  show ?thesis
  proof (cases x)
    case (Inl e)
    with G assms g show ?thesis by (auto simp: job_Create_def)
  next
    case (Inr jo)
    with G I assms g i show ?thesis
      by (cases "find_job ?id d"; cases y)
        (auto simp: job_Create_def job_lookup_def tables_eq_iff)
  qed
qed

section \<open>Reading back\<close>

definition dur_trunc :: "duration \<Rightarrow> duration" where
  "dur_trunc d = d div Millisecond * Millisecond"

definition time_trunc :: "time \<Rightarrow> time" where
  "time_trunc t = (if is_zero t \<or> unix_milli t = 0 then zero_time else unix_milli t * Millisecond)"

lemma dur_of_milliseconds: "0 \<le> d \<Longrightarrow> d < 2 ^ 63 \<Longrightarrow> dur_of_ms (milliseconds d) = dur_trunc d"
proof -
  assume d: "0 \<le> d" "d < 2 ^ 63"
  have "d div Millisecond * Millisecond \<le> d" "0 \<le> d div Millisecond * Millisecond"
    using d div_mult_mod_eq [of d Millisecond] pos_mod_sign [of Millisecond d]
    by (simp_all add: pos_imp_zdiv_nonneg_iff)
  with d have "in_i64 (d div Millisecond * Millisecond)" by (simp add: in_i64_def)
  with d show ?thesis by (simp add: dur_of_ms_def milliseconds_def dur_trunc_def)
qed

lemma fromMs_ms: "fromMs (ms t) = time_trunc t"
  by (simp add: fromMs_def ms_def time_trunc_def)

text \<open>What a created job reads back as: durations and times truncated to milliseconds.\<close>

definition job_read_back :: "time \<Rightarrow> Job \<Rightarrow> Job" where
  "job_read_back now j =
     (let r = j_Retry j in
      j\<lparr>j_ID := job_ResourceName (j_Project j) (j_Location j) (j_Name j),
        j_Headers := (if j_Headers j = Some [] then None else j_Headers j),
        j_AttemptDeadline := dur_trunc (j_AttemptDeadline j),
        j_Retry := r\<lparr>MaxRetryDuration := dur_trunc (MaxRetryDuration r),
                     MinBackoff := dur_trunc (MinBackoff r), MaxBackoff := dur_trunc (MaxBackoff r)\<rparr>,
        j_NextRunAt := time_trunc (j_NextRunAt j), j_LastAttemptAt := time_trunc (j_LastAttemptAt j),
        j_CreatedAt := time_trunc now, j_UpdatedAt := time_trunc now\<rparr>)"

definition nonneg_dur :: "duration \<Rightarrow> bool" where
  "nonneg_dur d \<longleftrightarrow> 0 \<le> d \<and> d < 2 ^ 63"

lemma headersJSON_back:
  assumes "\<forall>h. j_Headers j = Some h \<and> h \<noteq> [] \<longrightarrow> json_reads_back E h"
  shows "(if headersJSON E (j_Headers j) \<noteq> [] then hdr_unmarshal E (headersJSON E (j_Headers j)) else None)
    = (if j_Headers j = Some [] then None else j_Headers j)"
proof (cases "j_Headers j")
  case (Some h)
  with assms show ?thesis by (cases h) (auto simp: headersJSON_def json_reads_back_def)
qed (simp add: headersJSON_def)

lemma scanJob_insert_row:
  assumes "\<forall>h. j_Headers j = Some h \<and> h \<noteq> [] \<longrightarrow> json_reads_back E h"
    and "nonneg_dur (j_AttemptDeadline j)" "nonneg_dur (MaxRetryDuration (j_Retry j))"
    and "nonneg_dur (MinBackoff (j_Retry j))" "nonneg_dur (MaxBackoff (j_Retry j))"
  shows "scanJob E (job_insert_row E (job_stamped now j)) = job_read_back now j"
proof -
  note h = headersJSON_back [OF assms(1)]
  have "dur_of_ms (milliseconds x) = dur_trunc x" if "nonneg_dur x" for x
    using that by (simp add: nonneg_dur_def dur_of_milliseconds)
  note d = this [OF assms(2)] this [OF assms(3)] this [OF assms(4)] this [OF assms(5)]
  have R: "j_Retry (scanJob E (job_insert_row E (job_stamped now j))) = j_Retry (job_read_back now j)"
    by (rule RetryConfig.equality)
      (simp_all add: scanJob_def job_insert_row_def job_stamped_def job_read_back_def Let_def d)
  have H: "j_Headers (scanJob E (job_insert_row E (job_stamped now j))) = j_Headers (job_read_back now j)"
    using h by (cases "j_Headers j = Some []"; cases "headersJSON E (j_Headers j) = []")
      (simp_all add: scanJob_def job_insert_row_def job_stamped_def job_read_back_def Let_def)
  show ?thesis
    by (rule Job.equality [OF _ _ _ _ _ _ _ _ _ H _ _ _ R])
      (simp_all add: scanJob_def job_insert_row_def job_stamped_def job_read_back_def Let_def fromMs_ms d)
qed

end
