(* ===== verification/Sched_Service.thy ===== *)
theory Sched_Service
  imports Sched_Repo
begin

text \<open>
  scheduler/service.go: the operations REST, gRPC and the admin pages share. \<^verbatim>\<open>svc_X\<close> models
  \<^verbatim>\<open>Service.X\<close>; \<open>now\<close> is the service's clock (\<^verbatim>\<open>s.now()\<close>), \<open>wall\<close> the clock the repository
  reads for \<^verbatim>\<open>updated_at\<close>. Shown: an update mask touches only the fields it names, and every
  operation keeps the job invariant, under any statement failure: an enabled job has a next run, a
  paused one has none, and the stored configuration satisfies the rules of \<^verbatim>\<open>Validate\<close>.
\<close>

section \<open>Update masks\<close>

fun snake_from :: "bool \<Rightarrow> string \<Rightarrow> string" where
  "snake_from first [] = []"
| "snake_from first (c # cs) =
     (if is_ascii_upper c
      then (if first then [ascii_lower c] else [CHR ''_'', ascii_lower c])
      else [c]) @ snake_from False cs"

definition snake :: "ext \<Rightarrow> string \<Rightarrow> string" where
  "snake E p = (if list_all ascii p then snake_from True p else unicode_snake E p)"

definition patch_nonzero :: "Job \<Rightarrow> Job \<Rightarrow> Job" where
  "patch_nonzero j p =
     (let r = j_Retry p; q = j_Retry j in
      j\<lparr>j_Description := (if j_Description p \<noteq> [] then j_Description p else j_Description j),
        j_Schedule := (if j_Schedule p \<noteq> [] then j_Schedule p else j_Schedule j),
        j_TimeZone := (if j_TimeZone p \<noteq> [] then j_TimeZone p else j_TimeZone j),
        j_URL := (if j_URL p \<noteq> [] then j_URL p else j_URL j),
        j_HTTPMethod := (if j_HTTPMethod p \<noteq> [] then j_HTTPMethod p else j_HTTPMethod j),
        j_Headers := (if j_Headers p \<noteq> None then j_Headers p else j_Headers j),
        j_Body := (if j_Body p \<noteq> None then j_Body p else j_Body j),
        j_AttemptDeadline := (if j_AttemptDeadline p \<noteq> 0 then j_AttemptDeadline p else j_AttemptDeadline j),
        j_Retry :=
          q\<lparr>RetryCount := (if RetryCount r \<noteq> 0 then RetryCount r else RetryCount q),
            MaxRetryDuration := (if MaxRetryDuration r \<noteq> 0 then MaxRetryDuration r else MaxRetryDuration q),
            MinBackoff := (if MinBackoff r \<noteq> 0 then MinBackoff r else MinBackoff q),
            MaxBackoff := (if MaxBackoff r \<noteq> 0 then MaxBackoff r else MaxBackoff q),
            MaxDoublings := (if MaxDoublings r \<noteq> 0 then MaxDoublings r else MaxDoublings q)\<rparr>\<rparr>)"

text \<open>One arm of the switch, by the snake-case path; \<^const>\<open>None\<close> is the default arm.\<close>

definition patch_path :: "Job \<Rightarrow> string \<Rightarrow> Job \<Rightarrow> Job option" where
  "patch_path p path j =
     (if path = ''description'' then Some (j\<lparr>j_Description := j_Description p\<rparr>)
      else if path = ''schedule'' then Some (j\<lparr>j_Schedule := j_Schedule p\<rparr>)
      else if path = ''time_zone'' then Some (j\<lparr>j_TimeZone := j_TimeZone p\<rparr>)
      else if path = ''attempt_deadline'' then Some (j\<lparr>j_AttemptDeadline := j_AttemptDeadline p\<rparr>)
      else if path = ''http_target''
      then Some (j\<lparr>j_URL := j_URL p, j_HTTPMethod := j_HTTPMethod p, j_Headers := j_Headers p, j_Body := j_Body p\<rparr>)
      else if path = ''http_target.uri'' then Some (j\<lparr>j_URL := j_URL p\<rparr>)
      else if path = ''http_target.http_method'' then Some (j\<lparr>j_HTTPMethod := j_HTTPMethod p\<rparr>)
      else if path = ''http_target.headers'' then Some (j\<lparr>j_Headers := j_Headers p\<rparr>)
      else if path = ''http_target.body'' then Some (j\<lparr>j_Body := j_Body p\<rparr>)
      else if path = ''retry_config'' then Some (j\<lparr>j_Retry := j_Retry p\<rparr>)
      else if path = ''retry_config.retry_count''
      then Some (j\<lparr>j_Retry := (j_Retry j)\<lparr>RetryCount := RetryCount (j_Retry p)\<rparr>\<rparr>)
      else if path = ''retry_config.max_retry_duration''
      then Some (j\<lparr>j_Retry := (j_Retry j)\<lparr>MaxRetryDuration := MaxRetryDuration (j_Retry p)\<rparr>\<rparr>)
      else if path = ''retry_config.min_backoff_duration''
      then Some (j\<lparr>j_Retry := (j_Retry j)\<lparr>MinBackoff := MinBackoff (j_Retry p)\<rparr>\<rparr>)
      else if path = ''retry_config.max_backoff_duration''
      then Some (j\<lparr>j_Retry := (j_Retry j)\<lparr>MaxBackoff := MaxBackoff (j_Retry p)\<rparr>\<rparr>)
      else if path = ''retry_config.max_doublings''
      then Some (j\<lparr>j_Retry := (j_Retry j)\<lparr>MaxDoublings := MaxDoublings (j_Retry p)\<rparr>\<rparr>)
      else None)"

fun patch_paths :: "ext \<Rightarrow> Job \<Rightarrow> string list \<Rightarrow> Job \<Rightarrow> error + Job" where
  "patch_paths E p [] j = Inr j"
| "patch_paths E p (raw # paths) j =
     (case patch_path p (snake E (trim_space raw)) j of
        None \<Rightarrow> Inl (ValidationError (''unsupported update mask path '' @ quote E raw))
      | Some j \<Rightarrow> patch_paths E p paths j)"

definition applyPatch :: "ext \<Rightarrow> Job \<Rightarrow> Job \<Rightarrow> string list \<Rightarrow> error + Job" where
  "applyPatch E j p paths = (if paths = [] then Inr (patch_nonzero j p) else patch_paths E p paths j)"

section \<open>Operations\<close>

definition svc_Get :: "ext \<Rightarrow> string \<Rightarrow> db \<Rightarrow> (error + Job) \<times> db" where
  "svc_Get E jid d =
     (case job_Get E jid d of
        (Inl e, d) \<Rightarrow> (Inl e, d)
      | (Inr None, d) \<Rightarrow> (Inl JobNotFound, d)
      | (Inr (Some j), d) \<Rightarrow> (Inr j, d))"

text \<open>The job \<^verbatim>\<open>Create\<close> stores, or its error, before the database is touched.\<close>

definition svc_prepare :: "ext \<Rightarrow> time \<Rightarrow> Job \<Rightarrow> error + Job" where
  "svc_prepare E now j =
     (let j = ApplyDefaults E j in
      case Validate E j of
        Some e \<Rightarrow> Inl e
      | None \<Rightarrow>
          if j_State j = JobEnabled
          then (case NextRun E (j_Schedule j) (j_TimeZone j) now of
                  Inl e \<Rightarrow> Inl e
                | Inr nxt \<Rightarrow> Inr (j\<lparr>j_NextRunAt := nxt\<rparr>))
          else Inr (j\<lparr>j_NextRunAt := zero_time\<rparr>))"

definition svc_Create :: "ext \<Rightarrow> time \<Rightarrow> time \<Rightarrow> Job \<Rightarrow> db \<Rightarrow> (error + Job option) \<times> db" where
  "svc_Create E now wall j d =
     (case svc_prepare E now j of
        Inl e \<Rightarrow> (Inl e, d)
      | Inr j \<Rightarrow>
          (case job_Create E wall j d of
             (Inl e, d) \<Rightarrow> (Inl e, d)
           | (Inr j, d) \<Rightarrow> job_Get E (j_ID j) d))"

definition svc_List :: "ext \<Rightarrow> string \<Rightarrow> string \<Rightarrow> db \<Rightarrow> (error + Job list) \<times> db" where
  "svc_List E project location d = job_List E project location d"

definition svc_Delete :: "string \<Rightarrow> db \<Rightarrow> (error + unit) \<times> db" where
  "svc_Delete jid d = job_Delete jid d"

definition svc_Pause :: "ext \<Rightarrow> time \<Rightarrow> string \<Rightarrow> db \<Rightarrow> (error + Job) \<times> db" where
  "svc_Pause E wall jid d =
     (case svc_Get E jid d of
        (Inl e, d) \<Rightarrow> (Inl e, d)
      | (Inr _, d) \<Rightarrow>
          (case job_SetState wall jid JobPaused zero_time d of
             (Inl e, d) \<Rightarrow> (Inl e, d)
           | (Inr _, d) \<Rightarrow> svc_Get E jid d))"

definition svc_Resume :: "ext \<Rightarrow> time \<Rightarrow> time \<Rightarrow> string \<Rightarrow> db \<Rightarrow> (error + Job) \<times> db" where
  "svc_Resume E now wall jid d =
     (case svc_Get E jid d of
        (Inl e, d) \<Rightarrow> (Inl e, d)
      | (Inr j, d) \<Rightarrow>
          (case NextRun E (j_Schedule j) (j_TimeZone j) now of
             Inl e \<Rightarrow> (Inl e, d)
           | Inr nxt \<Rightarrow>
               (case job_SetState wall jid JobEnabled nxt d of
                  (Inl e, d) \<Rightarrow> (Inl e, d)
                | (Inr _, d) \<Rightarrow> svc_Get E jid d)))"

text \<open>\<^verbatim>\<open>Run\<close> returns the job; the second component is the call of \<^verbatim>\<open>Fire\<close> it starts.\<close>

definition svc_Run :: "ext \<Rightarrow> time \<Rightarrow> string \<Rightarrow> db \<Rightarrow> (error + Job) \<times> (Job \<times> time) option \<times> db" where
  "svc_Run E now jid d =
     (case svc_Get E jid d of
        (Inl e, d) \<Rightarrow> (Inl e, None, d)
      | (Inr j, d) \<Rightarrow> (Inr j, Some (j, now), d))"

definition svc_updated :: "ext \<Rightarrow> time \<Rightarrow> Job \<Rightarrow> string list \<Rightarrow> Job \<Rightarrow> error + Job" where
  "svc_updated E now patch paths j =
     (case applyPatch E j patch paths of
        Inl e \<Rightarrow> Inl e
      | Inr j \<Rightarrow>
     (let j = ApplyDefaults E j in
      case Validate E j of
        Some e \<Rightarrow> Inl e
      | None \<Rightarrow>
          if j_State j = JobEnabled
          then (case NextRun E (j_Schedule j) (j_TimeZone j) now of
                  Inl e \<Rightarrow> Inl e
                | Inr nxt \<Rightarrow> Inr (j\<lparr>j_NextRunAt := nxt\<rparr>))
          else Inr j))"

definition svc_Update :: "ext \<Rightarrow> time \<Rightarrow> time \<Rightarrow> string \<Rightarrow> Job \<Rightarrow> string list \<Rightarrow> db \<Rightarrow> (error + Job) \<times> db" where
  "svc_Update E now wall jid patch paths d =
     (case svc_Get E jid d of
        (Inl e, d) \<Rightarrow> (Inl e, d)
      | (Inr j, d) \<Rightarrow>
          (case svc_updated E now patch paths j of
             Inl e \<Rightarrow> (Inl e, d)
           | Inr j \<Rightarrow>
               (case job_Update E wall j d of
                  (Inl e, d) \<Rightarrow> (Inl e, d)
                | (Inr _, d) \<Rightarrow> svc_Get E jid d)))"

section \<open>The job invariant\<close>

text \<open>
  The rules of \<^verbatim>\<open>Validate\<close>, stated of a stored row and apart from \<^const>\<open>Validate\<close> itself: a bare
  name, a description of at most 500 bytes, a schedule that parses in its time zone, an absolute
  http or https URL, a supported method, a deadline between 15 s and 30 minutes, and a retry
  configuration without negative values whose minimum does not exceed its maximum. With them the
  resource name belongs to its parts, and a job has a next run exactly when it is ENABLED.
\<close>

definition parses :: "ext \<Rightarrow> string \<Rightarrow> string \<Rightarrow> bool" where
  "parses E spec tz = (case ParseSchedule E spec tz of Inl _ \<Rightarrow> False | Inr _ \<Rightarrow> True)"

definition absolute_http :: "ext \<Rightarrow> string \<Rightarrow> bool" where
  "absolute_http E u = (case url_parse E u of None \<Rightarrow> False
     | Some (scheme, host) \<Rightarrow> (scheme = ''http'' \<or> scheme = ''https'') \<and> host \<noteq> [])"

definition job_row_ok :: "ext \<Rightarrow> job_row \<Rightarrow> bool" where
  "job_row_ok E r \<longleftrightarrow>
     jr_id r = job_ResourceName (jr_project r) (jr_location r) (jr_name r)
   \<and> match_name 500 (jr_name r) \<and> length (jr_description r) \<le> 500
   \<and> parses E (jr_schedule r) (jr_time_zone r) \<and> absolute_http E (jr_url r)
   \<and> jr_http_method r \<in> set validMethods
   \<and> (jr_state r = JobEnabled \<and> 0 < jr_next_run_at r \<or> jr_state r = JobPaused \<and> jr_next_run_at r = 0)
   \<and> 15000 \<le> jr_attempt_deadline_ms r \<and> jr_attempt_deadline_ms r \<le> 1800000
   \<and> 0 \<le> jr_retry_count r \<and> 0 \<le> jr_max_doublings r \<and> 0 \<le> jr_max_retry_duration_ms r
   \<and> 0 \<le> jr_min_backoff_ms r \<and> jr_min_backoff_ms r \<le> jr_max_backoff_ms r"

definition jobs_ok :: "ext \<Rightarrow> db \<Rightarrow> bool" where
  "jobs_ok E d \<longleftrightarrow> list_all (job_row_ok E) (job_tbl d)"

text \<open>The part of the invariant that a validated configuration gives.\<close>

definition config_ok :: "ext \<Rightarrow> Job \<Rightarrow> bool" where
  "config_ok E j \<longleftrightarrow> match_name 500 (j_Name j) \<and> length (j_Description j) \<le> 500
   \<and> parses E (j_Schedule j) (j_TimeZone j) \<and> absolute_http E (j_URL j)
   \<and> j_HTTPMethod j \<in> set validMethods
   \<and> MinAttemptDeadline \<le> j_AttemptDeadline j \<and> j_AttemptDeadline j \<le> MaxAttemptDeadline
   \<and> 0 \<le> RetryCount (j_Retry j) \<and> 0 \<le> MaxDoublings (j_Retry j) \<and> 0 \<le> MaxRetryDuration (j_Retry j)
   \<and> 0 \<le> MinBackoff (j_Retry j) \<and> MinBackoff (j_Retry j) \<le> MaxBackoff (j_Retry j)
   \<and> (j_State j = JobEnabled \<or> j_State j = JobPaused)"

lemma Validate_config: "Validate E j = None \<Longrightarrow> config_ok E j"
  by (cases "url_parse E (j_URL j)")
    (auto simp: Validate_def config_ok_def parses_def absolute_http_def job_http_url_def Let_def not_less
      split: if_splits sum.splits)

lemma milliseconds_mono: "0 \<le> a \<Longrightarrow> a \<le> b \<Longrightarrow> milliseconds a \<le> milliseconds b"
  by (simp add: milliseconds_def zdiv_mono1)

lemma milliseconds_nonneg: "0 \<le> a \<Longrightarrow> 0 \<le> milliseconds a"
  by (simp add: milliseconds_def pos_imp_zdiv_nonneg_iff)

lemma config_ok_row:
  assumes "config_ok E j"
  shows "15000 \<le> milliseconds (j_AttemptDeadline j)" "milliseconds (j_AttemptDeadline j) \<le> 1800000"
    "0 \<le> milliseconds (MinBackoff (j_Retry j))"
    "milliseconds (MinBackoff (j_Retry j)) \<le> milliseconds (MaxBackoff (j_Retry j))"
    "0 \<le> milliseconds (MaxRetryDuration (j_Retry j))"
proof -
  have "milliseconds MinAttemptDeadline = 15000" "milliseconds MaxAttemptDeadline = 1800000"
    by (simp_all add: milliseconds_def MinAttemptDeadline_def MaxAttemptDeadline_def)
  moreover have "0 \<le> MinAttemptDeadline" by (simp add: MinAttemptDeadline_def)
  ultimately show "15000 \<le> milliseconds (j_AttemptDeadline j)" "milliseconds (j_AttemptDeadline j) \<le> 1800000"
    using assms milliseconds_mono [of MinAttemptDeadline "j_AttemptDeadline j"]
      milliseconds_mono [of "j_AttemptDeadline j" MaxAttemptDeadline] by (auto simp: config_ok_def)
  show "0 \<le> milliseconds (MinBackoff (j_Retry j))"
    "milliseconds (MinBackoff (j_Retry j)) \<le> milliseconds (MaxBackoff (j_Retry j))"
    "0 \<le> milliseconds (MaxRetryDuration (j_Retry j))"
    using assms by (auto simp: config_ok_def intro: milliseconds_nonneg milliseconds_mono)
qed

text \<open>The run time that goes with the state.\<close>

definition run_ok :: "Job \<Rightarrow> bool" where
  "run_ok j \<longleftrightarrow> j_State j = JobEnabled \<and> 0 < ms (j_NextRunAt j) \<or> j_State j = JobPaused \<and> ms (j_NextRunAt j) = 0"

lemma NextRun_ms_pos:
  assumes "cron_later E" "0 \<le> now" "NextRun E spec tz now = Inr nxt"
  shows "0 < ms nxt"
proof -
  have "0 \<le> unix_milli now" using assms(2) by (simp add: unix_milli_def pos_imp_zdiv_nonneg_iff)
  with NextRun_milli [OF assms(1,3)] NextRun_later(3) [OF assms(1,3)] show ?thesis by (simp add: ms_def)
qed

lemma ms_zero [simp]: "ms zero_time = 0"
  by (simp add: ms_def is_zero_def)

lemma svc_prepare_ok:
  assumes "cron_later E" "0 \<le> now" "svc_prepare E now j = Inr j'"
  shows "config_ok E j'" "run_ok j'" "j_Project j' = j_Project j" "j_Location j' = j_Location j" "j_Name j' = j_Name j"
proof -
  let ?j = "ApplyDefaults E j"
  have v: "Validate E ?j = None" using assms(3) by (auto simp: svc_prepare_def Let_def split: option.splits)
  have j': "\<exists>t. j' = ?j\<lparr>j_NextRunAt := t\<rparr> \<and> (if j_State ?j = JobEnabled then NextRun E (j_Schedule ?j) (j_TimeZone ?j) now = Inr t else t = zero_time)"
    using assms(3) v by (auto simp: svc_prepare_def Let_def split: if_splits sum.splits)
  then obtain t where t: "j' = ?j\<lparr>j_NextRunAt := t\<rparr>"
    "if j_State ?j = JobEnabled then NextRun E (j_Schedule ?j) (j_TimeZone ?j) now = Inr t else t = zero_time"
    by blast
  from Validate_config [OF v] show c: "config_ok E j'" by (simp add: t config_ok_def)
  show "run_ok j'"
    using c t(2) NextRun_ms_pos [OF assms(1,2)] by (auto simp: run_ok_def config_ok_def t(1) split: if_splits)
  show "j_Project j' = j_Project j" "j_Location j' = j_Location j" "j_Name j' = j_Name j"
    by (simp_all add: t(1) ApplyDefaults_def)
qed

lemma job_insert_row_ok:
  assumes "config_ok E j" "run_ok j"
  shows "job_row_ok E (job_insert_row E (job_stamped now j))"
  using assms config_ok_row [OF assms(1)]
  by (simp add: job_row_ok_def job_insert_row_def job_stamped_def config_ok_def run_ok_def)

lemma job_update_row_ok:
  assumes "config_ok E j" "run_ok j" "job_row_ok E r"
  shows "job_row_ok E (job_update_row E (j\<lparr>j_UpdatedAt := now\<rparr>) r)"
  using assms config_ok_row [OF assms(1)]
  by (simp add: job_row_ok_def job_update_row_def config_ok_def run_ok_def)

text \<open>What a patch can and cannot change.\<close>

definition same_identity :: "Job \<Rightarrow> Job \<Rightarrow> bool" where
  "same_identity j k \<longleftrightarrow> j_ID k = j_ID j \<and> j_Project k = j_Project j \<and> j_Location k = j_Location j
     \<and> j_Name k = j_Name j \<and> j_State k = j_State j \<and> j_NextRunAt k = j_NextRunAt j
     \<and> j_LastAttemptAt k = j_LastAttemptAt j \<and> j_LastStatus k = j_LastStatus j
     \<and> j_LastStatusCode k = j_LastStatusCode j \<and> j_LastError k = j_LastError j
     \<and> j_CreatedAt k = j_CreatedAt j \<and> j_UpdatedAt k = j_UpdatedAt j"

lemma same_identity_trans: "same_identity j k \<Longrightarrow> same_identity k l \<Longrightarrow> same_identity j l"
  by (simp add: same_identity_def)

lemma if_SomeE: "(if c then Some a else x) = Some k \<Longrightarrow> (k = a \<Longrightarrow> P) \<Longrightarrow> (x = Some k \<Longrightarrow> P) \<Longrightarrow> P"
  by (cases c) simp_all

lemma patch_path_identity: "patch_path p path j = Some k \<Longrightarrow> same_identity j k"
  unfolding patch_path_def by (elim if_SomeE) (simp_all add: same_identity_def)

lemma patch_paths_identity: "patch_paths E p paths j = Inr k \<Longrightarrow> same_identity j k"
proof (induction paths arbitrary: j)
  case Nil
  then show ?case by (simp add: same_identity_def)
next
  case (Cons raw paths)
  then obtain j1 where "patch_path p (snake E (trim_space raw)) j = Some j1" "patch_paths E p paths j1 = Inr k"
    by (auto split: option.splits)
  then show ?case using Cons.IH patch_path_identity same_identity_trans by blast
qed

lemma patch_nonzero_identity: "same_identity j (patch_nonzero j p)"
  by (simp add: patch_nonzero_def Let_def same_identity_def)

lemma applyPatch_identity: "applyPatch E j p paths = Inr k \<Longrightarrow> same_identity j k"
  using patch_nonzero_identity [of j p] patch_paths_identity [of E p paths j k]
  by (cases "paths = []") (simp_all add: applyPatch_def)

lemma svc_updated_ok:
  assumes "cron_later E" "0 \<le> now" "svc_updated E now p paths j = Inr j'" and "run_ok j"
  shows "config_ok E j'" "run_ok j'" "j_ID j' = j_ID j"
proof -
  obtain k where k: "applyPatch E j p paths = Inr k"
    using assms(3) by (auto simp: svc_updated_def split: sum.splits)
  let ?j = "ApplyDefaults E k"
  have id: "same_identity j k" by (rule applyPatch_identity [OF k])
  have st: "j_State ?j = j_State j" "j_NextRunAt ?j = j_NextRunAt j" "j_ID ?j = j_ID j"
    using id assms(4) by (auto simp: same_identity_def ApplyDefaults_def run_ok_def sched_consts)
  have v: "Validate E ?j = None" using assms(3) k by (auto simp: svc_updated_def Let_def split: option.splits)
  have u: "svc_updated E now p paths j =
      (if j_State ?j = JobEnabled
       then (case NextRun E (j_Schedule ?j) (j_TimeZone ?j) now of
               Inl e \<Rightarrow> Inl e | Inr nxt \<Rightarrow> Inr (?j\<lparr>j_NextRunAt := nxt\<rparr>))
       else Inr ?j)"
    by (simp add: svc_updated_def k v Let_def)
  have "config_ok E j' \<and> run_ok j' \<and> j_ID j' = j_ID j"
  proof (cases "j_State ?j = JobEnabled")
    case True
    with u assms(3) obtain t where t: "NextRun E (j_Schedule ?j) (j_TimeZone ?j) now = Inr t"
      "j' = ?j\<lparr>j_NextRunAt := t\<rparr>" by (auto split: sum.splits)
    from NextRun_ms_pos [OF assms(1,2) t(1)] Validate_config [OF v] True st(3) show ?thesis
      by (simp add: t(2) run_ok_def config_ok_def)
  next
    case False
    with u assms(3) have "j' = ?j" by simp
    with Validate_config [OF v] st assms(4) show ?thesis by (simp add: run_ok_def)
  qed
  then show "config_ok E j'" "run_ok j'" "j_ID j' = j_ID j" by simp_all
qed

section \<open>Every operation is safe\<close>

text \<open>
  A step of the scheduler side is safe when it keeps unique keys and the job invariant and leaves
  the other tables alone. Safe steps compose, so an operation is safe when its statements are.
\<close>

definition job_safe :: "ext \<Rightarrow> db \<Rightarrow> db \<Rightarrow> bool" where
  "job_safe E d d' \<longleftrightarrow> (wf_db d \<longrightarrow> wf_db d') \<and> (jobs_ok E d \<longrightarrow> jobs_ok E d')
     \<and> queue_tbl d' = queue_tbl d \<and> task_tbl d' = task_tbl d"

lemma job_safe_refl: "tables d' = tables d \<Longrightarrow> job_safe E d d'"
  by (auto simp: job_safe_def tables_eq_iff wf_db_def jobs_ok_def)

lemma job_safe_trans: "job_safe E a b \<Longrightarrow> job_safe E b c \<Longrightarrow> job_safe E a c"
  by (auto simp: job_safe_def)

lemma job_safe_rows:
  assumes "job_tbl d' = rows_update P f (job_tbl d)" "queue_tbl d' = queue_tbl d" "task_tbl d' = task_tbl d"
    and "\<And>r. jr_id (f r) = jr_id r" and "\<And>r. P r \<Longrightarrow> job_row_ok E r \<Longrightarrow> job_row_ok E (f r)"
  shows "job_safe E d d'"
proof -
  have "map jr_id (job_tbl d') = map jr_id (job_tbl d)"
    unfolding assms(1) by (rule map_rows_update) (rule assms(4))
  moreover have "list_all (job_row_ok E) (job_tbl d) \<Longrightarrow> list_all (job_row_ok E) (job_tbl d')"
    unfolding assms(1) using assms(5) by (auto simp: list_all_iff rows_update_def)
  ultimately show ?thesis using assms(2,3) by (auto simp: job_safe_def wf_db_def jobs_ok_def)
qed

lemma job_safe_affected:
  assumes "affected (update_jobs P f d) = (r, d')"
    and "\<And>r. jr_id (f r) = jr_id r" and "\<And>r. P r \<Longrightarrow> job_row_ok E r \<Longrightarrow> job_row_ok E (f r)"
  shows "job_safe E d d'"
  using affected_update [OF assms(1)] assms(2,3)
  by (cases r) (auto intro: job_safe_refl job_safe_rows)

lemma svc_Get_effect:
  assumes "svc_Get E jid d = (r, d')"
  shows "tables d' = tables d
    \<and> (case r of Inl _ \<Rightarrow> True | Inr j \<Rightarrow> \<exists>row. find_job jid d = Some row \<and> j = scanJob E row)"
proof -
  obtain x d1 where g: "job_Get E jid d = (x, d1)" by (cases "job_Get E jid d")
  from job_Get_effect [OF this] assms g show ?thesis
    by (cases x; cases "find_job jid d") (auto simp: svc_Get_def job_lookup_def)
qed

lemma job_SetState_safe:
  assumes "job_SetState wall jid st t d = (r, d')"
    and "st = JobEnabled \<and> 0 < ms t \<or> st = JobPaused \<and> ms t = 0"
  shows "job_safe E d d'"
  using assms(1) unfolding job_SetState_def
  by (rule job_safe_affected) (use assms(2) in \<open>auto simp: job_row_ok_def\<close>)

lemma job_Update_safe:
  assumes "job_Update E wall j d = (r, d')" "config_ok E j" "run_ok j"
  shows "job_safe E d d'"
  using assms(1) unfolding job_Update_def
  by (rule job_safe_affected) (use job_update_row_ok [OF assms(2,3)] in auto)

lemma job_Create_safe:
  assumes "job_Create E wall j d = (r, d')" "config_ok E j" "run_ok j"
  shows "job_safe E d d'"
proof (cases r)
  case (Inl e)
  with job_Create_effect [OF assms(1)] show ?thesis by (simp add: job_safe_refl)
next
  case (Inr j')
  with job_Create_effect [OF assms(1)] job_insert_row_ok [OF assms(2,3), of wall] show ?thesis
    by (auto simp: job_safe_def wf_db_def jobs_ok_def find_job_def find_key_None [of jr_id])
qed

lemma svc_Create_safe:
  assumes "cron_later E" "0 \<le> now" "svc_Create E now wall j d = (r, d')"
  shows "job_safe E d d'"
proof (cases "svc_prepare E now j")
  case (Inl e)
  with assms(3) show ?thesis by (simp add: svc_Create_def job_safe_refl)
next
  case (Inr j1)
  obtain x d1 where c: "job_Create E wall j1 d = (x, d1)" by (cases "job_Create E wall j1 d")
  have s: "job_safe E d d1" by (rule job_Create_safe [OF c svc_prepare_ok(1,2) [OF assms(1,2) Inr]])
  show ?thesis
  proof (cases x)
    case (Inl e)
    with assms(3) Inr c s show ?thesis by (auto simp: svc_Create_def)
  next
    case (Inr j2)
    with assms(3) \<open>svc_prepare E now j = Inr j1\<close> c have "job_Get E (j_ID j2) d1 = (r, d')"
      by (simp add: svc_Create_def)
    with s show ?thesis using job_Get_effect job_safe_refl job_safe_trans by blast
  qed
qed

lemma svc_Pause_safe:
  assumes "svc_Pause E wall jid d = (r, d')"
  shows "job_safe E d d'"
proof -
  obtain x d1 where g: "svc_Get E jid d = (x, d1)" by (cases "svc_Get E jid d")
  obtain y d2 where s: "job_SetState wall jid JobPaused zero_time d1 = (y, d2)"
    by (cases "job_SetState wall jid JobPaused zero_time d1")
  have 1: "job_safe E d d1" using svc_Get_effect [OF g] by (simp add: job_safe_refl)
  have 2: "job_safe E d1 d2" by (rule job_SetState_safe [OF s]) simp
  have 3: "job_safe E d2 (snd (svc_Get E jid d2))"
    using svc_Get_effect [OF prod.collapse [symmetric], of E jid d2] by (simp add: job_safe_refl)
  show ?thesis
    using assms g s 1 job_safe_trans [OF 1 2] job_safe_trans [OF job_safe_trans [OF 1 2] 3]
    by (cases x; cases y) (auto simp: svc_Pause_def)
qed

lemma svc_Resume_safe:
  assumes "cron_later E" "0 \<le> now" "svc_Resume E now wall jid d = (r, d')"
  shows "job_safe E d d'"
proof -
  obtain x d1 where g: "svc_Get E jid d = (x, d1)" by (cases "svc_Get E jid d")
  have 1: "job_safe E d d1" using svc_Get_effect [OF g] by (simp add: job_safe_refl)
  show ?thesis
  proof (cases x)
    case (Inl e)
    with assms(3) g 1 show ?thesis by (auto simp: svc_Resume_def)
  next
    case (Inr j)
    show ?thesis
    proof (cases "NextRun E (j_Schedule j) (j_TimeZone j) now")
      case (Inl e)
      with Inr assms(3) g 1 show ?thesis by (auto simp: svc_Resume_def)
    next
      case (Inr t)
      obtain y d2 where s: "job_SetState wall jid JobEnabled t d1 = (y, d2)"
        by (cases "job_SetState wall jid JobEnabled t d1")
      have 2: "job_safe E d1 d2"
        by (rule job_SetState_safe [OF s]) (use NextRun_ms_pos [OF assms(1,2) Inr] in simp)
      have 3: "job_safe E d2 (snd (svc_Get E jid d2))"
        using svc_Get_effect [OF prod.collapse [symmetric], of E jid d2] by (simp add: job_safe_refl)
      show ?thesis
        using assms(3) g s Inr \<open>x = Inr j\<close> job_safe_trans [OF 1 2] job_safe_trans [OF job_safe_trans [OF 1 2] 3]
        by (cases y) (auto simp: svc_Resume_def)
    qed
  qed
qed

lemma run_ok_scanJob: "job_row_ok E row \<Longrightarrow> run_ok (scanJob E row)"
  by (auto simp: job_row_ok_def run_ok_def scanJob_def fromMs_def ms_def unix_milli_def is_zero_def zero_time_def)

lemma svc_Update_safe:
  assumes "cron_later E" "0 \<le> now" "svc_Update E now wall jid p paths d = (r, d')" "jobs_ok E d"
  shows "job_safe E d d'"
proof -
  obtain x d1 where g: "svc_Get E jid d = (x, d1)" by (cases "svc_Get E jid d")
  have 1: "job_safe E d d1" using svc_Get_effect [OF g] by (simp add: job_safe_refl)
  show ?thesis
  proof (cases x)
    case (Inl e)
    with assms(3) g 1 show ?thesis by (auto simp: svc_Update_def)
  next
    case (Inr j)
    with svc_Get_effect [OF g] obtain row where row: "find_job jid d = Some row" "j = scanJob E row" by auto
    then have "job_row_ok E row"
      using assms(4) find_key_Some [of jr_id jid "job_tbl d" row] by (auto simp: find_job_def jobs_ok_def list_all_iff)
    then have ok: "run_ok j" by (simp add: row(2) run_ok_scanJob)
    show ?thesis
    proof (cases "svc_updated E now p paths j")
      case (Inl e)
      with Inr assms(3) g 1 show ?thesis by (auto simp: svc_Update_def)
    next
      case (Inr j2)
      obtain y d2 where s: "job_Update E wall j2 d1 = (y, d2)" by (cases "job_Update E wall j2 d1")
      have 2: "job_safe E d1 d2"
        by (rule job_Update_safe [OF s svc_updated_ok(1,2) [OF assms(1,2) Inr ok]])
      have 3: "job_safe E d2 (snd (svc_Get E jid d2))"
        using svc_Get_effect [OF prod.collapse [symmetric], of E jid d2] by (simp add: job_safe_refl)
      show ?thesis
        using assms(3) g s Inr \<open>x = Inr j\<close> job_safe_trans [OF 1 2] job_safe_trans [OF job_safe_trans [OF 1 2] 3]
        by (cases y) (auto simp: svc_Update_def)
    qed
  qed
qed

lemma svc_Delete_safe: "svc_Delete jid d = (r, d') \<Longrightarrow> job_safe E d d'"
  using job_Delete_effect [of jid d r d']
  by (cases r) (auto simp: svc_Delete_def job_safe_def wf_db_def jobs_ok_def tables_eq_iff
      intro: distinct_rows_delete list_all_rows_delete)

lemma job_RecordAttempt_safe:
  assumes "job_RecordAttempt jid t st c msg d = (r, d')"
  shows "job_safe E d d'"
  using jobs_updated [OF assms [unfolded job_RecordAttempt_def]]
  by (cases r) (simp add: job_safe_refl, auto simp: job_row_ok_def elim!: job_safe_rows)

lemma job_Claim_safe:
  assumes "job_Claim jid old new d = (r, d')" "0 < ms new"
  shows "job_safe E d d'"
  using jobs_updated [OF assms(1) [unfolded job_Claim_def]] assms(2)
  by (cases r) (simp add: job_safe_refl, auto simp: job_row_ok_def sched_consts elim!: job_safe_rows)

end
