(* ===== verification/Auth_Config.thy ===== *)
theory Auth_Config
  imports Externals
begin

text \<open>
  Package config, package auth, and the request header map of net/http they and the dispatchers
  use. \<open>env\<close> is \<^verbatim>\<open>os.Getenv\<close>: an unset variable reads as the empty string. Shown: the settings
  never fall outside what their variables or defaults say, the minted token is a three-part JWT
  whose signature is the code of its first two parts, and a request's own \<^verbatim>\<open>Authorization\<close> header
  is never overwritten.
\<close>

section \<open>config.go\<close>

type_synonym environment = "string \<Rightarrow> string"

record Config =
  Port :: string
  GRPCPort :: string
  DatabasePath :: string
  AutoCreateQueues :: bool
  DefaultProject :: string
  DefaultLocation :: string
  WorkerConcurrency :: int
  WorkerPollIntervalMs :: int
  InitialBackoffSeconds :: int
  MaxBackoffSeconds :: int
  DefaultMaxRetries :: int
  TaskDispatchTimeoutSecs :: int
  SchedulerEnabled :: bool
  SchedulerPollIntervalMs :: int

definition getEnv :: "environment \<Rightarrow> string \<Rightarrow> string \<Rightarrow> string" where
  "getEnv env key defaultVal = (let v = env key in if v \<noteq> [] then v else defaultVal)"

text \<open>\<^verbatim>\<open>strconv.ParseBool\<close> with its error ignored: anything but the six spellings of true is false.\<close>

definition parse_bool :: "string \<Rightarrow> bool" where
  "parse_bool v \<longleftrightarrow> v \<in> {''1'', ''t'', ''T'', ''TRUE'', ''true'', ''True''}"

definition getEnvBool :: "environment \<Rightarrow> string \<Rightarrow> bool \<Rightarrow> bool" where
  "getEnvBool env key defaultVal = (let v = env key in if v \<noteq> [] then parse_bool v else defaultVal)"

definition getEnvInt :: "environment \<Rightarrow> string \<Rightarrow> int \<Rightarrow> int" where
  "getEnvInt env key defaultVal =
     (let v = env key in
      if v \<noteq> [] then (case atoi v of Some i \<Rightarrow> i | None \<Rightarrow> defaultVal) else defaultVal)"

definition Load :: "environment \<Rightarrow> Config" where
  "Load env =
     \<lparr>Port = getEnv env ''PORT'' ''8085'',
      GRPCPort = getEnv env ''GRPC_PORT'' ''9090'',
      DatabasePath = getEnv env ''DATABASE_PATH'' ''./tasks.db'',
      AutoCreateQueues = getEnvBool env ''AUTO_CREATE_QUEUES'' True,
      DefaultProject = getEnv env ''DEFAULT_PROJECT'' ''local-project'',
      DefaultLocation = getEnv env ''DEFAULT_LOCATION'' ''us-central1'',
      WorkerConcurrency = getEnvInt env ''WORKER_CONCURRENCY'' 10,
      WorkerPollIntervalMs = getEnvInt env ''WORKER_POLL_INTERVAL_MS'' 500,
      InitialBackoffSeconds = getEnvInt env ''INITIAL_BACKOFF_SECONDS'' 1,
      MaxBackoffSeconds = getEnvInt env ''MAX_BACKOFF_SECONDS'' 60,
      DefaultMaxRetries = getEnvInt env ''DEFAULT_MAX_RETRIES'' 5,
      TaskDispatchTimeoutSecs = getEnvInt env ''TASK_DISPATCH_TIMEOUT_SECS'' 30,
      SchedulerEnabled = getEnvBool env ''SCHEDULER_ENABLED'' True,
      SchedulerPollIntervalMs = getEnvInt env ''SCHEDULER_POLL_INTERVAL_MS'' 1000\<rparr>"

lemma getEnvInt_itoa: "in_i64 n \<Longrightarrow> env key = itoa n \<Longrightarrow> getEnvInt env key dv = n"
  using atoi_itoa [of n] by (auto simp: getEnvInt_def Let_def itoa_def split: if_splits)

lemma getEnvInt_invalid: "atoi (env key) = None \<Longrightarrow> getEnvInt env key dv = dv"
  by (simp add: getEnvInt_def Let_def)

section \<open>Request headers\<close>

text \<open>
  \<^verbatim>\<open>http.Header\<close> with the single values \<^verbatim>\<open>Set\<close> leaves, under canonical keys: a key of valid token
  characters has the first letter and every letter after a hyphen upper case and the rest lower
  case; any other key is used as it is.
\<close>

type_synonym header_map = "string \<rightharpoonup> string"

definition token_char :: "char \<Rightarrow> bool" where
  "token_char c \<longleftrightarrow>
     (let n = of_char c :: nat in
      48 \<le> n \<and> n \<le> 57 \<or> 65 \<le> n \<and> n \<le> 90 \<or> 97 \<le> n \<and> n \<le> 122
      \<or> n \<in> {33, 35, 36, 37, 38, 39, 42, 43, 45, 46, 94, 95, 96, 124, 126})"

fun canonical_from :: "bool \<Rightarrow> string \<Rightarrow> string" where
  "canonical_from up [] = []"
| "canonical_from up (c # cs) =
     (if up then ascii_upper c else ascii_lower c) # canonical_from (c = CHR ''-'') cs"

definition canonical_key :: "string \<Rightarrow> string" where
  "canonical_key k = (if list_all token_char k then canonical_from True k else k)"

definition header_set :: "string \<Rightarrow> string \<Rightarrow> header_map \<Rightarrow> header_map" where
  "header_set k v h = h(canonical_key k \<mapsto> v)"

definition header_get :: "header_map \<Rightarrow> string \<Rightarrow> string" where
  "header_get h k = (case h (canonical_key k) of None \<Rightarrow> [] | Some v \<Rightarrow> v)"

definition set_all :: "headers option \<Rightarrow> header_map \<Rightarrow> header_map" where
  "set_all hs h = fold (\<lambda>(k, v). header_set k v) (case hs of None \<Rightarrow> [] | Some l \<Rightarrow> l) h"

record http_request =
  rq_method :: string
  rq_url :: string
  rq_body :: string
  rq_headers :: header_map

text \<open>What comes of building and sending a request.\<close>

datatype http_outcome =
    ReqInvalid string
  | DoFailed (deadline_exceeded: bool) (url_error: string) (inner_error: string)
  | Response (status_code: int) (status_line: string) (response_body: string)

lemma header_get_set: "header_get (header_set k v h) k' = (if canonical_key k' = canonical_key k then v else header_get h k')"
  by (simp add: header_get_def header_set_def)

section \<open>token.go\<close>

definition b64_char :: "nat \<Rightarrow> char" where
  "b64_char n =
     (if n < 26 then char_of (65 + n) else if n < 52 then char_of (97 + (n - 26))
      else if n < 62 then char_of (48 + (n - 52)) else if n = 62 then CHR ''-'' else CHR ''_'')"

text \<open>\<^verbatim>\<open>base64.RawURLEncoding\<close>: three bytes to four characters, no padding.\<close>

fun b64_raw :: "nat list \<Rightarrow> string" where
  "b64_raw [] = []"
| "b64_raw [a] = [b64_char (a div 4), b64_char (a mod 4 * 16)]"
| "b64_raw [a, b] = [b64_char (a div 4), b64_char (a mod 4 * 16 + b div 16), b64_char (b mod 16 * 4)]"
| "b64_raw (a # b # c # r) =
     [b64_char (a div 4), b64_char (a mod 4 * 16 + b div 16), b64_char (b mod 16 * 4 + c div 64),
      b64_char (c mod 64)] @ b64_raw r"

definition b64 :: "string \<Rightarrow> string" where
  "b64 s = b64_raw (map of_char s)"

definition tokenTTL :: duration where "tokenTTL = 3600 * Second"

text \<open>\<^verbatim>\<open>json.Marshal\<close> of a map writes its keys in order.\<close>

definition dq :: string where "dq = [CHR 0x22]"

definition jwt_header :: string where
  "jwt_header = ''{'' @ dq @ ''alg'' @ dq @ '':'' @ dq @ ''HS256'' @ dq @ '','' @ dq @ ''typ'' @ dq @ '':'' @ dq @ ''JWT'' @ dq @ ''}''"

definition jwt_payload :: "ext \<Rightarrow> string \<Rightarrow> string \<Rightarrow> time \<Rightarrow> string" where
  "jwt_payload E aud email now =
     ''{'' @ dq @ ''aud'' @ dq @ '':'' @ json_string E aud @ '','' @ dq @ ''email'' @ dq @ '':'' @ json_string E email
     @ '','' @ dq @ ''exp'' @ dq @ '':'' @ itoa (unix_sec (now + tokenTTL)) @ '','' @ dq @ ''iat'' @ dq @ '':'' @ itoa (unix_sec now)
     @ '','' @ dq @ ''role'' @ dq @ '':'' @ dq @ ''service_role'' @ dq @ '','' @ dq @ ''sub'' @ dq @ '':'' @ dq @ ''service-account'' @ dq @ ''}''"

definition mint :: "ext \<Rightarrow> environment \<Rightarrow> string \<Rightarrow> time \<Rightarrow> string" where
  "mint E env secret now =
     (let email = (let e = env ''SERVICE_ACCOUNT_EMAIL'' in if e = [] then ''local-dev@example.com'' else e);
          aud = (let a = env ''SERVICE_ACCOUNT_AUDIENCE'' in if a = [] then ''authenticated'' else a);
          signing = b64 jwt_header @ ''.'' @ b64 (jwt_payload E aud email now)
      in signing @ ''.'' @ b64 (hmac_sha256 E secret signing))"

definition Bearer :: "ext \<Rightarrow> environment \<Rightarrow> time \<Rightarrow> string" where
  "Bearer E env now =
     (let t = env ''SERVICE_ACCOUNT_TOKEN'' in
      if t \<noteq> [] then t
      else let secret = env ''SERVICE_ACCOUNT_JWT_SECRET'' in
      if secret \<noteq> [] then mint E env secret now else [])"

definition auth_Apply :: "ext \<Rightarrow> environment \<Rightarrow> time \<Rightarrow> header_map \<Rightarrow> header_map" where
  "auth_Apply E env now h =
     (if header_get h ''Authorization'' \<noteq> [] then h
      else let t = Bearer E env now in
      if t \<noteq> [] then header_set ''Authorization'' (''Bearer '' @ t) h else h)"

lemma b64_char_no_dot: "b64_char n \<noteq> CHR ''.''"
proof (cases "n < 62")
  case True
  have "of_char (b64_char n) \<noteq> (46 :: nat)"
    using True by (auto simp: b64_char_def)
  then show ?thesis by auto
qed (auto simp: b64_char_def)

lemma b64_no_dot: "CHR ''.'' \<notin> set (b64 s)"
proof -
  have "CHR ''.'' \<notin> set (b64_raw ns)" for ns
    by (induction ns rule: b64_raw.induct) (auto simp: b64_char_no_dot [symmetric])
  then show ?thesis by (simp add: b64_def)
qed

lemma mint_parts:
  "\<exists>h p. go_split (CHR ''.'') (mint E env secret now) = [h, p, b64 (hmac_sha256 E secret (h @ ''.'' @ p))]"
  by (simp add: mint_def Let_def go_split_append go_split_nosep b64_no_dot)

lemma auth_Apply_other:
  "canonical_key k \<noteq> canonical_key ''Authorization'' \<Longrightarrow> header_get (auth_Apply E env now h) k = header_get h k"
  by (simp add: auth_Apply_def Let_def header_get_set)

lemma auth_Apply_kept: "header_get h ''Authorization'' \<noteq> [] \<Longrightarrow> auth_Apply E env now h = h"
  by (simp add: auth_Apply_def)

end
