(* ===== verification/Sched_Dispatch.thy ===== *)
theory Sched_Dispatch
  imports Sched_Service Auth_Config
begin

text \<open>
  scheduler/dispatcher.go and scheduler/runner.go. \<^verbatim>\<open>Fire\<close> is the retry loop of one execution; what
  the world does at each attempt (clock readings, the outcome of sending the request, whether the
  context was cancelled) is the argument \<open>w\<close>, a function of the attempt number. \<^verbatim>\<open>Tick\<close> is one
  poll of the runner; the calls of \<^verbatim>\<open>Fire\<close> it starts are its result. The in-flight guard is a
  set of job names, and executions interleave as the step relation \<open>exec_step\<close>.
\<close>

section \<open>Status codes\<close>

definition codeOK :: int where "codeOK = 0"
definition codeUnknown :: int where "codeUnknown = 2"
definition codeInvalidArgument :: int where "codeInvalidArgument = 3"
definition codeDeadlineExceeded :: int where "codeDeadlineExceeded = 4"
definition codeNotFound :: int where "codeNotFound = 5"
definition codePermissionDenied :: int where "codePermissionDenied = 7"
definition codeResourceExhaust :: int where "codeResourceExhaust = 8"
definition codeUnimplemented :: int where "codeUnimplemented = 12"
definition codeInternal :: int where "codeInternal = 13"
definition codeUnavailable :: int where "codeUnavailable = 14"
definition codeUnauthenticated :: int where "codeUnauthenticated = 16"

lemmas code_defs = codeOK_def codeUnknown_def codeInvalidArgument_def codeDeadlineExceeded_def
  codeNotFound_def codePermissionDenied_def codeResourceExhaust_def codeUnimplemented_def
  codeInternal_def codeUnavailable_def codeUnauthenticated_def

definition httpStatusToCode :: "int \<Rightarrow> int" where
  "httpStatusToCode status =
     (if 200 \<le> status \<and> status < 300 then codeOK
      else if status = 400 then codeInvalidArgument
      else if status = 401 then codeUnauthenticated
      else if status = 403 then codePermissionDenied
      else if status = 404 then codeNotFound
      else if status = 429 then codeResourceExhaust
      else if status = 501 then codeUnimplemented
      else if status = 503 then codeUnavailable
      else if status = 504 then codeDeadlineExceeded
      else if 500 \<le> status then codeInternal
      else codeUnknown)"

section \<open>The in-flight guard\<close>

definition acquire :: "string \<Rightarrow> string set \<Rightarrow> bool \<times> string set" where
  "acquire jid running = (if jid \<in> running then (False, running) else (True, insert jid running))"

definition release :: "string \<Rightarrow> string set \<Rightarrow> string set" where
  "release jid running = running - {jid}"

section \<open>One attempt\<close>

definition nonempty :: "string option \<Rightarrow> bool" where
  "nonempty b \<longleftrightarrow> (case b of None \<Rightarrow> False | Some s \<Rightarrow> s \<noteq> [])"

definition job_request :: "ext \<Rightarrow> environment \<Rightarrow> time \<Rightarrow> Job \<Rightarrow> time \<Rightarrow> int \<Rightarrow> http_request" where
  "job_request E env now j scheduled n =
     (let h = set_all (j_Headers j) Map.empty;
          h = auth_Apply E env now h;
          h = (if nonempty (j_Body j) \<and> header_get h ''Content-Type'' = []
               then header_set ''Content-Type'' ''application/octet-stream'' h else h);
          h = (if header_get h ''User-Agent'' = [] then header_set ''User-Agent'' ''Google-Cloud-Scheduler'' h else h);
          h = header_set ''X-CloudScheduler'' ''true'' h;
          h = header_set ''X-CloudScheduler-JobName'' (j_Name j) h;
          h = header_set ''X-CloudScheduler-ScheduleTime'' (rfc3339 scheduled) h;
          h = header_set ''X-CloudScheduler-AttemptNumber'' (itoa n) h
      in \<lparr>rq_method = j_HTTPMethod j, rq_url = j_URL j,
          rq_body = (case j_Body j of None \<Rightarrow> [] | Some b \<Rightarrow> b), rq_headers = h\<rparr>)"

fun attempt_result :: "ext \<Rightarrow> http_outcome \<Rightarrow> int \<times> string" where
  "attempt_result E (ReqInvalid err) = (codeInvalidArgument, err)"
| "attempt_result E (DoFailed deadline uerr err) =
     (if deadline then (codeDeadlineExceeded, ''attempt deadline exceeded'') else (codeUnavailable, err))"
| "attempt_result E (Response status line body) =
     (let code = httpStatusToCode status in
      if code \<noteq> codeOK then (code, ''HTTP '' @ itoa status @ '' '' @ status_text E status) else (codeOK, []))"

section \<open>Fire\<close>

record fire_world =
  fw_now :: time
  fw_send :: "http_request \<Rightarrow> http_outcome"
  fw_ctx_err :: bool
  fw_since :: duration
  fw_cancelled :: bool

definition attempt :: "ext \<Rightarrow> environment \<Rightarrow> fire_world \<Rightarrow> Job \<Rightarrow> time \<Rightarrow> int \<Rightarrow> int \<times> string" where
  "attempt E env w j scheduled n =
     attempt_result E (fw_send w (job_request E env (fw_now w) j scheduled n))"

text \<open>
  The loop from attempt number \<open>n\<close> on: the list of the codes of the attempts made and the
  database after them. It ends because the attempt number grows to the retry count.
\<close>

function fire_loop :: "ext \<Rightarrow> environment \<Rightarrow> (int \<Rightarrow> fire_world) \<Rightarrow> Job \<Rightarrow> time \<Rightarrow> int \<Rightarrow> db \<Rightarrow> int list \<times> db" where
  "fire_loop E env w j scheduled n d =
     (case attempt E env (w n) j scheduled n of (code, msg) \<Rightarrow>
      if code = codeOK
      then ([code], snd (job_RecordAttempt (j_ID j) (fw_now (w n)) ''OK'' codeOK [] d))
      else
        (let d = snd (job_RecordAttempt (j_ID j) (fw_now (w n)) ''FAILED'' code msg d) in
         if n > RetryCount (j_Retry j) \<or> fw_ctx_err (w n) then ([code], d)
         else let wait = job_Backoff (j_Retry j) n in
         if MaxRetryDuration (j_Retry j) > 0 \<and> i64 (fw_since (w n) + wait) > MaxRetryDuration (j_Retry j)
         then ([code], d)
         else if fw_cancelled (w n) then ([code], d)
         else (case fire_loop E env w j scheduled (n + 1) d of (cs, d) \<Rightarrow> (code # cs, d))))"
  by pat_completeness auto
termination
  by (relation "measure (\<lambda>(E, env, w, j, scheduled, n, d). nat (RetryCount (j_Retry j) + 1 - n))") auto

declare fire_loop.simps [simp del]

definition Fire :: "ext \<Rightarrow> environment \<Rightarrow> (int \<Rightarrow> fire_world) \<Rightarrow> Job \<Rightarrow> time \<Rightarrow> string set \<Rightarrow> db
    \<Rightarrow> bool \<times> int list \<times> string set \<times> db" where
  "Fire E env w j scheduled running d =
     (case acquire (j_ID j) running of
        (False, running) \<Rightarrow> (False, [], running, d)
      | (True, running) \<Rightarrow>
          (case fire_loop E env w j scheduled 1 d of
             (cs, d) \<Rightarrow> (True, cs, release (j_ID j) running, d)))"

section \<open>Tick\<close>

fun tick_jobs :: "ext \<Rightarrow> time \<Rightarrow> time \<Rightarrow> Job list \<Rightarrow> db \<Rightarrow> (Job \<times> time) list \<times> db" where
  "tick_jobs E now wall [] d = ([], d)"
| "tick_jobs E now wall (j # js) d =
     (case NextRun E (j_Schedule j) (j_TimeZone j) now of
        Inl _ \<Rightarrow> tick_jobs E now wall js (snd (job_SetState wall (j_ID j) JobPaused zero_time d))
      | Inr nxt \<Rightarrow>
          (case job_Claim (j_ID j) (j_NextRunAt j) nxt d of
             (Inl _, d) \<Rightarrow> tick_jobs E now wall js d
           | (Inr False, d) \<Rightarrow> tick_jobs E now wall js d
           | (Inr True, d) \<Rightarrow>
               (case tick_jobs E now wall js d of (fs, d) \<Rightarrow> ((j, j_NextRunAt j) # fs, d))))"

definition Tick :: "ext \<Rightarrow> time \<Rightarrow> time \<Rightarrow> db \<Rightarrow> (Job \<times> time) list \<times> db" where
  "Tick E now wall d =
     (case job_ListDue E now d of
        (Inl _, d) \<Rightarrow> ([], d)
      | (Inr js, d) \<Rightarrow> tick_jobs E now wall js d)"

definition runner_interval :: "duration \<Rightarrow> duration" where
  "runner_interval pollInterval = (if pollInterval \<le> 0 then Second else pollInterval)"

text \<open>The canonical keys of the headers the program sets are pairwise different.\<close>

lemma canonical_consts [simp]:
  "canonical_key ''Authorization'' = ''Authorization''"
  "canonical_key ''Content-Type'' = ''Content-Type''"
  "canonical_key ''User-Agent'' = ''User-Agent''"
  "canonical_key ''X-CloudScheduler'' = ''X-Cloudscheduler''"
  "canonical_key ''X-CloudScheduler-JobName'' = ''X-Cloudscheduler-Jobname''"
  "canonical_key ''X-CloudScheduler-ScheduleTime'' = ''X-Cloudscheduler-Scheduletime''"
  "canonical_key ''X-CloudScheduler-AttemptNumber'' = ''X-Cloudscheduler-Attemptnumber''"
  by code_simp+

section \<open>Facts about Fire\<close>

text \<open>The loop as one recursion: record the attempt, stop or go on.\<close>

definition fire_stops :: "(int \<Rightarrow> fire_world) \<Rightarrow> Job \<Rightarrow> int \<Rightarrow> int \<Rightarrow> bool" where
  "fire_stops w j n code \<longleftrightarrow> code = codeOK \<or> n > RetryCount (j_Retry j) \<or> fw_ctx_err (w n)
     \<or> MaxRetryDuration (j_Retry j) > 0
       \<and> i64 (fw_since (w n) + job_Backoff (j_Retry j) n) > MaxRetryDuration (j_Retry j)
     \<or> fw_cancelled (w n)"

definition after_attempt :: "(int \<Rightarrow> fire_world) \<Rightarrow> Job \<Rightarrow> int \<Rightarrow> int \<Rightarrow> string \<Rightarrow> db \<Rightarrow> db" where
  "after_attempt w j n code msg d =
     snd (job_RecordAttempt (j_ID j) (fw_now (w n)) (if code = codeOK then ''OK'' else ''FAILED'') code
            (if code = codeOK then [] else msg) d)"

lemma fire_loop_rec:
  assumes "attempt E env (w n) j s n = (code, msg)"
  shows "fire_loop E env w j s n d =
    (if fire_stops w j n code then ([code], after_attempt w j n code msg d)
     else case fire_loop E env w j s (n + 1) (after_attempt w j n code msg d) of (cs, d) \<Rightarrow> (code # cs, d))"
  by (simp add: fire_loop.simps [of E env w j s n d] assms fire_stops_def after_attempt_def Let_def)

lemma fire_loop_cases [consumes 1, case_names stop go]:
  assumes "fire_loop E env w j s n d = (cs, d')"
    and "\<And>n d code msg. attempt E env (w n) j s n = (code, msg) \<Longrightarrow> fire_stops w j n code \<Longrightarrow>
      P n d [code] (after_attempt w j n code msg d)"
    and "\<And>n d code msg cs d'. attempt E env (w n) j s n = (code, msg) \<Longrightarrow> \<not> fire_stops w j n code \<Longrightarrow>
      P (n + 1) (after_attempt w j n code msg d) cs d' \<Longrightarrow> P n d (code # cs) d'"
  shows "P n d cs d'"
  using assms(1)
proof (induction "nat (RetryCount (j_Retry j) + 1 - n)" arbitrary: n d cs d' rule: less_induct)
  case less
  obtain code msg where a: "attempt E env (w n) j s n = (code, msg)" by (cases "attempt E env (w n) j s n")
  show ?case
  proof (cases "fire_stops w j n code")
    case True
    with less.prems fire_loop_rec [of E env w n j s code msg, OF a, of d] assms(2) [OF a] show ?thesis by auto
  next
    case False
    then have n: "nat (RetryCount (j_Retry j) + 1 - (n + 1)) < nat (RetryCount (j_Retry j) + 1 - n)"
      by (auto simp: fire_stops_def)
    obtain cs1 where c: "fire_loop E env w j s (n + 1) (after_attempt w j n code msg d) = (cs1, d')" "cs = code # cs1"
      using less.prems fire_loop_rec [of E env w n j s code msg, OF a, of d] False by (auto split: prod.splits)
    from assms(3) [OF a False less.hyps [OF n c(1)]] show ?thesis by (simp add: c(2))
  qed
qed

lemma fire_loop_attempts:
  "fire_loop E env w j s n d = (cs, d') \<Longrightarrow>
     cs \<noteq> [] \<and> int (length cs) \<le> max 1 (RetryCount (j_Retry j) + 2 - n)
   \<and> (\<forall>c \<in> set (butlast cs). c \<noteq> codeOK)
   \<and> (\<forall>i < length cs. cs ! i = fst (attempt E env (w (n + int i)) j s (n + int i)))"
proof (induction n d cs d' rule: fire_loop_cases)
  case (stop n d code msg)
  then show ?case by simp
next
  case (go n d code msg cs d')
  have "(code # cs) ! i = fst (attempt E env (w (n + int i)) j s (n + int i))" if "i < length (code # cs)" for i
    using go that by (cases i) (auto simp: add.assoc)
  moreover have "n \<le> RetryCount (j_Retry j)" "code \<noteq> codeOK" using go(2) by (auto simp: fire_stops_def)
  ultimately show ?case using go(3) by auto
qed

text \<open>The outcome columns after a run without statement failures: those of its last attempt.\<close>

definition record_outcome :: "time \<Rightarrow> int \<times> string \<Rightarrow> job_row \<Rightarrow> job_row" where
  "record_outcome att res r =
     (case res of (code, msg) \<Rightarrow>
      r\<lparr>jr_last_attempt_at := ms att,
        jr_last_status := (if code = codeOK then ''OK'' else ''FAILED''),
        jr_last_status_code := code, jr_last_error := (if code = codeOK then [] else msg)\<rparr>)"

lemma jr_record_outcome [simp]: "jr_id (record_outcome t res r) = jr_id r"
  "record_outcome t res (record_outcome t' res' r) = record_outcome t res r"
  by (simp_all add: record_outcome_def split: prod.splits)

lemma RecordAttempt_ok:
  assumes "db_ok d"
  shows "snd (job_RecordAttempt jid t (if code = codeOK then ''OK'' else ''FAILED'') code
            (if code = codeOK then [] else msg) d)
       = d\<lparr>job_tbl := rows_update (\<lambda>r. jr_id r = jid) (record_outcome t (code, msg)) (job_tbl d)\<rparr>"
  using assms by (simp add: job_RecordAttempt_def update_jobs_def db_okD(1) rows_update_def record_outcome_def cong: if_cong)

lemma rows_update_twice:
  assumes "\<And>r. P (f r) = P r" "\<And>r. g (f r) = g r"
  shows "rows_update P g (rows_update P f rs) = rows_update P g rs"
  using assms by (simp add: rows_update_def)

lemma fire_loop_recorded:
  "fire_loop E env w j s n d = (cs, d') \<Longrightarrow> db_ok d \<Longrightarrow>
   (let k = n + int (length cs) - 1 in
    d' = d\<lparr>job_tbl := rows_update (\<lambda>r. jr_id r = j_ID j)
             (record_outcome (fw_now (w k)) (attempt E env (w k) j s k)) (job_tbl d)\<rparr>)"
proof (induction n d cs d' rule: fire_loop_cases)
  case (stop n d code msg)
  then show ?case by (simp add: after_attempt_def RecordAttempt_ok)
next
  case (go n d code msg cs d')
  let ?d = "after_attempt w j n code msg d"
  have d: "?d = d\<lparr>job_tbl := rows_update (\<lambda>r. jr_id r = j_ID j) (record_outcome (fw_now (w n)) (code, msg)) (job_tbl d)\<rparr>"
    using go(4) by (simp add: after_attempt_def RecordAttempt_ok)
  have "db_ok ?d" using go(4) by (simp add: d db_ok_def wf_db_def map_rows_update)
  from go(3) [OF this] show ?case by (simp add: d Let_def rows_update_twice)
qed

lemma job_safe_record: "job_safe E d (snd (job_RecordAttempt jid t st c msg d))"
  by (rule job_RecordAttempt_safe [OF prod.collapse [symmetric]])

lemma job_safe_claim: "0 < ms new \<Longrightarrow> job_safe E d (snd (job_Claim jid old new d))"
  by (rule job_Claim_safe [OF prod.collapse [symmetric]])

lemma job_safe_pause: "job_safe E d (snd (job_SetState wall jid JobPaused zero_time d))"
  by (rule job_SetState_safe [OF prod.collapse [symmetric]]) simp

lemma fire_loop_safe: "fire_loop E env w j s n d = (cs, d') \<Longrightarrow> job_safe E d d'"
proof (induction n d cs d' rule: fire_loop_cases)
  case (stop n d code msg)
  show ?case unfolding after_attempt_def by (rule job_safe_record)
next
  case (go n d code msg cs d')
  with job_safe_trans [OF job_safe_record] show ?case unfolding after_attempt_def by blast
qed

section \<open>At most one execution per job\<close>

text \<open>
  The guard as an interface: a client may enter when \<open>enter\<close> says so and must \<open>leave\<close>; then nobody
  else is inside under the same key.
\<close>

locale guard =
  fixes enter :: "'k \<Rightarrow> 'g \<Rightarrow> bool \<times> 'g"
    and leave :: "'k \<Rightarrow> 'g \<Rightarrow> 'g"
    and held :: "'g \<Rightarrow> 'k set"
  assumes enter_free: "k \<notin> held g \<Longrightarrow> fst (enter k g) \<and> held (snd (enter k g)) = insert k (held g)"
    and enter_held: "k \<in> held g \<Longrightarrow> enter k g = (False, g)"
    and leave_held: "held (leave k g) = held g - {k}"
begin

lemma entered: "enter k g = (True, g') \<Longrightarrow> k \<notin> held g \<and> held g' = insert k (held g)"
  using enter_free [of k g] enter_held [of k g] by (cases "k \<in> held g") auto

lemma refused: "enter k g = (False, g') \<Longrightarrow> g' = g"
  using enter_free [of k g] enter_held [of k g] by (cases "k \<in> held g") auto

end

interpretation dispatcher_guard: guard acquire release "\<lambda>running. running"
  by unfold_locales (auto simp: acquire_def release_def)

section \<open>Facts about Tick\<close>

lemma ms_fromMs: "0 < v \<Longrightarrow> ms (fromMs v) = v"
  by (simp add: ms_def fromMs_def is_zero_def zero_time_def unix_milli_def)

text \<open>What a tick makes of a due row.\<close>

definition advance_row :: "ext \<Rightarrow> time \<Rightarrow> time \<Rightarrow> job_row \<Rightarrow> job_row" where
  "advance_row E now wall r =
     (case NextRun E (jr_schedule r) (jr_time_zone r) now of
        Inl _ \<Rightarrow> r\<lparr>jr_state := JobPaused, jr_next_run_at := 0, jr_updated_at := unix_milli wall\<rparr>
      | Inr nxt \<Rightarrow> r\<lparr>jr_next_run_at := ms nxt\<rparr>)"

definition runnable :: "ext \<Rightarrow> time \<Rightarrow> job_row \<Rightarrow> bool" where
  "runnable E now r = (case NextRun E (jr_schedule r) (jr_time_zone r) now of Inl _ \<Rightarrow> False | Inr _ \<Rightarrow> True)"

lemma jr_id_advance [simp]: "jr_id (advance_row E now wall r) = jr_id r"
  by (simp add: advance_row_def split: sum.splits)

lemma rows_update_one:
  assumes "distinct (map jr_id rs)" "r \<in> set rs" "P r \<and> f r = g r"
    and "\<And>x. P x \<Longrightarrow> jr_id x = jr_id r"
  shows "rows_update P f rs = map (\<lambda>x. if x = r then g x else x) rs"
proof -
  have "x = r" if "x \<in> set rs" "jr_id x = jr_id r" for x
    using that assms(1,2) by (simp add: distinct_map inj_on_def)
  then have "(if P x then f x else x) = (if x = r then g x else x)" if "x \<in> set rs" for x
    using that assms(3) assms(4) [of x] by (cases "x = r") auto
  then show ?thesis unfolding rows_update_def by (intro map_cong) simp_all
qed

lemma db_ok_jobs: "db_ok d \<Longrightarrow> map jr_id js = map jr_id (job_tbl d) \<Longrightarrow> db_ok (d\<lparr>job_tbl := js\<rparr>)"
  by (simp add: db_ok_def wf_db_def)

lemma tick_step:
  assumes "db_ok d" "r \<in> set (job_tbl d)" "job_due now r"
  shows "tick_jobs E now wall (scanJob E r # js) d =
    (case tick_jobs E now wall js (d\<lparr>job_tbl := map (\<lambda>x. if x = r then advance_row E now wall x else x) (job_tbl d)\<rparr>) of
       (fs, d) \<Rightarrow> (if runnable E now r then (scanJob E r, fromMs (jr_next_run_at r)) # fs else fs, d))"
proof -
  have dist: "distinct (map jr_id (job_tbl d))" using assms(1) by (simp add: db_ok_def wf_db_def)
  have fnd: "find_job (jr_id r) d = Some r" unfolding find_job_def by (rule find_key_mem [OF dist assms(2)])
  have uniq: "x = r" if "x \<in> set (job_tbl d)" "jr_id x = jr_id r" for x
    using that assms(2) dist by (simp add: distinct_map inj_on_def)
  have nx: "ms (fromMs (jr_next_run_at r)) = jr_next_run_at r" "jr_state r = JobEnabled"
    using assms(3) by (auto simp: job_due_def ms_fromMs)
  show ?thesis
  proof (cases "NextRun E (jr_schedule r) (jr_time_zone r) now")
    case (Inl e)
    have u: "rows_update (\<lambda>x. jr_id x = jr_id r)
        (\<lambda>r. r\<lparr>jr_state := JobPaused, jr_next_run_at := 0, jr_updated_at := unix_milli wall\<rparr>) (job_tbl d)
        = map (\<lambda>x. if x = r then advance_row E now wall x else x) (job_tbl d)"
      by (rule rows_update_one [OF dist assms(2)]) (use uniq in \<open>auto simp: advance_row_def Inl\<close>)
    have "snd (job_SetState wall (jr_id r) JobPaused zero_time d)
        = d\<lparr>job_tbl := map (\<lambda>x. if x = r then advance_row E now wall x else x) (job_tbl d)\<rparr>"
      using db_okD(1) [OF assms(1)] by (simp add: job_SetState_def affected_def update_jobs_def u)
    then show ?thesis by (auto simp: scanJob_def Inl runnable_def split: prod.splits)
  next
    case (Inr nxt)
    have u: "rows_update (\<lambda>x. jr_id x = jr_id r \<and> jr_state x = JobEnabled
          \<and> jr_next_run_at x = ms (fromMs (jr_next_run_at r))) (\<lambda>r. r\<lparr>jr_next_run_at := ms nxt\<rparr>) (job_tbl d)
        = map (\<lambda>x. if x = r then advance_row E now wall x else x) (job_tbl d)"
      by (rule rows_update_one [OF dist assms(2)]) (use uniq nx in \<open>auto simp: advance_row_def Inr\<close>)
    have "job_Claim (jr_id r) (fromMs (jr_next_run_at r)) nxt d
        = (Inr True, d\<lparr>job_tbl := map (\<lambda>x. if x = r then advance_row E now wall x else x) (job_tbl d)\<rparr>)"
      unfolding job_Claim_ok [OF assms(1)] u using nx by (simp add: job_claim_free_def fnd)
    then show ?thesis by (auto simp: scanJob_def Inr runnable_def split: prod.splits)
  qed
qed

lemma tick_jobs_ok:
  assumes "db_ok d" "set rs \<subseteq> set (job_tbl d)" "distinct rs" "list_all (job_due now) rs"
  shows "tick_jobs E now wall (map (scanJob E) rs) d =
    (map (\<lambda>r. (scanJob E r, fromMs (jr_next_run_at r))) (filter (runnable E now) rs),
     d\<lparr>job_tbl := map (\<lambda>x. if x \<in> set rs then advance_row E now wall x else x) (job_tbl d)\<rparr>)"
  using assms
proof (induction rs arbitrary: d)
  case (Cons r rs)
  let ?f = "\<lambda>x. if x = r then advance_row E now wall x else x"
  let ?d = "d\<lparr>job_tbl := map ?f (job_tbl d)\<rparr>"
  have dist: "distinct (map jr_id (job_tbl d))" using Cons.prems(1) by (simp add: db_ok_def wf_db_def)
  have ok: "db_ok ?d" by (rule db_ok_jobs [OF Cons.prems(1)]) simp
  have sub: "set rs \<subseteq> set (job_tbl ?d)" using Cons.prems(2,3) by force
  have ne: "advance_row E now wall r \<notin> set rs"
  proof
    assume a: "advance_row E now wall r \<in> set rs"
    then have "advance_row E now wall r = r"
      using Cons.prems(2) dist by (auto simp: distinct_map inj_on_def)
    with a Cons.prems(3) show False by simp
  qed
  have "(\<lambda>x. if x \<in> set rs then advance_row E now wall x else x) (?f x)
      = (if x \<in> set (r # rs) then advance_row E now wall x else x)" for x
    using ne Cons.prems(3) by auto
  then have m: "map (\<lambda>x. if x \<in> set rs then advance_row E now wall x else x) (job_tbl ?d)
      = map (\<lambda>x. if x \<in> set (r # rs) then advance_row E now wall x else x) (job_tbl d)" by simp
  show ?case
    using tick_step [OF Cons.prems(1), of r now E wall "map (scanJob E) rs"] Cons.prems(2-4) m
      Cons.IH [OF ok sub] by simp
qed simp

lemma Tick_ok:
  assumes "db_ok d"
  shows "Tick E now wall d =
    (map (\<lambda>r. (scanJob E r, fromMs (jr_next_run_at r)))
       (filter (runnable E now) (sort_key jr_next_run_at (filter (job_due now) (job_tbl d)))),
     d\<lparr>job_tbl := map (\<lambda>x. if job_due now x then advance_row E now wall x else x) (job_tbl d)\<rparr>)"
proof -
  let ?rs = "sort_key jr_next_run_at (filter (job_due now) (job_tbl d))"
  have "distinct (job_tbl d)" using assms by (auto simp: db_ok_def wf_db_def distinct_map)
  then have "tick_jobs E now wall (map (scanJob E) ?rs) d =
    (map (\<lambda>r. (scanJob E r, fromMs (jr_next_run_at r))) (filter (runnable E now) ?rs),
     d\<lparr>job_tbl := map (\<lambda>x. if x \<in> set ?rs then advance_row E now wall x else x) (job_tbl d)\<rparr>)"
    by (intro tick_jobs_ok [OF assms]) (auto simp: list_all_iff)
  moreover have "map (\<lambda>x. if x \<in> set ?rs then advance_row E now wall x else x) (job_tbl d)
      = map (\<lambda>x. if job_due now x then advance_row E now wall x else x) (job_tbl d)"
    by (rule map_cong) auto
  ultimately show ?thesis
    using db_okD(1) [OF assms] by (simp add: Tick_def job_ListDue_def job_query_def select_def)
qed

lemma advance_not_due:
  assumes "cron_later E"
  shows "\<not> job_due now (advance_row E now wall r)"
proof (cases "NextRun E (jr_schedule r) (jr_time_zone r) now")
  case (Inl e)
  then show ?thesis by (simp add: job_due_def advance_row_def sched_consts)
next
  case (Inr nxt)
  with NextRun_milli [OF assms Inr] NextRun_later(3) [OF assms Inr] show ?thesis
    by (simp add: job_due_def advance_row_def ms_def)
qed

lemma tick_jobs_safe:
  assumes "cron_later E" "0 \<le> now"
  shows "job_safe E d (snd (tick_jobs E now wall js d))"
proof (induction js arbitrary: d)
  case Nil
  then show ?case by (simp add: job_safe_refl)
next
  case (Cons j js)
  show ?case
  proof (cases "NextRun E (j_Schedule j) (j_TimeZone j) now")
    case (Inl e)
    with job_safe_trans [OF job_safe_pause Cons.IH] show ?thesis by simp
  next
    case (Inr nxt)
    obtain b d1 where c: "job_Claim (j_ID j) (j_NextRunAt j) nxt d = (b, d1)"
      by (cases "job_Claim (j_ID j) (j_NextRunAt j) nxt d")
    have "job_safe E d d1"
      using job_safe_claim [OF NextRun_ms_pos [OF assms Inr], of E d "j_ID j" "j_NextRunAt j"] by (simp add: c)
    from job_safe_trans [OF this Cons.IH] Inr c show ?thesis
      by (auto split: sum.splits bool.splits prod.splits)
  qed
qed

lemma Tick_safe:
  assumes "cron_later E" "0 \<le> now"
  shows "job_safe E d (snd (Tick E now wall d))"
proof -
  obtain x d1 where q: "job_ListDue E now d = (x, d1)" by (cases "job_ListDue E now d")
  have "tables d1 = tables d" using job_query_effect [OF q [unfolded job_ListDue_def]] by simp
  then have "job_safe E d d1" by (rule job_safe_refl)
  with job_safe_trans [OF this tick_jobs_safe [OF assms]] q show ?thesis
    by (cases x) (auto simp: Tick_def)
qed

end
