(* ===== verification/Sched_Props.thy ===== *)
theory Sched_Props
  imports Sched_Dispatch "HOL-Library.Multiset"
begin

text \<open>
  The properties of the scheduler: names, schedules and backoff, the job repository, the service
  under interleaving and failures, the retry loop and the runner.
\<close>

section \<open>The scheduler as interleaved statements\<close>

text \<open>
  Requests and the runner run concurrently; the database executes one statement at a time. A
  request reads a row, computes, and writes later: \<open>snaps\<close> holds the rows read so far by any
  request, however stale. Statement failures are part of every rule, since each statement meets
  the failure script of the database, which the rule \<open>sched_failures\<close> sets at will.
\<close>

inductive sched_step :: "ext \<Rightarrow> db \<times> job_row list \<Rightarrow> db \<times> job_row list \<Rightarrow> bool" for E where
  sched_failures: "sched_step E (d, snaps) (d\<lparr>faults := fs\<rparr>, snaps)"
| sched_read: "row \<in> set (job_tbl d) \<Longrightarrow> sched_step E (d, snaps) (d, row # snaps)"
| sched_create: "0 \<le> now \<Longrightarrow> svc_prepare E now j = Inr j' \<Longrightarrow> job_Create E wall j' d = (r, d') \<Longrightarrow>
    sched_step E (d, snaps) (d', snaps)"
| sched_update: "0 \<le> now \<Longrightarrow> row \<in> set snaps \<Longrightarrow> svc_updated E now p paths (scanJob E row) = Inr j' \<Longrightarrow>
    job_Update E wall j' d = (r, d') \<Longrightarrow> sched_step E (d, snaps) (d', snaps)"
| sched_pause: "job_SetState wall jid JobPaused zero_time d = (r, d') \<Longrightarrow> sched_step E (d, snaps) (d', snaps)"
| sched_resume: "0 \<le> now \<Longrightarrow> row \<in> set snaps \<Longrightarrow> NextRun E (jr_schedule row) (jr_time_zone row) now = Inr nxt \<Longrightarrow>
    job_SetState wall (jr_id row) JobEnabled nxt d = (r, d') \<Longrightarrow> sched_step E (d, snaps) (d', snaps)"
| sched_claim: "0 \<le> now \<Longrightarrow> row \<in> set snaps \<Longrightarrow> NextRun E (jr_schedule row) (jr_time_zone row) now = Inr nxt \<Longrightarrow>
    job_Claim (jr_id row) (fromMs (jr_next_run_at row)) nxt d = (b, d') \<Longrightarrow> sched_step E (d, snaps) (d', snaps)"
| sched_record: "job_RecordAttempt jid t st code msg d = (u, d') \<Longrightarrow> sched_step E (d, snaps) (d', snaps)"
| sched_delete: "svc_Delete jid d = (u, d') \<Longrightarrow> sched_step E (d, snaps) (d', snaps)"

definition sched_inv :: "ext \<Rightarrow> db \<times> job_row list \<Rightarrow> bool" where
  "sched_inv E s \<longleftrightarrow> wf_db (fst s) \<and> jobs_ok E (fst s) \<and> list_all (job_row_ok E) (snd s)"

lemma job_safe_inv: "job_safe E d d' \<Longrightarrow> sched_inv E (d, snaps) \<Longrightarrow> sched_inv E (d', snaps)"
  by (simp add: job_safe_def sched_inv_def)

lemma sched_step_inv:
  assumes "cron_later E" "sched_step E s s'" "sched_inv E s"
  shows "sched_inv E s'"
  using assms(2,3)
proof cases
  case (sched_failures d snaps fs)
  with assms(3) show ?thesis by (simp add: sched_inv_def jobs_ok_def)
next
  case (sched_read row d snaps)
  with assms(3) show ?thesis by (auto simp: sched_inv_def jobs_ok_def list_all_iff)
next
  case (sched_create now j j' wall d r d' snaps)
  from job_Create_safe [OF sched_create(5) svc_prepare_ok(1,2) [OF assms(1) sched_create(3,4)]] assms(3)
  show ?thesis unfolding sched_create(1,2) by (rule job_safe_inv)
next
  case (sched_update now row snaps p paths j' wall d r d')
  have "run_ok (scanJob E row)"
    using assms(3) sched_update(1,4) by (auto simp: sched_inv_def list_all_iff intro: run_ok_scanJob)
  from job_Update_safe [OF sched_update(6) svc_updated_ok(1,2) [OF assms(1) sched_update(3,5) this]] assms(3)
  show ?thesis unfolding sched_update(1,2) by (rule job_safe_inv)
next
  case (sched_pause wall jid d r d' snaps)
  have "job_safe E d d'" by (rule job_SetState_safe [OF sched_pause(3)]) simp
  with assms(3) show ?thesis unfolding sched_pause(1,2) by (rule job_safe_inv [rotated])
next
  case (sched_resume now row snaps nxt wall d r d')
  have "job_safe E d d'"
    by (rule job_SetState_safe [OF sched_resume(6)]) (use NextRun_ms_pos [OF assms(1) sched_resume(3,5)] in simp)
  with assms(3) show ?thesis unfolding sched_resume(1,2) by (rule job_safe_inv [rotated])
next
  case (sched_claim now row snaps nxt d b d')
  from job_Claim_safe [OF sched_claim(6) NextRun_ms_pos [OF assms(1) sched_claim(3,5)]] assms(3)
  show ?thesis unfolding sched_claim(1,2) by (rule job_safe_inv)
next
  case (sched_record jid t st code msg d u d' snaps)
  from job_RecordAttempt_safe [OF sched_record(3)] assms(3)
  show ?thesis unfolding sched_record(1,2) by (rule job_safe_inv)
next
  case (sched_delete jid d u d' snaps)
  from svc_Delete_safe [OF sched_delete(3)] assms(3)
  show ?thesis unfolding sched_delete(1,2) by (rule job_safe_inv)
qed

lemma sched_reachable_inv:
  assumes "cron_later E" "(sched_step E)\<^sup>*\<^sup>* (empty_db, []) s"
  shows "sched_inv E s"
  using assms(2)
proof (induction rule: rtranclp_induct)
  case base
  show ?case by (simp add: sched_inv_def jobs_ok_def) (simp add: empty_db_def)
next
  case (step s s')
  then show ?case using sched_step_inv [OF assms(1)] by blast
qed

section \<open>Concrete inputs\<close>

definition demo_job :: Job where
  "demo_job = \<lparr>j_ID = [], j_Project = ''p'', j_Location = ''l'', j_Name = ''j'', j_Description = [],
     j_Schedule = ''* * * * *'', j_TimeZone = [], j_HTTPMethod = ''get'', j_URL = ''http://h/'',
     j_Headers = Some [(''K'', ''v'')], j_Body = None, j_State = [], j_AttemptDeadline = 0,
     j_Retry = \<lparr>RetryCount = 2, MaxRetryDuration = 0, MinBackoff = 0, MaxBackoff = 0, MaxDoublings = 0\<rparr>,
     j_NextRunAt = zero_time, j_LastAttemptAt = zero_time, j_LastStatus = [], j_LastStatusCode = 0,
     j_LastError = [], j_CreatedAt = zero_time, j_UpdatedAt = zero_time\<rparr>"

definition demo_ready :: Job where
  "demo_ready = (ApplyDefaults demo_ext demo_job)\<lparr>j_NextRunAt := 120 * Second\<rparr>"

definition demo_jobs :: db where
  "demo_jobs = empty_db\<lparr>job_tbl := [job_insert_row demo_ext (job_stamped Second demo_ready)]\<rparr>"

lemma demo_jobs_ok: "db_ok demo_jobs"
  by (simp add: demo_jobs_def db_ok_def wf_db_def empty_db_def)

lemma demo_schedule: "ParseSchedule demo_ext ''* * * * *'' tz = Inr demo_next"
proof -
  have "trim_space ''* * * * *'' = ''* * * * *''" by (rule trim_space_id) (simp_all add: visible_def)
  then show ?thesis
    by (simp add: ParseSchedule_def resolve_zone_def to_upper_def ascii_def ascii_upper_def has_prefix_def
        demo_ext_def)
qed

lemma demo_NextRun: "NextRun demo_ext ''* * * * *'' tz (k * Second) = Inr ((k div 60 + 1) * (60 * Second))" if "0 \<le> k"
proof -
  have "k * Second div (60 * Second) = k div 60" by (rule div_mult_mult2) simp
  then have "demo_next (k * Second) = (k div 60 + 1) * (60 * Second)" by (simp only: demo_next_def)
  moreover have "0 \<le> (k div 60 + 1) * (60 * Second)" using that by (simp add: pos_imp_zdiv_nonneg_iff)
  then have "\<not> is_zero ((k div 60 + 1) * (60 * Second))" by (simp add: is_zero_def zero_time_def)
  ultimately show ?thesis by (simp add: NextRun_def demo_schedule Let_def)
qed

lemma demo_ready_fields:
  "j_Name demo_ready = ''j''" "j_Description demo_ready = []" "j_Schedule demo_ready = ''* * * * *''"
  "j_URL demo_ready = ''http://h/''" "j_HTTPMethod demo_ready = ''GET''" "j_State demo_ready = JobEnabled"
  "j_AttemptDeadline demo_ready = 180 * Second" "j_Project demo_ready = ''p''" "j_Location demo_ready = ''l''"
  "j_Retry demo_ready = \<lparr>RetryCount = 2, MaxRetryDuration = 0, MinBackoff = 5 * Second,
     MaxBackoff = 3600 * Second, MaxDoublings = 5\<rparr>" "j_Headers demo_ready = Some [(''K'', ''v'')]"
proof -
  have "to_upper demo_ext ''get'' = ''GET''" by code_simp
  then show "j_Name demo_ready = ''j''" "j_Description demo_ready = []" "j_Schedule demo_ready = ''* * * * *''"
    "j_URL demo_ready = ''http://h/''" "j_HTTPMethod demo_ready = ''GET''" "j_State demo_ready = JobEnabled"
    "j_AttemptDeadline demo_ready = 180 * Second" "j_Project demo_ready = ''p''" "j_Location demo_ready = ''l''"
    "j_Retry demo_ready = \<lparr>RetryCount = 2, MaxRetryDuration = 0, MinBackoff = 5 * Second,
       MaxBackoff = 3600 * Second, MaxDoublings = 5\<rparr>" "j_Headers demo_ready = Some [(''K'', ''v'')]"
    by (simp_all add: demo_ready_def demo_job_def ApplyDefaults_def retry_defaults_def sched_consts)
qed

lemma demo_valid:
  assumes "0 \<le> RetryCount r" "0 \<le> MaxRetryDuration r" "0 \<le> MinBackoff r" "MinBackoff r \<le> MaxBackoff r"
    "0 \<le> MaxDoublings r"
  shows "Validate demo_ext (demo_ready\<lparr>j_Retry := r\<rparr>) = None"
proof -
  have "match_name 500 ''j''" by (simp add: match_name_def name_char_def)
  moreover have "job_http_url demo_ext ''http://h/''"
    by (simp add: job_http_url_def demo_ext_def demo_url_def has_prefix_def)
  ultimately show ?thesis
    using assms by (simp add: Validate_def demo_ready_fields demo_schedule validMethods_def
        MinAttemptDeadline_def MaxAttemptDeadline_def)
qed

lemma Validate_NextRunAt: "Validate E (j\<lparr>j_NextRunAt := t\<rparr>) = Validate E j"
  by (cases "ParseSchedule E (j_Schedule j) (j_TimeZone j)") (simp_all add: Validate_def Let_def)

lemma Validate_doublings:
  "Validate E j = None \<Longrightarrow> 0 \<le> n \<Longrightarrow> Validate E (j\<lparr>j_Retry := (j_Retry j)\<lparr>MaxDoublings := n\<rparr>\<rparr>) = None"
  by (cases "ParseSchedule E (j_Schedule j) (j_TimeZone j)") (auto simp: Validate_def Let_def split: if_splits)

lemma demo_prepare: "svc_prepare demo_ext (60 * Second) demo_job = Inr demo_ready"
proof -
  let ?j = "ApplyDefaults demo_ext demo_job"
  have "Validate demo_ext (demo_ready\<lparr>j_Retry := j_Retry demo_ready\<rparr>) = None"
    by (rule demo_valid) (simp_all add: demo_ready_fields)
  then have "Validate demo_ext ?j = None" by (simp add: demo_ready_def Validate_NextRunAt)
  moreover have "j_State ?j = JobEnabled" "j_Schedule ?j = ''* * * * *''"
    by (simp_all add: ApplyDefaults_def demo_job_def)
  ultimately show ?thesis
    using demo_NextRun [of 60 "j_TimeZone ?j"] by (simp add: svc_prepare_def Let_def demo_ready_def)
qed

section \<open>Properties\<close>

text \<open>
  C3: under every interleaving of requests, the runner and running executions, with writes based
  on stale reads and any statement failing, job names stay unique and every stored job satisfies
  the invariant: an ENABLED job has a next run, a PAUSED one has none, the resource name is the one
  of its parts, and the configuration obeys every rule of Validate (name, description, schedule and
  time zone, URL, method, deadline, retry values), which job_row_ok states apart from Validate.
\<close>

theorem scheduler_invariant:
  assumes "cron_later E" and "(sched_step E)\<^sup>*\<^sup>* (empty_db, []) (d, snaps)"
  shows "wf_db d \<and> list_all (job_row_ok E) (job_tbl d)"
  using sched_reachable_inv [OF assms] by (simp add: sched_inv_def jobs_ok_def)

theorem scheduler_invariant_witness:
  "wf_db (snd (job_Create demo_ext 0 demo_ready empty_db))
   \<and> list_all (job_row_ok demo_ext) (job_tbl (snd (job_Create demo_ext 0 demo_ready empty_db)))"
proof (rule scheduler_invariant [OF demo_cron_later])
  show "(sched_step demo_ext)\<^sup>*\<^sup>* (empty_db, []) (snd (job_Create demo_ext 0 demo_ready empty_db), [])"
    by (rule r_into_rtranclp)
      (rule sched_create [OF _ demo_prepare prod.collapse [symmetric]], simp)
qed

text \<open>
  C7: after a tick at time now no job is due at now, so a job whose runs were missed while the
  process was down fires once and not once per missed run; the executions started are exactly
  those of the due jobs with a valid schedule, each once and with the run it was due for.
\<close>

theorem tick_fires_once:
  assumes "db_ok d" and "cron_later E"
  shows "(case Tick E now wall d of (fired, d') \<Rightarrow>
      mset (map fst fired) = mset (map (scanJob E) (filter (\<lambda>r. job_due now r \<and> runnable E now r) (job_tbl d)))
    \<and> list_all (\<lambda>(j, t). t = j_NextRunAt j) fired
    \<and> list_all (\<lambda>r. \<not> job_due now r) (job_tbl d')
    \<and> fst (Tick E now wall' d') = [])"
proof -
  define rs where "rs = filter (runnable E now) (sort_key jr_next_run_at (filter (job_due now) (job_tbl d)))"
  define js where "js = map (\<lambda>x. if job_due now x then advance_row E now wall x else x) (job_tbl d)"
  define d' where "d' = d\<lparr>job_tbl := js\<rparr>"
  have t: "Tick E now wall d = (map (\<lambda>r. (scanJob E r, fromMs (jr_next_run_at r))) rs, d')"
    unfolding rs_def js_def d'_def by (rule Tick_ok [OF assms(1)])
  have nd: "list_all (\<lambda>r. \<not> job_due now r) (job_tbl d')"
    by (auto simp: d'_def js_def list_all_iff advance_not_due [OF assms(2)])
  have "map jr_id js = map jr_id (job_tbl d)" by (simp add: js_def)
  then have "db_ok d'" unfolding d'_def by (rule db_ok_jobs [OF assms(1)])
  from Tick_ok [OF this, of E now wall'] nd have again: "fst (Tick E now wall' d') = []"
    by (simp add: list_all_iff filter_empty_conv)
  have "mset rs = mset (filter (\<lambda>r. job_due now r \<and> runnable E now r) (job_tbl d))"
    by (simp add: rs_def filter_filter_mset conj_commute)
  then have m: "mset (map (scanJob E) rs)
      = mset (map (scanJob E) (filter (\<lambda>r. job_due now r \<and> runnable E now r) (job_tbl d)))" by simp
  have f: "map fst (map (\<lambda>r. (scanJob E r, fromMs (jr_next_run_at r))) rs) = map (scanJob E) rs" by simp
  have n: "list_all (\<lambda>(j, t). t = j_NextRunAt j) (map (\<lambda>r. (scanJob E r, fromMs (jr_next_run_at r))) rs)"
    by (simp add: list_all_iff scanJob_def)
  show ?thesis unfolding t prod.case f using m n nd again by blast
qed

theorem tick_fires_once_witness:
  "(case Tick demo_ext (10000 * Second) 0 demo_jobs of (fired, d') \<Rightarrow>
      mset (map fst fired) = mset (map (scanJob demo_ext)
        (filter (\<lambda>r. job_due (10000 * Second) r \<and> runnable demo_ext (10000 * Second) r) (job_tbl demo_jobs)))
    \<and> list_all (\<lambda>(j, t). t = j_NextRunAt j) fired
    \<and> list_all (\<lambda>r. \<not> job_due (10000 * Second) r) (job_tbl d')
    \<and> fst (Tick demo_ext (10000 * Second) 0 d') = [])"
  by (rule tick_fires_once [OF demo_jobs_ok demo_cron_later])

text \<open>
  C10: Fire makes at least one and at most RetryCount + 1 attempts, stops at the first success, and
  on a database without failures leaves the outcome of the last attempt in the job's row and every
  other row alone; it leaves the in-flight guard as it found it.
\<close>

theorem fire_attempts:
  assumes "db_ok d" and "j_ID j \<notin> running" and "0 \<le> RetryCount (j_Retry j)"
  shows "case Fire E env w j s running d of (started, cs, running', d') \<Rightarrow>
    started \<and> running' = running \<and> cs \<noteq> [] \<and> int (length cs) \<le> RetryCount (j_Retry j) + 1
    \<and> list_all (\<lambda>c. c \<noteq> codeOK) (butlast cs)
    \<and> d' = d\<lparr>job_tbl := rows_update (\<lambda>r. jr_id r = j_ID j)
        (record_outcome (fw_now (w (int (length cs)))) (attempt E env (w (int (length cs))) j s (int (length cs)))) (job_tbl d)\<rparr>"
proof -
  obtain cs d' where l: "fire_loop E env w j s 1 d = (cs, d')" by (cases "fire_loop E env w j s 1 d")
  have "cs \<noteq> [] \<and> int (length cs) \<le> RetryCount (j_Retry j) + 1 \<and> (\<forall>c \<in> set (butlast cs). c \<noteq> codeOK)"
    using fire_loop_attempts [OF l] assms(3) by simp
  moreover have "insert (j_ID j) running - {j_ID j} = running" using assms(2) by simp
  ultimately show ?thesis
    using fire_loop_recorded [OF l assms(1)] assms(2)
    by (simp add: Fire_def acquire_def release_def l list_all_iff Let_def)
qed

theorem fire_attempts_witness:
  "case Fire demo_ext (\<lambda>_. []) (\<lambda>n. \<lparr>fw_now = n, fw_send = (\<lambda>_. Response (if n = 2 then 200 else 500) [] []),
       fw_ctx_err = False, fw_since = 0, fw_cancelled = False\<rparr>) demo_ready 0 {} demo_jobs of (started, cs, running', d') \<Rightarrow>
    started \<and> running' = {} \<and> cs \<noteq> [] \<and> int (length cs) \<le> RetryCount (j_Retry demo_ready) + 1
    \<and> list_all (\<lambda>c. c \<noteq> codeOK) (butlast cs)"
  using fire_attempts [OF demo_jobs_ok, of demo_ready "{}", where E = demo_ext and env = "\<lambda>_. []" and s = 0
      and w = "\<lambda>n. \<lparr>fw_now = n, fw_send = (\<lambda>_. Response (if n = 2 then 200 else 500) [] []),
        fw_ctx_err = False, fw_since = 0, fw_cancelled = False\<rparr>"]
  by (simp add: demo_ready_fields split: prod.splits)

text \<open>
  C22: the wait before a retry is the one the comment on Backoff specifies, computed without
  wrapping, and lies between the minimum and the maximum backoff, as long as the doubled and
  linearly grown minimum fits 64 bits and the maximum is below 2^62 nanoseconds.
\<close>

theorem backoff_correct:
  assumes "0 \<le> MinBackoff r" "MinBackoff r \<le> MaxBackoff r" "0 < MaxBackoff r" "MaxBackoff r < 2 ^ 62"
    and "0 \<le> MaxDoublings r" "retry < 2 ^ 63"
    and "MinBackoff r * 2 ^ nat (MaxDoublings r) * max 1 (retry - MaxDoublings r) < 2 ^ 63"
  shows "job_Backoff r retry = backoff_spec r retry
    \<and> MinBackoff r \<le> job_Backoff r retry \<and> job_Backoff r retry \<le> MaxBackoff r"
  using job_Backoff_spec [OF assms] backoff_spec_bounds [OF assms(1,2,5), of retry] by simp

definition default_retry :: RetryConfig where
  "default_retry = \<lparr>RetryCount = 5, MaxRetryDuration = 0, MinBackoff = DefaultMinBackoff,
     MaxBackoff = DefaultMaxBackoff, MaxDoublings = DefaultMaxDoublings\<rparr>"

theorem backoff_correct_witness:
  "job_Backoff default_retry 8 = 480 * Second \<and> job_Backoff default_retry 8 = backoff_spec default_retry 8"
proof -
  have e: "backoff_spec default_retry 8 = 480 * Second" by code_simp
  have "job_Backoff default_retry 8 = backoff_spec default_retry 8"
    by (rule backoff_correct [THEN conjunct1])
      (simp_all add: default_retry_def DefaultMinBackoff_def DefaultMaxBackoff_def DefaultMaxDoublings_def)
  with e show ?thesis by simp
qed

text \<open>
  C23: without that condition the cap fails, for every job: give any valid job with a nonzero
  minimum backoff any number of doublings from 64 on. Validate accepts it, the comment on Backoff
  asks for the maximum backoff once the doublings are used up, and Backoff returns no wait at all,
  since the loop of its second branch doubles without a test and every bit is shifted out.
\<close>

theorem backoff_overflow:
  assumes "Validate E j = None" and "0 < MinBackoff (j_Retry j)" and "MaxBackoff (j_Retry j) < 2 ^ 63"
    and "64 \<le> n" and "n + 1 < retry"
  shows "Validate E (j\<lparr>j_Retry := (j_Retry j)\<lparr>MaxDoublings := n\<rparr>\<rparr>) = None
    \<and> job_Backoff ((j_Retry j)\<lparr>MaxDoublings := n\<rparr>) retry = 0
    \<and> backoff_spec ((j_Retry j)\<lparr>MaxDoublings := n\<rparr>) retry = MaxBackoff (j_Retry j)"
proof -
  let ?r = "j_Retry j"
  have z: "double_wrapped (nat n) (MinBackoff ?r) = 0" using assms(4) by (intro double_wrapped_64) simp
  have "(2 :: int) ^ 63 \<le> 2 ^ nat n" using assms(4) by (intro power_increasing) simp_all
  also have "\<dots> \<le> MinBackoff ?r * 2 ^ nat n" using assms(2) by simp
  also have "\<dots> \<le> MinBackoff ?r * 2 ^ nat n * (retry - 1 - n + 1)"
    using mult_left_mono [of 1 "retry - 1 - n + 1" "MinBackoff ?r * 2 ^ nat n"] assms(2,5) by simp
  finally have "MaxBackoff ?r \<le> MinBackoff ?r * 2 ^ nat n * (retry - 1 - n + 1)" using assms(3) by linarith
  then have "backoff_spec (?r\<lparr>MaxDoublings := n\<rparr>) retry = MaxBackoff ?r"
    using assms(4,5) by (simp add: backoff_spec_def Let_def max_def min_def)
  moreover have "job_Backoff (?r\<lparr>MaxDoublings := n\<rparr>) retry = 0"
    using assms(4,5) z by (simp add: job_Backoff_def Let_def cap_backoff_def in_i64_def)
  ultimately show ?thesis using Validate_doublings [OF assms(1)] assms(4) by simp
qed

theorem backoff_overflow_witness:
  "job_Backoff (default_retry\<lparr>MaxDoublings := 64\<rparr>) 70 = 0
   \<and> backoff_spec (default_retry\<lparr>MaxDoublings := 64\<rparr>) 70 = 3600 * Second"
proof -
  have "Validate demo_ext (demo_ready\<lparr>j_Retry := default_retry\<rparr>) = None"
    by (rule demo_valid) (simp_all add: default_retry_def DefaultMinBackoff_def DefaultMaxBackoff_def DefaultMaxDoublings_def)
  from backoff_overflow [OF this, of 64 70] show ?thesis
    by (simp add: default_retry_def DefaultMinBackoff_def DefaultMaxBackoff_def)
qed

text \<open>
  C24: ParseName accepts exactly the names ResourceName makes of non-empty segments without
  slashes, and returns those segments.
\<close>

theorem parse_name_exact:
  "(job_ParseName E s = Inr (p, l, n)) =
   (s = job_ResourceName p l n \<and> p \<noteq> [] \<and> l \<noteq> [] \<and> n \<noteq> []
    \<and> slash \<notin> set p \<and> slash \<notin> set l \<and> slash \<notin> set n)"
  using job_ParseName_ResourceName [of p l n E] job_ParseName_sound [of E s p l n] by blast

text \<open>
  NextRun returns an instant strictly after the given one, also when both are cut to the
  milliseconds the database stores.
\<close>

theorem next_run_later:
  assumes "cron_later E" and "NextRun E spec tz t = Inr nxt"
  shows "t < nxt \<and> unix_milli t < unix_milli nxt \<and> \<not> is_zero nxt"
  using NextRun_later [OF assms] NextRun_milli [OF assms] by simp

theorem next_run_later_witness: "Second < (60 * Second :: time)"
proof -
  have "NextRun demo_ext ''* * * * *'' [] Second = Inr (60 * Second)" using demo_NextRun [of 1 "[]"] by simp
  from next_run_later [OF demo_cron_later this] show ?thesis by simp
qed

text \<open>
  C25: a created job reads back as it was written, with durations and times cut to milliseconds and
  an empty header map as none; a second Create under the name fails with ErrAlreadyExists.
\<close>

theorem job_create_get:
  assumes "db_ok d" and "find_job (job_ResourceName (j_Project j) (j_Location j) (j_Name j)) d = None"
    and "\<forall>h. j_Headers j = Some h \<and> h \<noteq> [] \<longrightarrow> json_reads_back E h"
    and "nonneg_dur (j_AttemptDeadline j)" "nonneg_dur (MaxRetryDuration (j_Retry j))"
    and "nonneg_dur (MinBackoff (j_Retry j))" "nonneg_dur (MaxBackoff (j_Retry j))"
  shows "\<exists>d'. job_Create E now j d = (Inr (job_stamped now j), d')
    \<and> job_Get E (job_ResourceName (j_Project j) (j_Location j) (j_Name j)) d' = (Inr (Some (job_read_back now j)), d')
    \<and> job_Create E now j d' = (Inl JobAlreadyExists, d')"
proof -
  let ?id = "job_ResourceName (j_Project j) (j_Location j) (j_Name j)"
  let ?d = "d\<lparr>job_tbl := job_tbl d @ [job_insert_row E (job_stamped now j)]\<rparr>"
  have c: "job_Create E now j d = (Inr (job_stamped now j), ?d)"
    using assms(1,2) by (simp add: job_Create_ok)
  have "db_ok ?d" by (rule job_repo.create_ok [OF assms(1) c])
  moreover have "job_lookup E ?id ?d = Some (job_read_back now j)"
    using job_repo.create_lookup [OF assms(1) c] scanJob_insert_row [OF assms(3-7)] by simp
  ultimately show ?thesis
    using c job_repo.create_twice [OF assms(1) c refl] by (auto simp: job_Get_lookup)
qed

theorem job_create_get_witness:
  "\<exists>d'. job_Create demo_ext 0 demo_ready empty_db = (Inr (job_stamped 0 demo_ready), d')
    \<and> job_Get demo_ext ''projects/p/locations/l/jobs/j'' d' = (Inr (Some (job_read_back 0 demo_ready)), d')"
proof -
  have n: "job_ResourceName (j_Project demo_ready) (j_Location demo_ready) (j_Name demo_ready) = ''projects/p/locations/l/jobs/j''"
    by (simp add: demo_ready_fields job_ResourceName_def)
  have h: "j_Headers demo_ready = Some [(''K'', ''v'')]" by (rule demo_ready_fields)
  have "json_reads_back demo_ext [(''K'', ''v'')]" by code_simp
  moreover have "db_ok empty_db" by (simp add: db_ok_def) (simp add: empty_db_def)
  moreover have "find_job ''projects/p/locations/l/jobs/j'' empty_db = None" by (simp add: find_job_def empty_db_def)
  moreover have "nonneg_dur (j_AttemptDeadline demo_ready)" "nonneg_dur (MaxRetryDuration (j_Retry demo_ready))"
    "nonneg_dur (MinBackoff (j_Retry demo_ready))" "nonneg_dur (MaxBackoff (j_Retry demo_ready))"
    by (simp_all add: demo_ready_fields nonneg_dur_def)
  ultimately show ?thesis using job_create_get [of empty_db demo_ready demo_ext 0] by (auto simp: n h)
qed

text \<open>
  C26: of any sequence of claims of runs, by any number of pollers that read the same schedule, the
  successful ones are for pairwise different jobs, and are those of the enabled jobs still due for
  the run read.
\<close>

theorem job_claims_exclusive:
  assumes "claims_ok old new d" and "winners (try_claim_job old new) ks d = (ws, d')"
  shows "distinct ws \<and> set ws = {k \<in> set ks. job_claim_free old k d} \<and> (\<forall>k \<in> set ks. \<not> job_claim_free old k d')"
  using job_claims.winners_spec [OF assms] by simp

theorem job_claims_exclusive_witness:
  "distinct (fst (winners (try_claim_job (\<lambda>_. 120 * Second) (\<lambda>_. 180 * Second))
     [''projects/p/locations/l/jobs/j'', ''x'', ''projects/p/locations/l/jobs/j''] demo_jobs))"
proof -
  have "claims_ok (\<lambda>_. 120 * Second) (\<lambda>_. 180 * Second) demo_jobs"
    using demo_jobs_ok by (simp add: claims_ok_def ms_def is_zero_def zero_time_def unix_milli_def)
  from job_claims_exclusive [OF this prod.collapse [symmetric]] show ?thesis by blast
qed

text \<open>
  An update mask field by field: the names it may use, the job it gives when \<open>named\<close> says which names
  it holds, and the names an empty mask stands for.
\<close>

definition mask_names :: "string list" where
  "mask_names = [''description'', ''schedule'', ''time_zone'', ''attempt_deadline'', ''http_target'',
     ''http_target.uri'', ''http_target.http_method'', ''http_target.headers'', ''http_target.body'',
     ''retry_config'', ''retry_config.retry_count'', ''retry_config.max_retry_duration'',
     ''retry_config.min_backoff_duration'', ''retry_config.max_backoff_duration'', ''retry_config.max_doublings'']"

definition masked :: "(string \<Rightarrow> bool) \<Rightarrow> Job \<Rightarrow> Job \<Rightarrow> Job" where
  "masked named p j =
     j\<lparr>j_Description := (if named ''description'' then j_Description p else j_Description j),
       j_Schedule := (if named ''schedule'' then j_Schedule p else j_Schedule j),
       j_TimeZone := (if named ''time_zone'' then j_TimeZone p else j_TimeZone j),
       j_AttemptDeadline := (if named ''attempt_deadline'' then j_AttemptDeadline p else j_AttemptDeadline j),
       j_URL := (if named ''http_target'' \<or> named ''http_target.uri'' then j_URL p else j_URL j),
       j_HTTPMethod := (if named ''http_target'' \<or> named ''http_target.http_method'' then j_HTTPMethod p else j_HTTPMethod j),
       j_Headers := (if named ''http_target'' \<or> named ''http_target.headers'' then j_Headers p else j_Headers j),
       j_Body := (if named ''http_target'' \<or> named ''http_target.body'' then j_Body p else j_Body j),
       j_Retry :=
         \<lparr>RetryCount = (if named ''retry_config'' \<or> named ''retry_config.retry_count''
            then RetryCount (j_Retry p) else RetryCount (j_Retry j)),
          MaxRetryDuration = (if named ''retry_config'' \<or> named ''retry_config.max_retry_duration''
            then MaxRetryDuration (j_Retry p) else MaxRetryDuration (j_Retry j)),
          MinBackoff = (if named ''retry_config'' \<or> named ''retry_config.min_backoff_duration''
            then MinBackoff (j_Retry p) else MinBackoff (j_Retry j)),
          MaxBackoff = (if named ''retry_config'' \<or> named ''retry_config.max_backoff_duration''
            then MaxBackoff (j_Retry p) else MaxBackoff (j_Retry j)),
          MaxDoublings = (if named ''retry_config'' \<or> named ''retry_config.max_doublings''
            then MaxDoublings (j_Retry p) else MaxDoublings (j_Retry j))\<rparr>\<rparr>"

definition nonzero_names :: "Job \<Rightarrow> string list" where
  "nonzero_names p = map fst (filter snd
     [(''description'', j_Description p \<noteq> []), (''schedule'', j_Schedule p \<noteq> []), (''time_zone'', j_TimeZone p \<noteq> []),
      (''attempt_deadline'', j_AttemptDeadline p \<noteq> 0), (''http_target.uri'', j_URL p \<noteq> []),
      (''http_target.http_method'', j_HTTPMethod p \<noteq> []), (''http_target.headers'', j_Headers p \<noteq> None),
      (''http_target.body'', j_Body p \<noteq> None), (''retry_config.retry_count'', RetryCount (j_Retry p) \<noteq> 0),
      (''retry_config.max_retry_duration'', MaxRetryDuration (j_Retry p) \<noteq> 0),
      (''retry_config.min_backoff_duration'', MinBackoff (j_Retry p) \<noteq> 0),
      (''retry_config.max_backoff_duration'', MaxBackoff (j_Retry p) \<noteq> 0),
      (''retry_config.max_doublings'', MaxDoublings (j_Retry p) \<noteq> 0)])"

lemma masked_none: "masked (\<lambda>_. False) p j = j"
  by (simp add: masked_def)

lemma masked_twice: "masked M p (masked N p j) = masked (\<lambda>n. N n \<or> M n) p j"
  by (intro Job.equality RetryConfig.equality) (simp_all add: masked_def)

lemma masked_identity: "same_identity j (masked M p j)"
  by (simp add: masked_def same_identity_def)

lemma patch_path_masked:
  "patch_path p n j = (if n \<in> set mask_names then Some (masked (\<lambda>x. x = n) p j) else None)"
proof (cases "n \<in> set mask_names")
  case True
  have "list_all (\<lambda>n. patch_path p n j = Some (masked (\<lambda>x. x = n) p j)) mask_names"
    unfolding mask_names_def list.pred_inject
    by (intro conjI; cases j; cases "j_Retry p"; cases "j_Retry j") (simp_all add: patch_path_def masked_def)
  with True show ?thesis by (simp add: list_all_iff)
qed (simp add: patch_path_def mask_names_def)

lemma patch_paths_masked:
  "patch_paths E p paths j =
     (case find (\<lambda>raw. snake E (trim_space raw) \<notin> set mask_names) paths of
        Some raw \<Rightarrow> Inl (ValidationError (''unsupported update mask path '' @ quote E raw))
      | None \<Rightarrow> Inr (masked (\<lambda>n. n \<in> set (map (\<lambda>raw. snake E (trim_space raw)) paths)) p j))"
proof (induction paths arbitrary: j)
  case Nil
  show ?case by (simp add: masked_none)
next
  case (Cons raw paths)
  show ?case
  proof (cases "snake E (trim_space raw) \<in> set mask_names")
    case True
    then have step: "patch_paths E p (raw # paths) j = patch_paths E p paths (masked (\<lambda>x. x = snake E (trim_space raw)) p j)"
      by (simp add: patch_path_masked)
    show ?thesis unfolding step Cons.IH masked_twice using True by (simp split: option.split)
  qed (simp add: patch_path_masked)
qed

lemma marked_names: "n \<in> set (map fst (filter snd xs)) \<longleftrightarrow> (n, True) \<in> set xs"
  by force

lemma patch_nonzero_masked: "patch_nonzero j p = masked (\<lambda>n. n \<in> set (nonzero_names p)) p j"
  unfolding nonzero_names_def marked_names masked_def patch_nonzero_def by (simp add: Let_def)

text \<open>
  C27: what an update mask does, for every mask: a path that names no field of a job is refused, the
  first such path being reported; otherwise each configuration field is the patch's when a path names
  it or its group, and unchanged when none does, an empty mask standing for the fields of the patch
  that are not zero. Name, state, run times and the record of attempts never change.
\<close>

theorem update_mask_frame:
  "applyPatch E j p paths =
     (case find (\<lambda>raw. snake E (trim_space raw) \<notin> set mask_names) paths of
        Some raw \<Rightarrow> Inl (ValidationError (''unsupported update mask path '' @ quote E raw))
      | None \<Rightarrow> Inr (masked (\<lambda>n. n \<in> set (if paths = [] then nonzero_names p
                                  else map (\<lambda>raw. snake E (trim_space raw)) paths)) p j))
   \<and> same_identity j (masked M p j)"
  using patch_paths_masked [of E p paths j] patch_nonzero_masked [of j p] masked_identity [of j M p]
  by (cases "paths = []") (simp_all add: applyPatch_def)

text \<open>
  Every attempt carries the job's name, the time it was scheduled for and its own number, and
  an Authorization header the job brings along is sent as it is.
\<close>

theorem attempt_headers:
  "let h = rq_headers (job_request E env now j scheduled n) in
     header_get h ''X-CloudScheduler-AttemptNumber'' = itoa n
   \<and> header_get h ''X-CloudScheduler-JobName'' = j_Name j
   \<and> header_get h ''X-CloudScheduler-ScheduleTime'' = rfc3339 scheduled
   \<and> header_get h ''Authorization'' =
       (let a = header_get (set_all (j_Headers j) Map.empty) ''Authorization'' in
        if a \<noteq> [] then a else let t = Bearer E env now in if t \<noteq> [] then ''Bearer '' @ t else a)"
  by (simp add: job_request_def Let_def header_get_set auth_Apply_def canonical_consts)

end
