(* ===== verification/Float64.thy ===== *)
theory Float64
  imports Complex_Main "HOL-Library.Log_Nat" Emu_Prelude
begin

text \<open>
  Go's \<^verbatim>\<open>float64\<close> as the worker's token bucket uses it: rationals, with every operation rounded to
  the nearest number of 53 significant bits, ties to even. The values that occur are far from the
  smallest and largest exponents, so the exponent is not bounded here. The bucket's proofs need
  only what \<open>float_rounding\<close> states; the interpretation shows it of the concrete rounding.
\<close>

section \<open>The interface\<close>

locale float_rounding =
  fixes fl :: "rat \<Rightarrow> rat"
  assumes fl_mono: "x \<le> y \<Longrightarrow> fl x \<le> fl y"
    and fl_int: "\<bar>n\<bar> \<le> 2 ^ 53 \<Longrightarrow> fl (of_int n) = of_int n"
begin

lemma fl_0 [simp]: "fl 0 = 0"
  using fl_int [of 0] by simp

lemma fl_nonneg: "0 \<le> x \<Longrightarrow> 0 \<le> fl x"
  using fl_mono [of 0 x] by simp

lemma fl_ge_int: "\<bar>n\<bar> \<le> 2 ^ 53 \<Longrightarrow> of_int n \<le> x \<Longrightarrow> of_int n \<le> fl x"
  using fl_mono [of "of_int n" x] fl_int [of n] by simp

lemma fl_le_int: "\<bar>n\<bar> \<le> 2 ^ 53 \<Longrightarrow> x \<le> of_int n \<Longrightarrow> fl x \<le> of_int n"
  using fl_mono [of x "of_int n"] fl_int [of n] by simp

end

section \<open>Rounding to 53 bits\<close>

definition rne :: "rat \<Rightarrow> int" where
  "rne x =
     (let f = \<lfloor>x\<rfloor>; r = x - of_int f
      in if r < 1 / 2 then f else if 1 / 2 < r then f + 1 else if even f then f else f + 1)"

definition ilog2 :: "rat \<Rightarrow> int" where
  "ilog2 x =
     (case quotient_of x of (p, q) \<Rightarrow>
      let k = bitlen p - bitlen q in if 2 powi k \<le> x then k else k - 1)"

definition round53_pos :: "rat \<Rightarrow> rat" where
  "round53_pos x = (let e = ilog2 x in of_int (rne (x * 2 powi (52 - e))) * 2 powi (e - 52))"

definition fl64 :: "rat \<Rightarrow> rat" where
  "fl64 x = (if x = 0 then 0 else if 0 < x then round53_pos x else - round53_pos (- x))"

lemma rne_bounds: "\<lfloor>x\<rfloor> \<le> rne x" "rne x \<le> \<lfloor>x\<rfloor> + 1"
  by (auto simp: rne_def Let_def)

lemma rne_int [simp]: "rne (of_int n) = n"
  by (simp add: rne_def)

lemma rne_numeral [simp]: "rne (numeral k) = numeral k"
  using rne_int [of "numeral k"] by simp

lemma rne_mono:
  assumes "x \<le> y"
  shows "rne x \<le> rne y"
proof (cases "\<lfloor>x\<rfloor> = \<lfloor>y\<rfloor>")
  case True
  then show ?thesis using assms by (auto simp: rne_def Let_def)
next
  case False
  then have "\<lfloor>x\<rfloor> + 1 \<le> \<lfloor>y\<rfloor>" using floor_mono [OF assms] by simp
  with rne_bounds(2) [of x] rne_bounds(1) [of y] show ?thesis by linarith
qed

lemma ilog2_bounds:
  assumes "0 < x"
  shows "2 powi ilog2 x \<le> x" "x < 2 powi (ilog2 x + 1)"
proof -
  obtain p q where pq: "quotient_of x = (p, q)" by (cases "quotient_of x")
  have q: "0 < q" by (rule quotient_of_denom_pos [OF pq])
  have x: "x = of_int p / of_int q" by (rule quotient_of_div [OF pq])
  have p: "0 < p" using assms q by (simp add: x zero_less_divide_iff)
  define bp bq where "bp = bitlen p" and "bq = bitlen q"
  have b: "2 ^ nat (bp - 1) \<le> p" "p < 2 ^ nat bp" "2 ^ nat (bq - 1) \<le> q" "q < 2 ^ nat bq" "0 < bp" "0 < bq"
    using bitlen_bounds [OF p] bitlen_bounds [OF q] bitlen_nonneg [of p] bitlen_nonneg [of q]
      bitlen_eq_zero_iff [of p] bitlen_eq_zero_iff [of q] p q
    by (auto simp: bp_def bq_def)
  have pw: "(2 :: rat) powi k = of_int (2 ^ nat k)" if "0 \<le> k" for k
    using that by (simp add: power_int_def)
  have P: "2 powi (bp - 1) \<le> (of_int p :: rat)" "(of_int p :: rat) < 2 powi bp"
    and Q: "2 powi (bq - 1) \<le> (of_int q :: rat)" "(of_int q :: rat) < 2 powi bq"
    using b by (simp_all only: pw of_int_le_iff of_int_less_iff)
  have hi: "x < 2 powi (bp - bq + 1)"
  proof -
    have "of_int p < (2 :: rat) powi (bp - bq + 1) * 2 powi (bq - 1)"
      using P(2) by (simp add: power_int_add [symmetric])
    also have "\<dots> \<le> 2 powi (bp - bq + 1) * of_int q" using Q(1) by (intro mult_left_mono) simp_all
    finally show ?thesis using q by (simp add: x divide_less_eq)
  qed
  have lo: "2 powi (bp - bq - 1) \<le> x"
  proof -
    have "(2 :: rat) powi (bp - bq - 1) * of_int q \<le> 2 powi (bp - bq - 1) * 2 powi bq"
      using Q(2) by (intro mult_left_mono) simp_all
    also have "\<dots> = 2 powi (bp - 1)" by (simp add: power_int_add [symmetric])
    also have "\<dots> \<le> of_int p" by (rule P(1))
    finally show ?thesis using q by (simp add: x le_divide_eq)
  qed
  have e: "ilog2 x = (if 2 powi (bp - bq) \<le> x then bp - bq else bp - bq - 1)"
    by (simp add: ilog2_def pq bp_def bq_def Let_def)
  show "2 powi ilog2 x \<le> x" "x < 2 powi (ilog2 x + 1)"
    using lo hi by (auto simp: e not_le)
qed

lemma round53_pos_bounds:
  assumes "0 < x"
  shows "2 powi ilog2 x \<le> round53_pos x" "round53_pos x \<le> 2 powi (ilog2 x + 1)"
proof -
  define e where "e = ilog2 x"
  define y where "y = x * 2 powi (52 - e)"
  have s: "(0 :: rat) \<le> 2 powi (52 - e)" "(0 :: rat) \<le> 2 powi (e - 52)" by simp_all
  have "2 powi e * 2 powi (52 - e) \<le> y" "y \<le> 2 powi (e + 1) * 2 powi (52 - e)"
    unfolding y_def using ilog2_bounds [OF assms] by (auto simp: e_def intro: mult_right_mono)
  then have y: "of_int (2 ^ 52) \<le> y" "y \<le> of_int (2 ^ 53)"
    by (simp_all add: power_int_add [symmetric])
  have "rne (of_int (2 ^ 52)) \<le> rne y" "rne y \<le> rne (of_int (2 ^ 53))"
    by (rule rne_mono [OF y(1)], rule rne_mono [OF y(2)])
  then have r: "(of_int (2 ^ 52) :: rat) \<le> of_int (rne y)" "of_int (rne y) \<le> (of_int (2 ^ 53) :: rat)"
    by (simp_all only: rne_int of_int_le_iff)
  have d: "round53_pos x = of_int (rne y) * 2 powi (e - 52)"
    by (simp add: round53_pos_def y_def e_def Let_def)
  have "(2 :: rat) powi e = of_int (2 ^ 52) * 2 powi (e - 52)"
    by (simp add: power_int_diff)
  also have "\<dots> \<le> round53_pos x" unfolding d using r(1) s(2) by (rule mult_right_mono)
  finally show "2 powi ilog2 x \<le> round53_pos x" by (simp add: e_def)
  have "round53_pos x \<le> of_int (2 ^ 53) * 2 powi (e - 52)"
    unfolding d using r(2) s(2) by (rule mult_right_mono)
  also have "\<dots> = 2 powi (e + 1)" by (simp add: power_int_diff power_int_add)
  finally show "round53_pos x \<le> 2 powi (ilog2 x + 1)" by (simp add: e_def)
qed

lemma round53_pos_pos: "0 < x \<Longrightarrow> 0 < round53_pos x"
  using round53_pos_bounds(1) [of x] zero_less_power_int [of "2 :: rat" "ilog2 x"] by linarith

lemma ilog2_mono:
  assumes "0 < x" "x \<le> y"
  shows "ilog2 x \<le> ilog2 y"
proof -
  have l: "(2 :: rat) powi ilog2 x < 2 powi (ilog2 y + 1)"
    using ilog2_bounds(1) [OF assms(1)] ilog2_bounds(2) [of y] assms by linarith
  show ?thesis
  proof (rule ccontr)
    assume "\<not> ilog2 x \<le> ilog2 y"
    then have "(2 :: rat) powi (ilog2 y + 1) \<le> 2 powi ilog2 x" by (intro power_int_increasing) simp_all
    with l show False by simp
  qed
qed

lemma round53_pos_mono:
  assumes "0 < x" "x \<le> y"
  shows "round53_pos x \<le> round53_pos y"
proof (cases "ilog2 x = ilog2 y")
  case True
  have "rne (x * 2 powi (52 - ilog2 y)) \<le> rne (y * 2 powi (52 - ilog2 y))"
    using assms(2) by (intro rne_mono mult_right_mono) simp_all
  then show ?thesis unfolding round53_pos_def Let_def True by (intro mult_right_mono) simp_all
next
  case False
  then have "ilog2 x + 1 \<le> ilog2 y" using ilog2_mono [OF assms] by simp
  then have "(2 :: rat) powi (ilog2 x + 1) \<le> 2 powi ilog2 y" by (intro power_int_increasing) simp_all
  with round53_pos_bounds(2) [OF assms(1)] round53_pos_bounds(1) [of y] assms show ?thesis by linarith
qed

lemma round53_pos_int:
  assumes "0 < n" "n \<le> 2 ^ 53"
  shows "round53_pos (of_int n) = of_int n"
proof -
  define e where "e = ilog2 (of_int n)"
  have b: "2 powi e \<le> (of_int n :: rat)" using ilog2_bounds(1) [of "of_int n"] assms(1) by (simp add: e_def)
  show ?thesis
  proof (cases "e \<le> 52")
    case True
    then have "(of_int n :: rat) * 2 powi (52 - e) = of_int (n * 2 ^ nat (52 - e))"
      by (simp add: power_int_def)
    then have "rne (of_int n * 2 powi (52 - e)) = n * 2 ^ nat (52 - e)" by (simp only: rne_int)
    then have "round53_pos (of_int n) = of_int n * (2 powi (52 - e) * 2 powi (e - 52))"
      using True by (simp add: round53_pos_def Let_def flip: e_def) (simp add: power_int_def)
    also have "(2 :: rat) powi (52 - e) * 2 powi (e - 52) = 1" by (simp add: power_int_add [symmetric])
    finally show ?thesis by simp
  next
    case False
    then have "(2 :: rat) powi 53 \<le> 2 powi e" by (intro power_int_increasing) simp_all
    also have "\<dots> \<le> of_int n" by (rule b)
    also have "of_int n \<le> (of_int (2 ^ 53) :: rat)" using assms(2) by (simp only: of_int_le_iff)
    finally have "of_int n = (of_int (2 ^ 53) :: rat)"
      using \<open>of_int n \<le> of_int (2 ^ 53)\<close> \<open>2 powi 53 \<le> 2 powi e\<close> b by (simp add: power_int_def)
    then have n: "n = 2 ^ 53" by (simp only: of_int_eq_iff)
    have "ilog2 (of_int n) = 53" unfolding n by code_simp
    then show ?thesis unfolding n by (simp add: round53_pos_def Let_def power_int_def)
  qed
qed

text \<open>A number that needs no more than 53 bits is not changed; halves of a second are such numbers.\<close>

lemma round53_pos_exact:
  assumes "x * 2 powi (52 - ilog2 x) = of_int m"
  shows "round53_pos x = x"
proof -
  have "round53_pos x = x * (2 powi (52 - ilog2 x) * 2 powi (ilog2 x - 52))"
    using assms by (simp add: round53_pos_def Let_def)
  also have "(2 :: rat) powi (52 - ilog2 x) * 2 powi (ilog2 x - 52) = 1" by (simp add: power_int_add [symmetric])
  finally show ?thesis by simp
qed

lemma fl64_half:
  assumes "0 \<le> n" "n < 2 ^ 51"
  shows "fl64 (of_int n + 1 / 2) = of_int n + 1 / 2"
proof -
  let ?x = "of_int n + 1 / 2 :: rat"
  have x: "0 < ?x" using assms(1) by (intro add_nonneg_pos) simp_all
  have "(of_int n :: rat) < of_int (2 ^ 51)" using assms(2) by (simp only: of_int_less_iff)
  then have u: "?x < 2 powi 52" by (simp add: power_int_def)
  have e: "ilog2 ?x \<le> 51"
  proof (rule ccontr)
    assume "\<not> ilog2 ?x \<le> 51"
    then have "(2 :: rat) powi 52 \<le> 2 powi ilog2 ?x" by (intro power_int_increasing) simp_all
    with ilog2_bounds(1) [OF x] u show False by linarith
  qed
  have "(2 :: rat) powi (52 - ilog2 ?x) = 2 * 2 ^ nat (51 - ilog2 ?x)"
    using e power_int_add [of "2 :: rat" 1 "51 - ilog2 ?x"] by (simp add: power_int_def)
  then have "?x * 2 powi (52 - ilog2 ?x) = of_int ((2 * n + 1) * 2 ^ nat (51 - ilog2 ?x))"
    by (simp add: distrib_right)
  from round53_pos_exact [OF this] x show ?thesis by (simp add: fl64_def)
qed

interpretation float64: float_rounding fl64
proof (unfold_locales, goal_cases)
  case (1 x y)
  consider "0 < x" | "x \<le> 0" "0 \<le> y" | "y < 0" using 1 by linarith
  then show ?case
  proof cases
    case 1
    with \<open>x \<le> y\<close> round53_pos_mono [of x y] show ?thesis by (simp add: fl64_def)
  next
    case 2
    then show ?thesis using round53_pos_pos [of y] round53_pos_pos [of "- x"] by (auto simp: fl64_def)
  next
    case 3
    with \<open>x \<le> y\<close> round53_pos_mono [of "- y" "- x"] show ?thesis by (simp add: fl64_def)
  qed
next
  case (2 n)
  then show ?case
    using round53_pos_int [of n] round53_pos_int [of "- n"] by (auto simp: fl64_def)
qed

end
