(* ===== verification/Go_Float.thy ===== *)
theory Go_Float
  imports Float64 Externals
begin

text \<open>
  Go's conversions between \<^verbatim>\<open>float64\<close>, integers and durations, and the comparisons the source makes
  on parsed floats, infinities and NaN included.
\<close>

text \<open>\<^verbatim>\<open>int(f)\<close> truncates; out of range it is the smallest integer, as on amd64.\<close>

definition go_int :: "rat \<Rightarrow> int" where
  "go_int x =
     (let n = (if 0 \<le> x then \<lfloor>x\<rfloor> else - \<lfloor>- x\<rfloor>) in if in_i64 n then n else - (2 ^ 63))"

fun float_int :: "go_float \<Rightarrow> int" where
  "float_int (Fin x) = go_int x"
| "float_int _ = - (2 ^ 63)"

text \<open>Arithmetic with a finite operand; comparisons with NaN are false.\<close>

fun float_add :: "go_float \<Rightarrow> rat \<Rightarrow> go_float" where
  "float_add (Fin x) y = Fin (fl64 (x + y))"
| "float_add f y = f"

fun float_mul_pos :: "go_float \<Rightarrow> rat \<Rightarrow> go_float" where
  "float_mul_pos (Fin x) y = Fin (fl64 (x * y))"
| "float_mul_pos f y = f"

fun float_le0 :: "go_float \<Rightarrow> bool" where
  "float_le0 (Fin x) \<longleftrightarrow> x \<le> 0"
| "float_le0 (Infinite neg) \<longleftrightarrow> neg"
| "float_le0 NaN \<longleftrightarrow> False"

fun float_lt0 :: "go_float \<Rightarrow> bool" where
  "float_lt0 (Fin x) \<longleftrightarrow> x < 0"
| "float_lt0 (Infinite neg) \<longleftrightarrow> neg"
| "float_lt0 NaN \<longleftrightarrow> False"

text \<open>\<^verbatim>\<open>Duration.Seconds\<close> adds whole seconds and the fraction as floats.\<close>

definition dur_seconds :: "duration \<Rightarrow> rat" where
  "dur_seconds d =
     (let sec = go_div d Second; nsec = d - sec * Second
      in fl64 (fl64 (of_int sec) + fl64 (fl64 (of_int nsec) / 1000000000)))"

lemma dur_seconds_nonneg: "0 \<le> d \<Longrightarrow> 0 \<le> dur_seconds d"
proof -
  assume d: "0 \<le> d"
  have "0 \<le> d div Second" "0 \<le> d - d div Second * Second"
    using d pos_mod_sign [of Second d] by (simp_all add: pos_imp_zdiv_nonneg_iff minus_div_mult_eq_mod)
  with d show ?thesis
    unfolding dur_seconds_def Let_def
    by (simp only: go_div_nonneg zero_less_numeral)
      (intro float64.fl_nonneg add_nonneg_nonneg divide_nonneg_nonneg, simp_all)
qed

lemma go_int_le: "0 \<le> x \<Longrightarrow> 0 < go_int x \<Longrightarrow> of_int (go_int x) \<le> x"
  by (auto simp: go_int_def Let_def split: if_splits)

lemma go_int_pos: "1 \<le> x \<Longrightarrow> x < 2 ^ 63 \<Longrightarrow> 1 \<le> go_int x"
proof -
  assume x: "1 \<le> x" "x < 2 ^ 63"
  have "1 \<le> \<lfloor>x\<rfloor>" using x(1) by simp
  moreover have "\<lfloor>x\<rfloor> < 2 ^ 63" using x(2) by (simp add: floor_less_iff)
  ultimately show ?thesis using x by (simp add: go_int_def Let_def in_i64_def)
qed

end
