(* ===== verification/Worker.thy ===== *)
theory Worker
  imports Tasks Auth_Config Go_Float
begin

text \<open>
  worker/worker.go: the poll that claims due tasks under the worker's concurrency, the queue's
  concurrency and the queue's dispatch rate, the HTTP dispatch of a claimed task, and the retry
  bookkeeping. This theory has the sections of the code between two synchronisation points as
  functions and their sequential composition; \<^verbatim>\<open>Worker_Run\<close> lets them interleave.
\<close>

section \<open>State\<close>

record bucket =
  tokens :: rat
  last_refill :: time

text \<open>
  \<^verbatim>\<open>inflight\<close> reads 0 for a queue without an entry; \<open>sem_len\<close> is \<^verbatim>\<open>len(sem)\<close>, the dispatches
  that hold one of the \<^verbatim>\<open>cap(sem)\<close> slots.
\<close>

record worker =
  inflight :: "string \<Rightarrow> int"
  buckets :: "string \<rightharpoonup> bucket"
  sem_len :: int

definition worker_New :: worker where
  "worker_New = \<lparr>inflight = (\<lambda>_. 0), buckets = Map.empty, sem_len = 0\<rparr>"

section \<open>Token bucket\<close>

text \<open>\<^verbatim>\<open>Time.Sub\<close> saturates.\<close>

definition time_sub :: "time \<Rightarrow> time \<Rightarrow> duration" where
  "time_sub a b = max (- (2 ^ 63)) (min (2 ^ 63 - 1) (a - b))"

definition refill :: "time \<Rightarrow> rat \<Rightarrow> bucket \<Rightarrow> bucket" where
  "refill now rate b =
     (let capacity = max 1 rate
      in b\<lparr>tokens := min capacity (fl64 (tokens b + fl64 (dur_seconds (time_sub now (last_refill b)) * rate))),
           last_refill := now\<rparr>)"

section \<open>Poll\<close>

text \<open>
  \<^verbatim>\<open>scanQueue\<close> always sets the limits, so the nil pointer is not met; it reads here as no limits.
\<close>

definition limits_of :: "Queue \<Rightarrow> RateLimits" where
  "limits_of q =
     (case q_RateLimits q of Some l \<Rightarrow> l | None \<Rightarrow> \<lparr>MaxDispatchesPerSecond = 0, MaxConcurrentDispatches = 0\<rparr>)"

text \<open>The section under the mutex: the limit for this queue, whether a bucket applies, the worker.\<close>

definition queue_limit :: "time \<Rightarrow> Queue \<Rightarrow> int \<Rightarrow> worker \<Rightarrow> int \<times> bool \<times> worker" where
  "queue_limit now q room w =
     (let mc = MaxConcurrentDispatches (limits_of q);
          rate = MaxDispatchesPerSecond (limits_of q);
          limit = (if mc > 0 then min room (mc - inflight w (q_ID q)) else room)
      in if rate > 0
         then (let b = (case buckets w (q_ID q) of
                          None \<Rightarrow> \<lparr>tokens = max 1 (fl64 (of_int rate)), last_refill = now\<rparr>
                        | Some b \<Rightarrow> b);
                   b = refill now (fl64 (of_int rate)) b
               in (min limit (go_int (tokens b)), True, w\<lparr>buckets := (buckets w)(q_ID q \<mapsto> b)\<rparr>))
         else (limit, False, w))"

text \<open>The section after a successful claim: count the dispatch, take a token.\<close>

definition count_start :: "Queue \<Rightarrow> bool \<Rightarrow> worker \<Rightarrow> worker" where
  "count_start q useb w =
     w\<lparr>inflight := (inflight w)(q_ID q := inflight w (q_ID q) + 1),
       buckets := (if useb
         then (case buckets w (q_ID q) of
                 None \<Rightarrow> buckets w
               | Some b \<Rightarrow> (buckets w)(q_ID q \<mapsto> b\<lparr>tokens := fl64 (tokens b - 1)\<rparr>))
         else buckets w)\<rparr>"

text \<open>The deferred section of the dispatch goroutine, and giving back the slot.\<close>

definition count_end :: "Task \<Rightarrow> worker \<Rightarrow> worker" where
  "count_end t w = w\<lparr>inflight := (inflight w)(t_QueueID t := inflight w (t_QueueID t) - 1)\<rparr>"

definition sem_release :: "worker \<Rightarrow> worker" where
  "sem_release w = w\<lparr>sem_len := sem_len w - 1\<rparr>"

definition sem_acquire :: "int \<Rightarrow> worker \<Rightarrow> worker option" where
  "sem_acquire cap w = (if sem_len w < cap then Some (w\<lparr>sem_len := sem_len w + 1\<rparr>) else None)"

text \<open>
  The inner loop: the first component tells that the poll returns because no slot is free, the
  second lists the tasks whose dispatch was started.
\<close>

fun poll_tasks :: "int \<Rightarrow> Queue \<Rightarrow> bool \<Rightarrow> Task list \<Rightarrow> worker \<Rightarrow> db \<Rightarrow> bool \<times> Task list \<times> worker \<times> db" where
  "poll_tasks cap q useb [] w d = (False, [], w, d)"
| "poll_tasks cap q useb (t # ts) w d =
     (case sem_acquire cap w of
        None \<Rightarrow> (True, [], w, d)
      | Some w \<Rightarrow>
          (case task_Claim (t_ID t) d of
             (Inr True, d) \<Rightarrow>
               (case poll_tasks cap q useb ts (count_start q useb w) d of
                  (stop, started, w, d) \<Rightarrow> (stop, t # started, w, d))
           | (_, d) \<Rightarrow> poll_tasks cap q useb ts (sem_release w) d))"

fun poll_queues :: "ext \<Rightarrow> int \<Rightarrow> time \<Rightarrow> (string \<Rightarrow> time) \<Rightarrow> Queue list \<Rightarrow> worker \<Rightarrow> db \<Rightarrow> Task list \<times> worker \<times> db" where
  "poll_queues E cap now clk [] w d = ([], w, d)"
| "poll_queues E cap now clk (q # qs) w d =
     (if Paused q then poll_queues E cap now clk qs w d
      else let room = cap - sem_len w in
      if room \<le> 0 then ([], w, d)
      else case queue_limit now q room w of (limit, useb, w) \<Rightarrow>
      if limit \<le> 0 then poll_queues E cap now clk qs w d
      else case task_ListPendingForQueue E (clk (q_ID q)) (q_ID q) limit d of
        (Inl _, d) \<Rightarrow> poll_queues E cap now clk qs w d
      | (Inr pending, d) \<Rightarrow>
          (case poll_tasks cap q useb pending w d of (stop, started, w, d) \<Rightarrow>
             if stop then (started, w, d)
             else case poll_queues E cap now clk qs w d of (rest, w, d) \<Rightarrow> (started @ rest, w, d)))"

definition pollAndDispatch :: "ext \<Rightarrow> int \<Rightarrow> time \<Rightarrow> (string \<Rightarrow> time) \<Rightarrow> worker \<Rightarrow> db \<Rightarrow> Task list \<times> worker \<times> db" where
  "pollAndDispatch E cap now clk w d =
     (case queue_ListAll E d of
        (Inl _, d) \<Rightarrow> ([], w, d)
      | (Inr qs, d) \<Rightarrow> poll_queues E cap now clk qs w d)"

section \<open>Dispatch\<close>

text \<open>\<^verbatim>\<open>path.Base\<close>.\<close>

definition path_base :: "string \<Rightarrow> string" where
  "path_base p =
     (if p = [] then ''.''
      else let t = rev (dropWhile (\<lambda>c. c = slash) (rev p)) in if t = [] then ''/'' else after_last slash t)"

text \<open>\<^verbatim>\<open>strconv.FormatFloat(x, 'f', 3, 64)\<close>: the exact value, rounded to three decimals.\<close>

definition fmt_f3 :: "rat \<Rightarrow> string" where
  "fmt_f3 x =
     (let n = rne (\<bar>x\<bar> * 1000)
      in (if x < 0 then ''-'' else []) @ itoa (n div 1000) @ ''.'' @ zpad 3 (n mod 1000))"

definition dispatch_timeout :: "Config \<Rightarrow> Task \<Rightarrow> duration" where
  "dispatch_timeout cfg t =
     (let timeout = i64 (t_DispatchDeadline t * Second)
      in if timeout \<le> 0 then i64 (TaskDispatchTimeoutSecs cfg * Second) else timeout)"

definition task_request :: "ext \<Rightarrow> environment \<Rightarrow> time \<Rightarrow> Task \<Rightarrow> http_request" where
  "task_request E env now t =
     (let h = set_all (t_Headers t) Map.empty;
          h = (if header_get h ''Content-Type'' = [] then header_set ''Content-Type'' ''application/json'' h else h);
          h = auth_Apply E env now h;
          h = header_set ''User-Agent'' ''Google-Cloud-Tasks'' h;
          h = header_set ''X-CloudTasks-QueueName'' (path_base (t_QueueID t)) h;
          h = header_set ''X-CloudTasks-TaskName'' (path_base (t_ID t)) h;
          h = header_set ''X-CloudTasks-TaskRetryCount'' (itoa (t_RetryCount t)) h;
          h = header_set ''X-CloudTasks-TaskExecutionCount'' (itoa (t_RetryCount t)) h;
          h = header_set ''X-CloudTasks-TaskETA''
                (fmt_f3 (fl64 (fl64 (of_int (unix_milli (t_ScheduleTime t))) / 1000))) h
      in \<lparr>rq_method = t_HTTPMethod t, rq_url = t_URL t, rq_body = t_Body t, rq_headers = h\<rparr>)"

fun backoff_loop :: "nat \<Rightarrow> int \<Rightarrow> int \<Rightarrow> int" where
  "backoff_loop 0 mx delay = delay"
| "backoff_loop (Suc n) mx delay =
     (let delay = i64 (delay * 2) in if delay > mx then mx else backoff_loop n mx delay)"

definition backoff :: "int \<Rightarrow> int \<Rightarrow> int \<Rightarrow> int" where
  "backoff initial mx retryCount = backoff_loop (nat (retryCount - 1)) mx initial"

definition retryOrFail :: "Config \<Rightarrow> time \<Rightarrow> Task \<Rightarrow> string \<Rightarrow> db \<Rightarrow> db" where
  "retryOrFail cfg now t errMsg d =
     (let nextRetry = i64 (t_RetryCount t + 1) in
      if nextRetry > t_MaxRetries t
      then snd (task_UpdateStatus (t_ID t) StatusFailed errMsg d)
      else let delay = backoff (InitialBackoffSeconds cfg) (MaxBackoffSeconds cfg) nextRetry;
               nextAttempt = now + i64 (delay * Second)
           in snd (task_UpdateRetry (t_ID t) nextRetry nextAttempt errMsg d))"

text \<open>Of the response body at most 512 bytes are read.\<close>

definition status_error :: "ext \<Rightarrow> string \<Rightarrow> string \<Rightarrow> string" where
  "status_error E line snippet =
     (let msg = trim_space (to_valid_utf8 E snippet)
      in ''HTTP '' @ line @ (if msg \<noteq> [] then '': '' @ msg else []))"

fun dispatch_outcome :: "ext \<Rightarrow> Config \<Rightarrow> time \<Rightarrow> Task \<Rightarrow> http_outcome \<Rightarrow> db \<Rightarrow> db" where
  "dispatch_outcome E cfg now t (ReqInvalid err) d = retryOrFail cfg now t err d"
| "dispatch_outcome E cfg now t (DoFailed dl uerr err) d = retryOrFail cfg now t uerr d"
| "dispatch_outcome E cfg now t (Response code line body) d =
     (if 200 \<le> code \<and> code < 300 then snd (task_UpdateStatus (t_ID t) StatusCompleted [] d)
      else retryOrFail cfg now t (status_error E line (take 512 body)) d)"

text \<open>\<open>start\<close> is when the request is built, \<open>now\<close> when a retry is scheduled; \<open>send\<close> gets the timeout of
  the client and its context.\<close>

definition dispatch :: "ext \<Rightarrow> environment \<Rightarrow> Config \<Rightarrow> time \<Rightarrow> time \<Rightarrow> (duration \<Rightarrow> http_request \<Rightarrow> http_outcome) \<Rightarrow> Task \<Rightarrow> db \<Rightarrow> db" where
  "dispatch E env cfg start now send t d =
     dispatch_outcome E cfg now t (send (dispatch_timeout cfg t) (task_request E env start t)) d"

section \<open>Backoff\<close>

lemma backoff_loop_spec:
  assumes "0 \<le> d" "d \<le> mx" "mx < 2 ^ 62"
  shows "backoff_loop n mx d = min mx (d * 2 ^ n)"
  using assms
proof (induction n arbitrary: d)
  case (Suc n)
  have i: "i64 (d * 2) = d * 2" using Suc.prems by (intro i64_id) (simp add: in_i64_def)
  show ?case
  proof (cases "mx < d * 2")
    case True
    have "d * 2 * 1 \<le> d * 2 * 2 ^ n" using Suc.prems(1) by (intro mult_left_mono) simp_all
    with True show ?thesis by (simp add: i)
  next
    case False
    with Suc.IH [of "d * 2"] Suc.prems show ?thesis by (simp add: i mult.assoc)
  qed
qed simp

section \<open>Token bucket\<close>

lemma time_sub_nonneg: "b \<le> a \<Longrightarrow> 0 \<le> time_sub a b"
  by (simp add: time_sub_def)

definition bucket_ok :: "time \<Rightarrow> bucket \<Rightarrow> bool" where
  "bucket_ok now b \<longleftrightarrow> 0 \<le> tokens b \<and> last_refill b \<le> now"

lemma refill_ok:
  assumes "bucket_ok now b" "0 \<le> rate"
  shows "bucket_ok now (refill now rate b)" "tokens (refill now rate b) \<le> max 1 rate"
proof -
  have "0 \<le> dur_seconds (time_sub now (last_refill b))"
    using assms(1) by (intro dur_seconds_nonneg time_sub_nonneg) (simp add: bucket_ok_def)
  then have "0 \<le> fl64 (tokens b + fl64 (dur_seconds (time_sub now (last_refill b)) * rate))"
    using assms by (intro float64.fl_nonneg add_nonneg_nonneg mult_nonneg_nonneg) (simp_all add: bucket_ok_def)
  then show "bucket_ok now (refill now rate b)" by (simp add: bucket_ok_def refill_def Let_def)
  show "tokens (refill now rate b) \<le> max 1 rate" by (simp add: refill_def Let_def)
qed

lemma take_token:
  assumes "of_int (1 + int n) \<le> x" "n < 2 ^ 53"
  shows "of_int (int n) \<le> fl64 (x - 1)"
  using assms by (intro float64.fl_ge_int) simp_all

lemma queue_limit_spec:
  assumes "queue_limit now q room w = (limit, useb, w')"
  shows "limit \<le> room" "inflight w' = inflight w" "sem_len w' = sem_len w"
    "0 < MaxConcurrentDispatches (limits_of q) \<Longrightarrow> limit + inflight w (q_ID q) \<le> MaxConcurrentDispatches (limits_of q)"
    "useb \<Longrightarrow> \<exists>b. buckets w' (q_ID q) = Some b \<and> limit \<le> go_int (tokens b)"
    "q' \<noteq> q_ID q \<Longrightarrow> buckets w' q' = buckets w q'"
  using assms by (auto simp: queue_limit_def Let_def split: if_splits)

end
