(* ===== verification/Worker_Run.thy ===== *)
theory Worker_Run
  imports Worker
begin

text \<open>
  The worker as a concurrent system. One thread polls; every started dispatch is a thread of its
  own; requests of the API change the database in between. A state is the shared memory, the
  database, the position of the polling thread in \<^verbatim>\<open>pollAndDispatch\<close>, and the dispatches with
  how far each has come. A step is one of the sections between two synchronisation points (a SQL
  statement, a critical section of the mutex, a send or receive on the semaphore channel), so every
  interleaving of the program is a sequence of steps. \<^verbatim>\<open>room\<close> is computed before the mutex is taken, so
  by the time its section runs dispatches may have given back slots: the room is at most what is free. The relation \<open>api\<close> is what the requests may
  do to the database.
\<close>

datatype poll_pc =
    PIdle
  | PQueues time "Queue list"
  | PList time Queue int bool "Queue list"
  | PTasks time Queue bool "Task list" "Queue list"
  | PClaim time Queue bool Task "Task list" "Queue list"
  | PStart time Queue bool Task "Task list" "Queue list"

datatype phase = Sending | Settled | Counted

record system =
  sy_w :: worker
  sy_d :: db
  sy_pc :: poll_pc
  sy_go :: "(Task \<times> phase) list"
  sy_clock :: time

inductive wstep :: "ext \<Rightarrow> environment \<Rightarrow> Config \<Rightarrow> int \<Rightarrow> (db \<Rightarrow> db \<Rightarrow> bool) \<Rightarrow> system \<Rightarrow> system \<Rightarrow> bool"
  for E env cfg cap api where
  poll_begin: "sy_pc s = PIdle \<Longrightarrow> sy_clock s \<le> now \<Longrightarrow> queue_ListAll E (sy_d s) = (Inr qs, d') \<Longrightarrow>
    wstep E env cfg cap api s (s\<lparr>sy_d := d', sy_pc := PQueues now qs, sy_clock := now\<rparr>)"
| poll_failed: "sy_pc s = PIdle \<Longrightarrow> queue_ListAll E (sy_d s) = (Inl e, d') \<Longrightarrow>
    wstep E env cfg cap api s (s\<lparr>sy_d := d'\<rparr>)"
| poll_done: "sy_pc s = PQueues now [] \<Longrightarrow> wstep E env cfg cap api s (s\<lparr>sy_pc := PIdle\<rparr>)"
| poll_paused: "sy_pc s = PQueues now (q # qs) \<Longrightarrow> Paused q \<Longrightarrow>
    wstep E env cfg cap api s (s\<lparr>sy_pc := PQueues now qs\<rparr>)"
| poll_full: "sy_pc s = PQueues now (q # qs) \<Longrightarrow> \<not> Paused q \<Longrightarrow> cap - sem_len (sy_w s) \<le> 0 \<Longrightarrow>
    wstep E env cfg cap api s (s\<lparr>sy_pc := PIdle\<rparr>)"
| poll_none: "sy_pc s = PQueues now (q # qs) \<Longrightarrow> \<not> Paused q \<Longrightarrow> 0 < room \<Longrightarrow> room \<le> cap - sem_len (sy_w s) \<Longrightarrow>
    queue_limit now q room (sy_w s) = (limit, useb, w') \<Longrightarrow> limit \<le> 0 \<Longrightarrow>
    wstep E env cfg cap api s (s\<lparr>sy_w := w', sy_pc := PQueues now qs\<rparr>)"
| poll_limit: "sy_pc s = PQueues now (q # qs) \<Longrightarrow> \<not> Paused q \<Longrightarrow> 0 < room \<Longrightarrow> room \<le> cap - sem_len (sy_w s) \<Longrightarrow>
    queue_limit now q room (sy_w s) = (limit, useb, w') \<Longrightarrow> 0 < limit \<Longrightarrow>
    wstep E env cfg cap api s (s\<lparr>sy_w := w', sy_pc := PList now q limit useb qs\<rparr>)"
| list_failed: "sy_pc s = PList now q limit useb qs \<Longrightarrow>
    task_ListPendingForQueue E t (q_ID q) limit (sy_d s) = (Inl e, d') \<Longrightarrow>
    wstep E env cfg cap api s (s\<lparr>sy_d := d', sy_pc := PQueues now qs\<rparr>)"
| list_ok: "sy_pc s = PList now q limit useb qs \<Longrightarrow>
    task_ListPendingForQueue E t (q_ID q) limit (sy_d s) = (Inr ts, d') \<Longrightarrow>
    wstep E env cfg cap api s (s\<lparr>sy_d := d', sy_pc := PTasks now q useb ts qs\<rparr>)"
| tasks_done: "sy_pc s = PTasks now q useb [] qs \<Longrightarrow> wstep E env cfg cap api s (s\<lparr>sy_pc := PQueues now qs\<rparr>)"
| tasks_full: "sy_pc s = PTasks now q useb (t # ts) qs \<Longrightarrow> sem_acquire cap (sy_w s) = None \<Longrightarrow>
    wstep E env cfg cap api s (s\<lparr>sy_pc := PIdle\<rparr>)"
| tasks_slot: "sy_pc s = PTasks now q useb (t # ts) qs \<Longrightarrow> sem_acquire cap (sy_w s) = Some w' \<Longrightarrow>
    wstep E env cfg cap api s (s\<lparr>sy_w := w', sy_pc := PClaim now q useb t ts qs\<rparr>)"
| claim_won: "sy_pc s = PClaim now q useb t ts qs \<Longrightarrow> task_Claim (t_ID t) (sy_d s) = (Inr True, d') \<Longrightarrow>
    wstep E env cfg cap api s (s\<lparr>sy_d := d', sy_pc := PStart now q useb t ts qs\<rparr>)"
| claim_lost: "sy_pc s = PClaim now q useb t ts qs \<Longrightarrow> task_Claim (t_ID t) (sy_d s) = (r, d') \<Longrightarrow> r \<noteq> Inr True \<Longrightarrow>
    wstep E env cfg cap api s (s\<lparr>sy_w := sem_release (sy_w s), sy_d := d', sy_pc := PTasks now q useb ts qs\<rparr>)"
| start: "sy_pc s = PStart now q useb t ts qs \<Longrightarrow>
    wstep E env cfg cap api s (s\<lparr>sy_w := count_start q useb (sy_w s), sy_pc := PTasks now q useb ts qs,
      sy_go := (t, Sending) # sy_go s\<rparr>)"
| settle: "sy_go s = xs @ (t, Sending) # ys \<Longrightarrow>
    wstep E env cfg cap api s (s\<lparr>sy_d := dispatch E env cfg t0 t1 send t (sy_d s), sy_go := xs @ (t, Settled) # ys\<rparr>)"
| uncount: "sy_go s = xs @ (t, Settled) # ys \<Longrightarrow>
    wstep E env cfg cap api s (s\<lparr>sy_w := count_end t (sy_w s), sy_go := xs @ (t, Counted) # ys\<rparr>)"
| unslot: "sy_go s = xs @ (t, Counted) # ys \<Longrightarrow>
    wstep E env cfg cap api s (s\<lparr>sy_w := sem_release (sy_w s), sy_go := xs @ ys\<rparr>)"
| request: "api (sy_d s) d' \<Longrightarrow> wstep E env cfg cap api s (s\<lparr>sy_d := d'\<rparr>)"

definition sys_init :: "db \<Rightarrow> system" where
  "sys_init d = \<lparr>sy_w = worker_New, sy_d = d, sy_pc = PIdle, sy_go = [], sy_clock = zero_time\<rparr>"

section \<open>Slots and counters\<close>

definition holding :: "poll_pc \<Rightarrow> int" where
  "holding p = (case p of PClaim _ _ _ _ _ _ \<Rightarrow> 1 | PStart _ _ _ _ _ _ \<Rightarrow> 1 | _ \<Rightarrow> 0)"

fun counted_in :: "string \<Rightarrow> Task \<times> phase \<Rightarrow> bool" where
  "counted_in qid (t, ph) \<longleftrightarrow> ph \<noteq> Counted \<and> t_QueueID t = qid"

definition in_queue :: "string \<Rightarrow> (Task \<times> phase) list \<Rightarrow> int" where
  "in_queue qid go = int (length (filter (counted_in qid) go))"

fun pc_tasks :: "poll_pc \<Rightarrow> (string \<times> Task list) option" where
  "pc_tasks (PTasks now q useb ts qs) = Some (q_ID q, ts)"
| "pc_tasks (PClaim now q useb t ts qs) = Some (q_ID q, t # ts)"
| "pc_tasks (PStart now q useb t ts qs) = Some (q_ID q, t # ts)"
| "pc_tasks _ = None"

definition own_tasks :: "poll_pc \<Rightarrow> bool" where
  "own_tasks p = (case pc_tasks p of None \<Rightarrow> True | Some (qid, ts) \<Rightarrow> list_all (\<lambda>t. t_QueueID t = qid) ts)"

definition counters_ok :: "int \<Rightarrow> system \<Rightarrow> bool" where
  "counters_ok cap s \<longleftrightarrow>
     sem_len (sy_w s) = int (length (sy_go s)) + holding (sy_pc s) \<and> sem_len (sy_w s) \<le> cap
   \<and> (\<forall>qid. inflight (sy_w s) qid = in_queue qid (sy_go s)) \<and> own_tasks (sy_pc s)"

lemma in_queue_simps [simp]:
  "in_queue qid [] = 0"
  "in_queue qid (g # go) = (if counted_in qid g then 1 else 0) + in_queue qid go"
  "in_queue qid (xs @ ys) = in_queue qid xs + in_queue qid ys"
  by (simp_all add: in_queue_def)

lemma in_queue_nonneg [simp]: "0 \<le> in_queue qid go"
  by (simp add: in_queue_def)

lemma ListPending_effect:
  assumes "task_ListPendingForQueue E now qid limit d = (Inr ts, d')"
  shows "ts = map (scanTask E) (task_rows_pending now qid limit d)"
    and "list_all (\<lambda>t. t_QueueID t = qid) ts" and "0 \<le> limit \<Longrightarrow> int (length ts) \<le> limit"
proof -
  show ts: "ts = map (scanTask E) (task_rows_pending now qid limit d)"
    using task_query_effect [OF assms [unfolded task_ListPendingForQueue_def]]
    by (simp add: task_rows_pending_def)
  show "list_all (\<lambda>t. t_QueueID t = qid) ts"
    by (auto simp: ts list_all_iff scanTask_def dest: task_rows_pending_mem(2))
  show "0 \<le> limit \<Longrightarrow> int (length ts) \<le> limit"
    using length_task_rows_pending [of limit now qid d] by (simp add: ts)
qed

lemma wstep_counters:
  assumes "wstep E env cfg cap api s s'" "counters_ok cap s"
  shows "counters_ok cap s'"
  using assms
proof cases
  case (poll_none now q qs room limit useb w')
  with assms(2) queue_limit_spec(2,3) [OF poll_none(6)] show ?thesis
    by (simp add: counters_ok_def holding_def own_tasks_def)
next
  case (poll_limit now q qs room limit useb w')
  with assms(2) queue_limit_spec(2,3) [OF poll_limit(6)] show ?thesis
    by (simp add: counters_ok_def holding_def own_tasks_def)
next
  case (list_ok now q limit useb qs t ts d')
  with assms(2) ListPending_effect(2) [OF list_ok(3)] show ?thesis
    by (simp add: counters_ok_def holding_def own_tasks_def)
next
  case (settle xs t ys t0 t1 send)
  with assms(2) show ?thesis by (auto simp: counters_ok_def)
next
  case (uncount xs t ys)
  with assms(2) show ?thesis by (auto simp: counters_ok_def count_end_def)
next
  case (unslot xs t ys)
  with assms(2) show ?thesis by (auto simp: counters_ok_def sem_release_def)
qed (use assms(2) in \<open>auto simp: counters_ok_def holding_def own_tasks_def sem_acquire_def sem_release_def
      count_start_def split: if_splits\<close>)

section \<open>Queue limits and tokens\<close>

text \<open>What the polling thread may still start in the queue it is working on, with its limits.\<close>

fun pc_budget :: "poll_pc \<Rightarrow> (Queue \<times> bool \<times> int) option" where
  "pc_budget (PList now q limit useb qs) = Some (q, useb, limit)"
| "pc_budget (PTasks now q useb ts qs) = Some (q, useb, int (length ts))"
| "pc_budget (PClaim now q useb t ts qs) = Some (q, useb, int (length ts) + 1)"
| "pc_budget (PStart now q useb t ts qs) = Some (q, useb, int (length ts) + 1)"
| "pc_budget _ = None"

fun pc_time :: "poll_pc \<Rightarrow> time option" where
  "pc_time PIdle = None"
| "pc_time (PQueues now qs) = Some now"
| "pc_time (PList now q limit useb qs) = Some now"
| "pc_time (PTasks now q useb ts qs) = Some now"
| "pc_time (PClaim now q useb t ts qs) = Some now"
| "pc_time (PStart now q useb t ts qs) = Some now"

definition budget_ok :: "int \<Rightarrow> system \<Rightarrow> bool" where
  "budget_ok cap s \<longleftrightarrow>
     (case pc_budget (sy_pc s) of
        None \<Rightarrow> True
      | Some (q, useb, n) \<Rightarrow>
          0 \<le> n \<and> n \<le> cap
        \<and> (0 < MaxConcurrentDispatches (limits_of q) \<longrightarrow>
             n + inflight (sy_w s) (q_ID q) \<le> MaxConcurrentDispatches (limits_of q))
        \<and> (useb \<longrightarrow> (\<exists>b. buckets (sy_w s) (q_ID q) = Some b \<and> of_int n \<le> tokens b)))"

definition buckets_ok :: "system \<Rightarrow> bool" where
  "buckets_ok s \<longleftrightarrow> (\<forall>t. pc_time (sy_pc s) = Some t \<longrightarrow> t = sy_clock s)
     \<and> (\<forall>qid b. buckets (sy_w s) qid = Some b \<longrightarrow> bucket_ok (sy_clock s) b)"

lemma bucket_ok_later: "bucket_ok t b \<Longrightarrow> t \<le> t' \<Longrightarrow> bucket_ok t' b"
  by (simp add: bucket_ok_def)

lemma queue_limit_buckets:
  assumes "queue_limit now q room w = (limit, useb, w')"
    and "\<And>qid b. buckets w qid = Some b \<Longrightarrow> bucket_ok now b"
    and "buckets w' qid = Some b"
  shows "bucket_ok now b"
proof (cases "0 < MaxDispatchesPerSecond (limits_of q)")
  case True
  let ?rate = "fl64 (of_int (MaxDispatchesPerSecond (limits_of q)))"
  have r: "0 \<le> ?rate" using True by (intro float64.fl_nonneg) simp
  have "bucket_ok now (refill now ?rate (case buckets w (q_ID q) of
      None \<Rightarrow> \<lparr>tokens = max 1 ?rate, last_refill = now\<rparr> | Some b \<Rightarrow> b))"
    using assms(2) r by (intro refill_ok) (auto simp: bucket_ok_def split: option.splits)
  with True assms show ?thesis
    by (auto simp: queue_limit_def Let_def split: if_splits)
next
  case False
  with assms show ?thesis by (auto simp: queue_limit_def Let_def)
qed

lemma queue_limit_budget:
  assumes "queue_limit now q room w = (limit, useb, w')" "0 < limit"
    and "\<And>qid b. buckets w qid = Some b \<Longrightarrow> bucket_ok now b" "useb"
  shows "\<exists>b. buckets w' (q_ID q) = Some b \<and> of_int limit \<le> tokens b"
proof -
  obtain b where b: "buckets w' (q_ID q) = Some b" "limit \<le> go_int (tokens b)"
    using queue_limit_spec(5) [OF assms(1,4)] by blast
  have "0 \<le> tokens b" using queue_limit_buckets [OF assms(1,3) b(1)] by (simp add: bucket_ok_def)
  then have "of_int (go_int (tokens b)) \<le> tokens b" using assms(2) b(2) by (intro go_int_le) simp_all
  then show ?thesis using b of_int_le_iff [of limit "go_int (tokens b)", where 'a = rat] by fastforce
qed

lemma count_start_tokens:
  assumes "buckets w (q_ID q) = Some b" "of_int (int n + 1) \<le> tokens b" "int n + 1 \<le> 2 ^ 53"
  shows "\<exists>b'. buckets (count_start q True w) (q_ID q) = Some b' \<and> of_int (int n) \<le> tokens b'
    \<and> last_refill b' = last_refill b"
  using assms take_token [of n "tokens b"] by (simp add: count_start_def)

lemma wstep_buckets:
  assumes "wstep E env cfg cap api s s'" "buckets_ok s" "budget_ok cap s" "cap \<le> 2 ^ 53"
  shows "buckets_ok s'"
  using assms(1)
proof cases
  case (poll_begin now qs d')
  with assms(2) show ?thesis by (auto simp: buckets_ok_def intro: bucket_ok_later)
next
  case (poll_none now q qs room limit useb w')
  with assms(2) have "\<And>qid b. buckets (sy_w s) qid = Some b \<Longrightarrow> bucket_ok now b" and t: "now = sy_clock s"
    by (auto simp: buckets_ok_def)
  from queue_limit_buckets [OF poll_none(6) this(1)] t poll_none(1) show ?thesis
    by (auto simp: buckets_ok_def)
next
  case (poll_limit now q qs room limit useb w')
  with assms(2) have "\<And>qid b. buckets (sy_w s) qid = Some b \<Longrightarrow> bucket_ok now b" and t: "now = sy_clock s"
    by (auto simp: buckets_ok_def)
  from queue_limit_buckets [OF poll_limit(6) this(1)] t poll_limit(1) show ?thesis
    by (auto simp: buckets_ok_def)
next
  case (start now q useb t ts qs)
  show ?thesis
  proof (cases useb)
    case True
    with assms(3) start obtain b where b: "buckets (sy_w s) (q_ID q) = Some b" "of_int (int (length ts) + 1) \<le> tokens b"
      and l: "int (length ts) + 1 \<le> cap"
      by (auto simp: budget_ok_def)
    obtain b' where b': "buckets (count_start q True (sy_w s)) (q_ID q) = Some b'"
        "of_int (int (length ts)) \<le> tokens b'" "last_refill b' = last_refill b"
      using count_start_tokens [OF b] l assms(4) by force
    have "bucket_ok (sy_clock s) b'"
      using assms(2) b(1) b' by (auto simp: buckets_ok_def bucket_ok_def intro: order_trans [rotated])
    with assms(2) b' start True show ?thesis
      by (auto simp: buckets_ok_def count_start_def split: if_splits option.splits)
  next
    case False
    with assms(2) start show ?thesis by (auto simp: buckets_ok_def count_start_def)
  qed
qed (use assms(2) in \<open>auto simp: buckets_ok_def sem_acquire_def sem_release_def count_end_def split: if_splits\<close>)

lemma wstep_budget:
  assumes "wstep E env cfg cap api s s'" "counters_ok cap s" "buckets_ok s" "budget_ok cap s" "cap \<le> 2 ^ 53"
  shows "budget_ok cap s'"
  using assms(1)
proof cases
  case (poll_limit now q qs room limit useb w')
  have "\<And>qid b. buckets (sy_w s) qid = Some b \<Longrightarrow> bucket_ok now b"
    using assms(3) poll_limit(2) by (auto simp: buckets_ok_def)
  note b = queue_limit_budget [OF poll_limit(6,7) this]
  have "0 \<le> sem_len (sy_w s)" using assms(2) by (simp add: counters_ok_def holding_def split: poll_pc.splits)
  with poll_limit b queue_limit_spec(1,2,4) [OF poll_limit(6)] show ?thesis
    by (auto simp: budget_ok_def)
next
  case (list_ok now q limit useb qs t ts d')
  with assms(4) ListPending_effect(3) [OF list_ok(3)] show ?thesis
    by (fastforce simp: budget_ok_def elim: order_trans [rotated])
next
  case (start now q useb t ts qs)
  show ?thesis
  proof (cases useb)
    case True
    with assms(4) start obtain b where b: "buckets (sy_w s) (q_ID q) = Some b" "of_int (int (length ts) + 1) \<le> tokens b"
      and l: "int (length ts) + 1 \<le> cap"
      by (auto simp: budget_ok_def)
    obtain b' where "buckets (count_start q True (sy_w s)) (q_ID q) = Some b'" "of_int (int (length ts)) \<le> tokens b'"
      using count_start_tokens [OF b] l assms(5) by force
    with assms(4) start True l show ?thesis by (auto simp: budget_ok_def count_start_def)
  next
    case False
    with assms(4) start show ?thesis by (auto simp: budget_ok_def count_start_def)
  qed
next
  case (uncount xs t ys)
  with assms(4) show ?thesis by (auto simp: budget_ok_def count_end_def split: option.splits)
qed (use assms(4) in \<open>auto simp: budget_ok_def sem_acquire_def sem_release_def split: if_splits option.splits\<close>)

section \<open>Reachable states\<close>

definition reachable :: "ext \<Rightarrow> environment \<Rightarrow> Config \<Rightarrow> int \<Rightarrow> (db \<Rightarrow> db \<Rightarrow> bool) \<Rightarrow> db \<Rightarrow> system \<Rightarrow> bool" where
  "reachable E env cfg cap api d = (wstep E env cfg cap api)\<^sup>*\<^sup>* (sys_init d)"

definition limits_ok :: "int \<Rightarrow> system \<Rightarrow> bool" where
  "limits_ok cap s \<longleftrightarrow> counters_ok cap s \<and> buckets_ok s \<and> budget_ok cap s"

lemma reachable_limits:
  assumes "reachable E env cfg cap api d s" "0 \<le> cap" "cap \<le> 2 ^ 53"
  shows "limits_ok cap s"
  using assms(1) unfolding reachable_def
proof (induction rule: rtranclp_induct)
  case base
  show ?case using assms(2)
    by (simp add: limits_ok_def counters_ok_def buckets_ok_def budget_ok_def sys_init_def worker_New_def
        holding_def own_tasks_def)
next
  case (step s s')
  then show ?case
    using wstep_counters wstep_buckets wstep_budget assms(3) by (auto simp: limits_ok_def)
qed

end
