(* ===== verification/Worker_Live.thy ===== *)
theory Worker_Live
  imports Worker_Run
begin

text \<open>
  Which tasks a running worker holds: every dispatch that has not recorded its outcome belongs to a
  task whose row is RUNNING, and no task has two of them, whatever requests do beside it, except for
  the tasks whose row a request deletes while they are being dispatched. What a dispatch writes when
  it ends, for every answer of the target.
\<close>

section \<open>What a dispatch records\<close>

fun succeeded :: "http_outcome \<Rightarrow> bool" where
  "succeeded (Response code line body) \<longleftrightarrow> 200 \<le> code \<and> code < 300"
| "succeeded _ \<longleftrightarrow> False"

fun failure_text :: "ext \<Rightarrow> http_outcome \<Rightarrow> string" where
  "failure_text E (ReqInvalid err) = err"
| "failure_text E (DoFailed dl uerr err) = uerr"
| "failure_text E (Response code line body) = status_error E line (take 512 body)"

definition settled_row :: "ext \<Rightarrow> Config \<Rightarrow> time \<Rightarrow> Task \<Rightarrow> http_outcome \<Rightarrow> task_row \<Rightarrow> task_row" where
  "settled_row E cfg now t out r =
     (if succeeded out then r\<lparr>tr_status := StatusCompleted, tr_last_error := Some []\<rparr>
      else if t_MaxRetries t < i64 (t_RetryCount t + 1)
      then r\<lparr>tr_status := StatusFailed, tr_last_error := Some (failure_text E out)\<rparr>
      else r\<lparr>tr_status := StatusPending, tr_retry_count := i64 (t_RetryCount t + 1),
             tr_next_attempt_at := formatTime (now + i64 (backoff (InitialBackoffSeconds cfg)
               (MaxBackoffSeconds cfg) (i64 (t_RetryCount t + 1)) * Second)),
             tr_last_error := Some (failure_text E out)\<rparr>)"

lemma tr_id_settled_row [simp]: "tr_id (settled_row E cfg now t out r) = tr_id r"
  by (simp add: settled_row_def)

lemma dispatch_outcome_effect:
  assumes "dispatch_outcome E cfg now t out d = d'"
  shows "queue_tbl d' = queue_tbl d \<and> job_tbl d' = job_tbl d
    \<and> (task_tbl d' = task_tbl d
       \<or> task_tbl d' = rows_update (\<lambda>r. tr_id r = t_ID t) (settled_row E cfg now t out) (task_tbl d))"
proof -
  have failed: "dispatch_outcome E cfg now t out d = retryOrFail cfg now t (failure_text E out) d" if "\<not> succeeded out"
    using that by (cases out) auto
  have completed: "dispatch_outcome E cfg now t out d = snd (task_UpdateStatus (t_ID t) StatusCompleted [] d)" if "succeeded out"
    using that by (cases out) auto
  obtain r1 d1 where u: "task_UpdateStatus (t_ID t) StatusCompleted [] d = (r1, d1)"
    by (cases "task_UpdateStatus (t_ID t) StatusCompleted [] d")
  obtain r2 d2 where f: "task_UpdateStatus (t_ID t) StatusFailed (failure_text E out) d = (r2, d2)"
    by (cases "task_UpdateStatus (t_ID t) StatusFailed (failure_text E out) d")
  let ?next = "now + i64 (backoff (InitialBackoffSeconds cfg) (MaxBackoffSeconds cfg) (i64 (t_RetryCount t + 1)) * Second)"
  obtain r3 d3 where p: "task_UpdateRetry (t_ID t) (i64 (t_RetryCount t + 1)) ?next (failure_text E out) d = (r3, d3)"
    by (cases "task_UpdateRetry (t_ID t) (i64 (t_RetryCount t + 1)) ?next (failure_text E out) d")
  consider "succeeded out" | "\<not> succeeded out" "t_MaxRetries t < i64 (t_RetryCount t + 1)"
    | "\<not> succeeded out" "\<not> t_MaxRetries t < i64 (t_RetryCount t + 1)" by blast
  then show ?thesis
  proof cases
    case 1
    with assms completed u task_UpdateStatus_effect [OF u] show ?thesis
      by (cases r1) (auto simp: tables_eq_iff settled_row_def [abs_def])
  next
    case 2
    with assms failed f task_UpdateStatus_effect [OF f] show ?thesis
      by (cases r2) (auto simp: tables_eq_iff settled_row_def [abs_def] retryOrFail_def)
  next
    case 3
    with assms failed p task_UpdateRetry_effect [OF p] show ?thesis
      by (cases r3) (auto simp: tables_eq_iff settled_row_def [abs_def] retryOrFail_def Let_def)
  qed
qed

lemma dispatch_outcome_ok:
  assumes "db_ok d"
  shows "dispatch_outcome E cfg now t out d
    = d\<lparr>task_tbl := rows_update (\<lambda>r. tr_id r = t_ID t) (settled_row E cfg now t out) (task_tbl d)\<rparr>"
  using assms
  by (cases out) (auto simp: retryOrFail_def Let_def settled_row_def [abs_def] task_UpdateStatus_def
      task_UpdateRetry_def update_tasks_def db_ok_def)

section \<open>Running rows\<close>

definition row_running :: "string \<Rightarrow> db \<Rightarrow> bool" where
  "row_running tid d = (case find_task tid d of None \<Rightarrow> False | Some r \<Rightarrow> tr_status r = StatusRunning)"

text \<open>
  A change of the database after which every row that was RUNNING still is, or is gone: RUNNING rows
  are the worker's, except that they can be deleted.
\<close>

definition spares_running :: "db \<Rightarrow> db \<Rightarrow> bool" where
  "spares_running d d' \<longleftrightarrow> (wf_db d \<longrightarrow> wf_db d'
     \<and> (\<forall>tid. row_running tid d \<longrightarrow> row_running tid d' \<or> find_task tid d' = None))"

lemma spares_other: "task_tbl d' = task_tbl d \<Longrightarrow> (wf_db d \<Longrightarrow> wf_db d') \<Longrightarrow> spares_running d d'"
  by (simp add: spares_running_def row_running_def find_task_def)

lemma spares_same: "tables d' = tables d \<Longrightarrow> spares_running d d'"
  by (rule spares_other) (simp_all add: tables_eq_iff wf_db_def)

lemma spares_append:
  assumes "find_task (tr_id r) d = None" "task_tbl d' = task_tbl d @ [r]" "queue_tbl d' = queue_tbl d" "job_tbl d' = job_tbl d"
  shows "spares_running d d'"
  using assms by (auto simp: spares_running_def wf_db_def row_running_def find_task_def find_append
      find_key_None [of tr_id] split: option.splits)

lemma update_running:
  assumes "task_tbl d' = rows_update P f (task_tbl d)" "\<And>r. tr_id (f r) = tr_id r"
    and "\<And>r. P r \<Longrightarrow> tr_status r = StatusRunning \<Longrightarrow> tr_status (f r) = StatusRunning"
  shows "row_running tid d \<Longrightarrow> row_running tid d'"
  using assms by (auto simp: row_running_def find_task_def find_rows_update [of tr_id] split: option.splits)

lemma spares_update:
  assumes "task_tbl d' = rows_update P f (task_tbl d)" "queue_tbl d' = queue_tbl d" "job_tbl d' = job_tbl d"
    and "\<And>r. tr_id (f r) = tr_id r" "\<And>r. P r \<Longrightarrow> tr_status r = StatusRunning \<Longrightarrow> tr_status (f r) = StatusRunning"
  shows "spares_running d d'"
  using update_running [OF assms(1,4,5)] assms(1-3)
  by (auto simp: spares_running_def wf_db_def map_rows_update [of tr_id, OF assms(4)])

lemma spares_delete:
  assumes "task_tbl d' = rows_delete P (task_tbl d)" "wf_db d \<Longrightarrow> wf_db d'"
  shows "spares_running d d'"
  using assms
  by (auto simp: spares_running_def wf_db_def row_running_def find_task_def find_rows_delete [of tr_id] split: option.splits)

text \<open>
  The requests REST, gRPC and the admin pages make on queues and tasks, statement by statement and
  under any failure, deletions of running tasks and their queues among them; the jobs may change in
  any way that keeps their keys unique.
\<close>

inductive api_request :: "ext \<Rightarrow> db \<Rightarrow> db \<Rightarrow> bool" for E where
  req_failures: "api_request E d (d\<lparr>faults := fs\<rparr>)"
| req_jobs: "queue_tbl d' = queue_tbl d \<Longrightarrow> task_tbl d' = task_tbl d \<Longrightarrow> distinct (map jr_id (job_tbl d')) \<Longrightarrow>
    api_request E d d'"
| req_create: "task_Create E now t d = (r, d') \<Longrightarrow> api_request E d d'"
| req_run: "task_SetNextAttemptNow now tid d = (u, d') \<Longrightarrow> api_request E d d'"
| req_delete: "task_Delete tid d = (u, d') \<Longrightarrow> api_request E d d'"
| req_queue: "q_State q \<in> {[], StateRunning, StatePaused} \<Longrightarrow> queue_Create now q d = (rq, d') \<Longrightarrow> api_request E d d'"
| req_state: "st \<in> {StateRunning, StatePaused} \<Longrightarrow> queue_SetState qid st d = (u, d') \<Longrightarrow> api_request E d d'"
| req_limits: "queue_UpdateRateLimits qid rl d = (u, d') \<Longrightarrow> api_request E d d'"
| req_purge: "queue_Purge E qid d = (n, d') \<Longrightarrow> api_request E d d'"
| req_delete_queue: "queue_Delete qid d = (u, d') \<Longrightarrow> api_request E d d'"

lemma requeue_row_running: "tr_status r = StatusRunning \<Longrightarrow> tr_status (requeue_row now r) = StatusRunning"
  by (simp add: requeue_row_def status_defs Let_def)

lemma task_Delete_wf:
  assumes "task_Delete tid d = (r, d')"
  shows "wf_db d \<Longrightarrow> wf_db d'"
  using task_Delete_effect [OF assms]
  by (cases r) (auto simp: wf_db_def tables_eq_iff intro: distinct_rows_delete)

lemma api_request_spares:
  assumes "api_request E d d'"
  shows "spares_running d d'"
  using assms
proof cases
  case (req_failures fs)
  then show ?thesis by (simp add: spares_same)
next
  case req_jobs
  then show ?thesis by (intro spares_other) (simp_all add: wf_db_def)
next
  case (req_create now t r)
  then show ?thesis
    using task_Create_effect [OF req_create(1)]
    by (cases r) (auto intro: spares_same spares_append [of "task_insert_row E now (t\<lparr>t_ID := t_Name t\<rparr>)"])
next
  case (req_run now tid u)
  have "tr_id (requeue_row now r) = tr_id r" for r by (simp add: requeue_row_def Let_def)
  then show ?thesis
    using task_SetNextAttemptNow_effect [OF req_run(1)]
    by (cases u) (auto intro: spares_same spares_update requeue_row_running)
next
  case (req_delete tid u)
  then show ?thesis
    using task_Delete_effect [OF req_delete(1)] task_Delete_wf [OF req_delete(1)]
    by (cases u) (auto intro: spares_same spares_delete)
next
  case (req_queue q now rq)
  then show ?thesis
    using queue_Create_effect [OF req_queue(2)] queue_Create_keeps(1) [OF req_queue(2,1)]
    by (cases rq) (auto intro: spares_same spares_other)
next
  case (req_state st qid u)
  then show ?thesis
    using queue_SetState_effect [OF req_state(2)] queue_SetState_keeps(1) [OF req_state(2,1)]
    by (cases u) (auto intro: spares_same spares_other)
next
  case (req_limits qid rl u)
  then show ?thesis
    using queue_UpdateRateLimits_effect [OF req_limits(1)] queue_UpdateRateLimits_keeps(1) [OF req_limits(1)]
    by (cases u) (auto intro: spares_same spares_other)
next
  case (req_purge qid n)
  then show ?thesis
    using queue_Purge_effect [OF req_purge(1)] queue_Purge_keeps(1) [OF req_purge(1)]
    by (cases n) (auto intro: spares_same spares_delete)
next
  case (req_delete_queue qid u)
  then show ?thesis
    using queue_Delete_effect [OF req_delete_queue(1)] queue_Delete_keeps(1) [OF req_delete_queue(1)]
    by (cases u) (auto intro: spares_same spares_delete)
qed

section \<open>One dispatch per task\<close>

fun pc_live :: "poll_pc \<Rightarrow> string list" where
  "pc_live (PStart now q useb t ts qs) = [t_ID t]"
| "pc_live _ = []"

fun unsettled :: "(Task \<times> phase) list \<Rightarrow> string list" where
  "unsettled [] = []"
| "unsettled ((t, ph) # go) = (if ph = Sending then t_ID t # unsettled go else unsettled go)"

definition live :: "system \<Rightarrow> string list" where
  "live s = pc_live (sy_pc s) @ unsettled (sy_go s)"

text \<open>
  The worker beside the requests. The second component is a history variable: the tasks whose row a
  request deleted while a dispatch of them was in progress.
\<close>

inductive attended :: "ext \<Rightarrow> environment \<Rightarrow> Config \<Rightarrow> int \<Rightarrow> system \<times> string set \<Rightarrow> system \<times> string set \<Rightarrow> bool"
  for E env cfg cap where
  own: "wstep E env cfg cap (\<lambda>_ _. False) s s' \<Longrightarrow> attended E env cfg cap (s, gone) (s', gone)"
| requested: "api_request E (sy_d s) d' \<Longrightarrow>
    attended E env cfg cap (s, gone) (s\<lparr>sy_d := d'\<rparr>, gone \<union> {tid \<in> set (live s). find_task tid d' = None})"

definition exclusive :: "string set \<Rightarrow> system \<Rightarrow> bool" where
  "exclusive gone s \<longleftrightarrow> wf_db (sy_d s)
     \<and> (\<forall>tid. tid \<notin> gone \<longrightarrow> count_list (live s) tid \<le> 1 \<and> (tid \<in> set (live s) \<longrightarrow> row_running tid (sy_d s)))"

lemma unsettled_append [simp]: "unsettled (xs @ ys) = unsettled xs @ unsettled ys"
  by (induction xs rule: unsettled.induct) auto

lemma exclusive_same:
  assumes "exclusive gone s" "tables (sy_d s') = tables (sy_d s)" "live s' = live s"
  shows "exclusive gone s'"
  using assms by (auto simp: exclusive_def tables_eq_iff wf_db_def row_running_def find_task_def)

lemma find_task_id: "find_task tid d = Some r \<Longrightarrow> tr_id r = tid"
  by (auto simp: find_task_def find_Some_iff)

lemma task_Claim_won:
  assumes "task_Claim tid d = (Inr True, d')" "wf_db d"
  shows "wf_db d'" "\<not> row_running tid d" "row_running tid d'" "row_running tid' d \<Longrightarrow> row_running tid' d'"
proof -
  note c = task_Claim_effect [OF assms(1), simplified]
  have "distinct (map tr_id (task_tbl d))" using assms(2) by (simp add: wf_db_def)
  from c rows_affected_key_if [OF this, of tid "\<lambda>r. tr_status r = StatusPending"]
  obtain r where r: "find_task tid d = Some r" "tr_status r = StatusPending"
    by (auto simp: find_task_def split: option.splits if_splits)
  note id = find_task_id [OF r(1)]
  show "\<not> row_running tid d" using r by (simp add: row_running_def status_defs)
  show "row_running tid d'" using c r id by (simp add: row_running_def find_task_def find_rows_update [of tr_id])
  show "wf_db d'" using c assms(2) by (auto simp: wf_db_def map_rows_update)
  show "row_running tid' d \<Longrightarrow> row_running tid' d'"
    by (rule update_running [OF conjunct1 [OF c]]) (simp_all add: status_defs)
qed

lemma task_Claim_lost:
  assumes "task_Claim tid d = (r, d')" "r \<noteq> Inr True"
  shows "tables d' = tables d"
proof (cases r)
  case (Inl e)
  with task_Claim_effect [OF assms(1)] show ?thesis by simp
next
  case (Inr b)
  with task_Claim_effect [OF assms(1)] assms(2)
  have "rows_affected (\<lambda>r. tr_id r = tid \<and> tr_status r = StatusPending) (task_tbl d) = 0"
    using rows_affected_nonneg [of "\<lambda>r. tr_id r = tid \<and> tr_status r = StatusPending" "task_tbl d"]
    by auto
  with task_Claim_effect [OF assms(1)] Inr show ?thesis by (simp add: tables_eq_iff rows_update_none)
qed

lemma dispatch_keeps_others:
  assumes "dispatch E env cfg t0 t1 send t d = d'"
  shows "wf_db d \<Longrightarrow> wf_db d'" and "tid \<noteq> t_ID t \<Longrightarrow> row_running tid d \<Longrightarrow> row_running tid d'"
proof -
  note e = dispatch_outcome_effect [OF assms [unfolded dispatch_def]]
  from e show "wf_db d \<Longrightarrow> wf_db d'" by (auto simp: wf_db_def map_rows_update)
  have "find_task tid d' = find_task tid d" if n: "tid \<noteq> t_ID t"
  proof (cases "find_task tid d")
    case None
    with e show ?thesis by (auto simp: find_task_def find_rows_update [of tr_id])
  next
    case (Some r)
    with find_task_id [OF Some] n e show ?thesis by (auto simp: find_task_def find_rows_update [of tr_id])
  qed
  then show "tid \<noteq> t_ID t \<Longrightarrow> row_running tid d \<Longrightarrow> row_running tid d'" by (simp add: row_running_def)
qed

lemma wstep_exclusive:
  assumes "wstep E env cfg cap (\<lambda>_ _. False) s s'" "exclusive gone s"
  shows "exclusive gone s'"
  using assms(1)
proof cases
  case (poll_begin now qs d')
  from queue_query_effect [OF poll_begin(4) [unfolded queue_ListAll_def]] poll_begin show ?thesis
    by (intro exclusive_same [OF assms(2)]) (simp_all add: live_def)
next
  case (poll_failed e d')
  from queue_query_effect [OF poll_failed(3) [unfolded queue_ListAll_def]] poll_failed show ?thesis
    by (intro exclusive_same [OF assms(2)]) (simp_all add: live_def)
next
  case (list_failed now q limit useb qs t e d')
  from task_query_effect [OF list_failed(3) [unfolded task_ListPendingForQueue_def]] list_failed show ?thesis
    by (intro exclusive_same [OF assms(2)]) (simp_all add: live_def task_rows_pending_def)
next
  case (list_ok now q limit useb qs t ts d')
  from task_query_effect [OF list_ok(3) [unfolded task_ListPendingForQueue_def]] list_ok show ?thesis
    by (intro exclusive_same [OF assms(2)]) (simp_all add: live_def task_rows_pending_def)
next
  case (claim_won now q useb t ts qs d')
  have wf: "wf_db (sy_d s)" and l: "live s = unsettled (sy_go s)" using assms(2) claim_won(2)
    by (simp_all add: exclusive_def live_def)
  note c = task_Claim_won [OF claim_won(3) wf]
  have l': "live s' = t_ID t # live s" using claim_won(1) l by (simp add: live_def)
  have "count_list (live s') tid \<le> 1 \<and> (tid \<in> set (live s') \<longrightarrow> row_running tid d')" if "tid \<notin> gone" for tid
  proof -
    from assms(2) that have i: "count_list (live s) tid \<le> 1" "tid \<in> set (live s) \<Longrightarrow> row_running tid (sy_d s)"
      by (simp_all add: exclusive_def)
    show ?thesis
    proof (cases "tid = t_ID t")
      case True
      with i(2) c(2) have "tid \<notin> set (live s)" by blast
      with True c(3) show ?thesis by (simp add: l')
    next
      case False
      with i c(4) show ?thesis by (auto simp: l')
    qed
  qed
  with c(1) claim_won(1) show ?thesis by (simp add: exclusive_def)
next
  case (claim_lost now q useb t ts qs r d')
  from task_Claim_lost [OF claim_lost(3,4)] claim_lost show ?thesis
    by (intro exclusive_same [OF assms(2)]) (simp_all add: live_def)
next
  case (settle xs t ys t0 t1 send)
  let ?d' = "dispatch E env cfg t0 t1 send t (sy_d s)" and ?l = "pc_live (sy_pc s) @ unsettled (xs @ ys)"
  note k = dispatch_keeps_others [OF refl [of ?d']]
  have l': "live s' = ?l" using settle(1) by (simp add: live_def)
  have l: "count_list (live s) tid = count_list ?l tid + (if tid = t_ID t then 1 else 0)" for tid
    using settle(2) by (simp add: live_def)
  have "count_list ?l tid \<le> 1 \<and> (tid \<in> set ?l \<longrightarrow> row_running tid ?d')" if "tid \<notin> gone" for tid
  proof -
    from assms(2) that have i: "count_list (live s) tid \<le> 1" "tid \<in> set (live s) \<Longrightarrow> row_running tid (sy_d s)"
      by (simp_all add: exclusive_def)
    have c: "tid \<noteq> t_ID t" if "tid \<in> set ?l"
      using i(1) l [of tid] that count_list_0_iff [of ?l tid] by (auto split: if_splits)
    have m: "tid \<in> set (live s)" if "tid \<in> set ?l"
      using l [of tid] that count_list_0_iff [of ?l tid] count_list_0_iff [of "live s" tid] by auto
    show ?thesis using i l [of tid] c m k(2) by (auto split: if_splits)
  qed
  moreover have "wf_db ?d'" using k(1) assms(2) by (simp add: exclusive_def)
  ultimately show ?thesis unfolding exclusive_def l' using settle(1) by simp
next
  case (unslot xs t ys)
  with assms(2) show ?thesis by (simp add: exclusive_def live_def)
next
  case (uncount xs t ys)
  with assms(2) show ?thesis by (simp add: exclusive_def live_def)
qed (use assms(2) in \<open>simp_all add: exclusive_def live_def\<close>)

lemma attended_exclusive:
  assumes "attended E env cfg cap x y" "exclusive (snd x) (fst x)"
  shows "exclusive (snd y) (fst y)"
  using assms(1)
proof cases
  case (own s s' gone)
  with wstep_exclusive assms(2) show ?thesis by simp
next
  case (requested s d' gone)
  have "live (s\<lparr>sy_d := d'\<rparr>) = live s" by (simp add: live_def)
  with api_request_spares [OF requested(3)] assms(2) requested(1,2) show ?thesis
    by (auto simp: exclusive_def spares_running_def)
qed

lemma attended_reached:
  assumes "(attended E env cfg cap)\<^sup>*\<^sup>* (sys_init d, {}) (s, gone)" "wf_db d"
  shows "exclusive gone s"
proof -
  have "exclusive (snd y) (fst y)" if "(attended E env cfg cap)\<^sup>*\<^sup>* (sys_init d, {}) y" for y
    using that
  proof (induction rule: rtranclp_induct)
    case base
    show ?case using assms(2) by (simp add: exclusive_def live_def sys_init_def)
  next
    case (step y z)
    then show ?case using attended_exclusive by blast
  qed
  from this [OF assms(1)] show ?thesis by simp
qed

lemma own_steps:
  assumes "(wstep E env cfg cap (\<lambda>_ _. False))\<^sup>*\<^sup>* s s'"
  shows "(attended E env cfg cap)\<^sup>*\<^sup>* (s, gone) (s', gone)"
  using assms
proof (induction rule: rtranclp_induct)
  case (step s' s'')
  show ?case by (rule rtranclp.rtrancl_into_rtrancl [OF step.IH own [OF step.hyps(2)]])
qed simp

end
