(* ===== verification/Worker_Props.thy ===== *)
theory Worker_Props
  imports Worker_Live Repo_Props
begin

text \<open>
  The properties of the worker: its limits and, up to the deletion of running tasks, the exclusion of
  double dispatches under every interleaving, what a dispatch sends and records, the retries, recovery after a restart, and that
  a poll starts the tasks that are due.
\<close>

section \<open>A run of the worker\<close>

definition demo_qrow :: queue_row where
  "demo_qrow = \<lparr>qr_id = ''q'', qr_project = ''p'', qr_location = ''l'', qr_name = ''q'', qr_rate_limit = 1,
     qr_max_concurrent = 1, qr_created_at = [], qr_state = StateRunning\<rparr>"

definition demo_due :: task_row where
  "demo_due = (demo_row ''a'' ''PENDING'')\<lparr>tr_next_attempt_at := []\<rparr>"

definition demo_work :: db where
  "demo_work = empty_db\<lparr>queue_tbl := [demo_qrow], task_tbl := [demo_due]\<rparr>"

lemma demo_work_ok: "db_ok demo_work"
  by (simp add: db_ok_def wf_db_def demo_work_def empty_db_def)

lemma fresh_bucket:
  assumes "0 < n" "n \<le> 2 ^ 53"
  shows "refill now (fl64 (of_int n)) \<lparr>tokens = max 1 (fl64 (of_int n)), last_refill = now\<rparr>
    = \<lparr>tokens = of_int n, last_refill = now\<rparr>"
proof -
  have "1 \<le> (of_int n :: rat)" using assms(1) by simp
  moreover have "fl64 (of_int n) = of_int n" using assms by (intro float64.fl_int) simp
  ultimately show ?thesis by (simp add: refill_def Let_def time_sub_def dur_seconds_def go_div_def max_def)
qed

lemma demo_run:
  "\<exists>s. reachable demo_ext env cfg 1 api demo_work s
     \<and> sy_pc s = PStart 0 (scanQueue demo_ext demo_qrow) True (scanTask demo_ext demo_due) [] [] \<and> sy_go s = []"
proof -
  let ?q = "scanQueue demo_ext demo_qrow" and ?t = "scanTask demo_ext demo_due" and ?s0 = "sys_init demo_work"
  let ?s1 = "?s0\<lparr>sy_pc := PQueues 0 [?q], sy_clock := 0\<rparr>"
  let ?w = "worker_New\<lparr>buckets := [''q'' \<mapsto> \<lparr>tokens = 1, last_refill = 0\<rparr>]\<rparr>"
  let ?s2 = "?s1\<lparr>sy_w := ?w, sy_pc := PList 0 ?q 1 True []\<rparr>"
  let ?s3 = "?s2\<lparr>sy_pc := PTasks 0 ?q True [?t] []\<rparr>"
  let ?s4 = "?s3\<lparr>sy_w := ?w\<lparr>sem_len := 1\<rparr>, sy_pc := PClaim 0 ?q True ?t [] []\<rparr>"
  let ?d' = "snd (task_Claim ''a'' demo_work)"
  let ?s5 = "?s4\<lparr>sy_d := ?d', sy_pc := PStart 0 ?q True ?t [] []\<rparr>"
  let ?R = "wstep demo_ext env cfg 1 api"
  note d = demo_work_ok [unfolded db_ok_def]
  have q: "q_ID ?q = ''q''" "\<not> Paused ?q" "limits_of ?q = \<lparr>MaxDispatchesPerSecond = 1, MaxConcurrentDispatches = 1\<rparr>"
    by (simp_all add: scanQueue_def demo_qrow_def limits_of_def Paused_def StateRunning_def StatePaused_def)
  have "?R ?s0 ?s1"
    using poll_begin [of ?s0 0 demo_ext "[?q]" demo_work] d
    by (simp add: sys_init_def queue_ListAll_def queue_query_def select_def zero_time_def)
      (simp add: demo_work_def)
  moreover have "queue_limit 0 ?q 1 worker_New = (1, True, ?w)"
    using fresh_bucket [of 1 0] by (simp add: queue_limit_def Let_def q worker_New_def go_int_def in_i64_def)
  then have "?R ?s1 ?s2"
    using poll_limit [of ?s1 0 ?q "[]" 1 1 1 True ?w] q by (simp add: sys_init_def worker_New_def)
  moreover have "task_ListPendingForQueue demo_ext 0 ''q'' 1 demo_work = (Inr [?t], demo_work)"
    using d by (simp add: task_ListPendingForQueue_def task_query_def select_def task_rows_pending_def sql_limit_def)
      (simp add: demo_work_def demo_due_def demo_row_def due_def StatusPending_def)
  then have "?R ?s2 ?s3"
    using list_ok [of ?s2 0 ?q 1 True "[]" demo_ext 0 "[?t]" demo_work] by (simp add: q sys_init_def)
  moreover have "?R ?s3 ?s4"
    using tasks_slot [of ?s3 0 ?q True ?t "[]" "[]" 1] by (simp add: sem_acquire_def worker_New_def)
  moreover have "task_Claim ''a'' demo_work = (Inr True, ?d')"
    using task_Claim_ok [OF demo_work_ok, of "''a''"]
    by (simp add: claim_free_def find_task_def demo_work_def demo_due_def demo_row_def StatusPending_def)
  then have "?R ?s4 ?s5"
    using claim_won [of ?s4 0 ?q True ?t "[]" "[]" ?d'] by (simp add: sys_init_def scanTask_def demo_due_def demo_row_def)
  ultimately have "?R\<^sup>*\<^sup>* ?s0 ?s5" by (meson rtranclp.rtrancl_into_rtrancl rtranclp.rtrancl_refl)
  then show ?thesis unfolding reachable_def by (intro exI [of _ ?s5]) (simp add: sys_init_def)
qed

lemma demo_run_start:
  "\<exists>s. reachable demo_ext env cfg 1 api demo_work s \<and> live s = [''a''] \<and> length (sy_go s) = 1"
proof -
  obtain s where s: "reachable demo_ext env cfg 1 api demo_work s"
      "sy_pc s = PStart 0 (scanQueue demo_ext demo_qrow) True (scanTask demo_ext demo_due) [] []" "sy_go s = []"
    using demo_run [of env cfg api] by blast
  from start [OF s(2), of demo_ext env cfg 1 api] s(1)
  have "reachable demo_ext env cfg 1 api demo_work (s\<lparr>sy_w := count_start (scanQueue demo_ext demo_qrow) True (sy_w s),
      sy_pc := PTasks 0 (scanQueue demo_ext demo_qrow) True [] [], sy_go := (scanTask demo_ext demo_due, Sending) # sy_go s\<rparr>)"
    unfolding reachable_def by (rule rtranclp.rtrancl_into_rtrancl [rotated])
  then show ?thesis using s(3) by (force simp: live_def scanTask_def demo_due_def demo_row_def)
qed

section \<open>Limits and exclusion\<close>

text \<open>
  C28: whatever requests do and however the goroutines interleave, the worker never has more
  dispatches than its semaphore has slots, a slot is held by each of them and by nothing else but
  a claim in progress, and the in-flight counter of every queue is exactly the number of its
  dispatches that have not been counted out.
\<close>

theorem worker_slots:
  assumes "reachable E env cfg cap api d s" "0 \<le> cap" "cap \<le> 2 ^ 53"
  shows "int (length (sy_go s)) \<le> cap
    \<and> sem_len (sy_w s) = int (length (sy_go s)) + holding (sy_pc s)
    \<and> (\<forall>qid. inflight (sy_w s) qid = in_queue qid (sy_go s))"
  using reachable_limits [OF assms]
  by (auto simp: limits_ok_def counters_ok_def holding_def split: poll_pc.splits)

theorem worker_slots_witness:
  "\<exists>s. reachable demo_ext (\<lambda>_. []) (Load (\<lambda>_. [])) 1 (\<lambda>_ _. True) demo_work s \<and> length (sy_go s) = 1
     \<and> inflight (sy_w s) ''q'' = in_queue ''q'' (sy_go s)"
proof -
  obtain s where s: "reachable demo_ext (\<lambda>_. []) (Load (\<lambda>_. [])) 1 (\<lambda>_ _. True) demo_work s" "length (sy_go s) = 1"
    using demo_run_start by blast
  from worker_slots [OF s(1)] s show ?thesis by auto
qed



text \<open>
  C1: no task is dispatched twice at the same time: under every interleaving of the worker's
  goroutines with requests of any kind, a task has at most one dispatch that has not recorded its
  outcome, and while it has one its row is RUNNING. The one exception, tracked by the history
  variable, are tasks whose row a request deleted during such a dispatch: the API does not refuse
  that, and a task created again under the name is then a new row to the worker.
\<close>

theorem no_double_dispatch:
  assumes "(attended E env cfg cap)\<^sup>*\<^sup>* (sys_init d, {}) (s, gone)" "wf_db d"
  shows "tid \<notin> gone \<longrightarrow> count_list (live s) tid \<le> 1 \<and> (tid \<in> set (live s) \<longrightarrow> row_running tid (sy_d s))"
  using attended_reached [OF assms] by (simp add: exclusive_def)

text \<open>One dispatch runs, and a request to run the task at once arrives; nothing is deleted.\<close>

theorem no_double_dispatch_witness:
  "\<exists>s. (attended demo_ext (\<lambda>_. []) (Load (\<lambda>_. [])) 1)\<^sup>*\<^sup>* (sys_init demo_work, {}) (s, {})
     \<and> live s = [''a''] \<and> row_running ''a'' (sy_d s)"
proof -
  let ?A = "attended demo_ext (\<lambda>_. []) (Load (\<lambda>_. [])) 1"
  obtain s where s: "reachable demo_ext (\<lambda>_. []) (Load (\<lambda>_. [])) 1 (\<lambda>_ _. False) demo_work s" "live s = [''a'']"
    using demo_run_start by blast
  have star: "?A\<^sup>*\<^sup>* (sys_init demo_work, {}) (s, {})" using own_steps s(1) by (simp add: reachable_def)
  let ?d = "snd (task_SetNextAttemptNow 0 ''a'' (sy_d s))"
  have r: "row_running ''a'' (sy_d s)"
    using no_double_dispatch [OF star db_okD(2) [OF demo_work_ok], of "''a''"] s(2) by simp
  then have "find_task ''a'' ?d \<noteq> None"
    using task_SetNextAttemptNow_effect [of 0 "''a''" "sy_d s", OF prod.collapse [symmetric]]
    by (cases "fst (task_SetNextAttemptNow 0 ''a'' (sy_d s))")
      (auto simp: row_running_def find_task_def tables_eq_iff find_rows_update [of tr_id] requeue_row_def Let_def split: option.splits)
  then have none: "{tid \<in> set (live s). find_task tid ?d = None} = {}" using s(2) by simp
  have "api_request demo_ext (sy_d s) ?d" by (rule req_run [OF prod.collapse [symmetric]])
  from requested [OF this, where env = "\<lambda>_. []" and cfg = "Load (\<lambda>_. [])" and cap = 1 and gone = "{}"]
  have "?A (s, {}) (s\<lparr>sy_d := ?d\<rparr>, {})" unfolding none by simp
  with star have star: "?A\<^sup>*\<^sup>* (sys_init demo_work, {}) (s\<lparr>sy_d := ?d\<rparr>, {})" by (rule rtranclp.rtrancl_into_rtrancl)
  have "live (s\<lparr>sy_d := ?d\<rparr>) = [''a'']" using s(2) by (simp add: live_def)
  with star no_double_dispatch [OF star db_okD(2) [OF demo_work_ok], of "''a''"] show ?thesis
    by (intro exI [of _ "s\<lparr>sy_d := ?d\<rparr>"]) simp
qed

section \<open>Dispatch, retries and backoff\<close>

lemma task_header_keys:
  "canonical_key ''Authorization'' = ''Authorization''"
  "canonical_key ''Content-Type'' = ''Content-Type''"
  "canonical_key ''User-Agent'' = ''User-Agent''"
  "canonical_key ''X-CloudTasks-QueueName'' = ''X-Cloudtasks-Queuename''"
  "canonical_key ''X-CloudTasks-TaskName'' = ''X-Cloudtasks-Taskname''"
  "canonical_key ''X-CloudTasks-TaskRetryCount'' = ''X-Cloudtasks-Taskretrycount''"
  "canonical_key ''X-CloudTasks-TaskExecutionCount'' = ''X-Cloudtasks-Taskexecutioncount''"
  "canonical_key ''X-CloudTasks-TaskETA'' = ''X-Cloudtasks-Tasketa''"
  by code_simp+

text \<open>
  C8: a dispatch writes the row of its task and no other. A 2xx answer completes the task and clears
  its error; any other outcome (an invalid request, a failed exchange, another status) counts a
  retry and sets the next attempt by the backoff while retries are left, and fails the task when
  none is; the text of the failure is kept.
\<close>

theorem dispatch_records:
  assumes "db_ok d" "find_task (t_ID t) d = Some r" "0 \<le> t_RetryCount t" "t_RetryCount t < 2 ^ 62"
  shows "let out = send (dispatch_timeout cfg t) (task_request E env start t); d' = dispatch E env cfg start now send t d in
    (\<forall>tid. tid \<noteq> t_ID t \<longrightarrow> find_task tid d' = find_task tid d)
  \<and> find_task (t_ID t) d' = Some
      (if succeeded out then r\<lparr>tr_status := StatusCompleted, tr_last_error := Some []\<rparr>
       else if t_MaxRetries t \<le> t_RetryCount t
       then r\<lparr>tr_status := StatusFailed, tr_last_error := Some (failure_text E out)\<rparr>
       else r\<lparr>tr_status := StatusPending, tr_retry_count := t_RetryCount t + 1,
              tr_next_attempt_at := formatTime (now + i64 (backoff (InitialBackoffSeconds cfg)
                (MaxBackoffSeconds cfg) (t_RetryCount t + 1) * Second)),
              tr_last_error := Some (failure_text E out)\<rparr>)"
proof -
  have i: "i64 (t_RetryCount t + 1) = t_RetryCount t + 1"
    using assms(3,4) by (intro i64_id) (simp add: in_i64_def)
  have "find_task tid (dispatch E env cfg start now send t d) = find_task tid d" if "tid \<noteq> t_ID t" for tid
    using find_task_id [of tid d] that
    by (cases "find_task tid d") (auto simp: dispatch_def dispatch_outcome_ok [OF assms(1)] find_task_def
        find_rows_update [of tr_id])
  moreover have "find_task (t_ID t) (dispatch E env cfg start now send t d)
      = Some (settled_row E cfg now t (send (dispatch_timeout cfg t) (task_request E env start t)) r)"
    using find_task_id [OF assms(2)] assms(2)
    by (simp add: dispatch_def dispatch_outcome_ok [OF assms(1)] find_task_def find_rows_update [of tr_id])
  ultimately show ?thesis by (simp add: Let_def settled_row_def i)
qed

theorem dispatch_records_witness:
  "find_task ''b'' (dispatch demo_ext (\<lambda>_. []) (Load (\<lambda>_. [])) 0 0 (\<lambda>_ _. Response 204 [] [])
      ((scanTask demo_ext (demo_row ''b'' ''RUNNING''))) demo_db)
    = Some ((demo_row ''b'' ''RUNNING'')\<lparr>tr_status := StatusCompleted, tr_last_error := Some []\<rparr>)"
proof -
  have f: "find_task (t_ID (scanTask demo_ext (demo_row ''b'' ''RUNNING''))) demo_db = Some (demo_row ''b'' ''RUNNING'')"
    by (simp add: scanTask_def demo_row_def find_task_def demo_db_def)
  from dispatch_records [OF demo_db_ok f, of "\<lambda>_ _. Response 204 [] []" "Load (\<lambda>_. [])" demo_ext "\<lambda>_. []" 0 0]
  show ?thesis by (simp add: Let_def scanTask_def demo_row_def)
qed

text \<open>One round of the worker on a task: the listed snapshot, the claim, and the dispatch if it is won.\<close>

definition attempt_round :: "ext \<Rightarrow> environment \<Rightarrow> Config \<Rightarrow> time \<Rightarrow> (duration \<Rightarrow> http_request \<Rightarrow> http_outcome) \<Rightarrow> string \<Rightarrow> db \<Rightarrow> db" where
  "attempt_round E env cfg now send tid d =
     (case task_lookup E tid d of
        None \<Rightarrow> d
      | Some t \<Rightarrow> (case task_Claim tid d of
            (Inr True, d) \<Rightarrow> dispatch E env cfg now now send t d
          | (_, d) \<Rightarrow> d))"

lemma attempt_round_failed:
  assumes "db_ok d" "find_task tid d = Some r" "tr_status r = StatusPending" "\<forall>lim rq. \<not> succeeded (send lim rq)"
    and "0 \<le> tr_retry_count r" "tr_retry_count r < 2 ^ 62"
  shows "db_ok (attempt_round E env cfg now send tid d)"
    and "\<exists>r'. find_task tid (attempt_round E env cfg now send tid d) = Some r' \<and> tr_max_retries r' = tr_max_retries r
      \<and> tr_status r' = (if tr_max_retries r \<le> tr_retry_count r then StatusFailed else StatusPending)
      \<and> tr_retry_count r' = (if tr_max_retries r \<le> tr_retry_count r then tr_retry_count r else tr_retry_count r + 1)"
proof -
  let ?t = "scanTask E r" and ?d = "snd (task_Claim tid d)"
  have c: "task_Claim tid d = (Inr True, ?d)" using assms by (simp add: task_Claim_ok claim_free_def)
  have ok: "db_ok ?d" using assms(1) by (simp add: task_Claim_ok) (simp add: db_ok_def wf_db_def map_rows_update)
  have f: "find_task (t_ID ?t) ?d = Some (r\<lparr>tr_status := StatusRunning\<rparr>)"
    using assms(1-3) find_task_id [OF assms(2)]
    by (simp add: task_Claim_ok) (simp add: find_task_def find_rows_update [of tr_id] scanTask_def)
  have e: "attempt_round E env cfg now send tid d = dispatch E env cfg now now send ?t ?d"
    unfolding attempt_round_def by (subst c) (simp add: task_lookup_def assms(2))
  show "db_ok (attempt_round E env cfg now send tid d)"
    using ok unfolding e dispatch_def dispatch_outcome_ok [OF ok] by (simp add: db_ok_def wf_db_def map_rows_update)
  have i: "i64 (tr_retry_count r + 1) = tr_retry_count r + 1"
    using assms(5,6) by (intro i64_id) (simp add: in_i64_def)
  have "find_task tid (attempt_round E env cfg now send tid d)
      = Some (settled_row E cfg now ?t (send (dispatch_timeout cfg ?t) (task_request E env now ?t)) (r\<lparr>tr_status := StatusRunning\<rparr>))"
    using f find_task_id [OF assms(2)] unfolding e dispatch_def dispatch_outcome_ok [OF ok]
    by (simp add: find_task_def find_rows_update [of tr_id] scanTask_def)
  with assms(4) i show "\<exists>r'. find_task tid (attempt_round E env cfg now send tid d) = Some r' \<and> tr_max_retries r' = tr_max_retries r
      \<and> tr_status r' = (if tr_max_retries r \<le> tr_retry_count r then StatusFailed else StatusPending)
      \<and> tr_retry_count r' = (if tr_max_retries r \<le> tr_retry_count r then tr_retry_count r else tr_retry_count r + 1)"
    by (simp add: settled_row_def scanTask_def)
qed

fun attempt_rounds :: "ext \<Rightarrow> environment \<Rightarrow> Config \<Rightarrow> (nat \<Rightarrow> time) \<Rightarrow> (duration \<Rightarrow> http_request \<Rightarrow> http_outcome) \<Rightarrow> string \<Rightarrow> nat \<Rightarrow> db \<Rightarrow> db" where
  "attempt_rounds E env cfg clk send tid 0 d = d"
| "attempt_rounds E env cfg clk send tid (Suc n) d =
     attempt_round E env cfg (clk n) send tid (attempt_rounds E env cfg clk send tid n d)"

lemma attempt_rounds_pending:
  assumes "db_ok d" "find_task tid d = Some r" "tr_status r = StatusPending" "\<forall>lim rq. \<not> succeeded (send lim rq)"
    and "tr_retry_count r = 0" "tr_max_retries r < 2 ^ 62" "int n \<le> tr_max_retries r"
  shows "db_ok (attempt_rounds E env cfg clk send tid n d)
    \<and> (\<exists>r'. find_task tid (attempt_rounds E env cfg clk send tid n d) = Some r' \<and> tr_max_retries r' = tr_max_retries r
      \<and> tr_status r' = StatusPending \<and> tr_retry_count r' = int n)"
  using assms(7)
proof (induction n)
  case (Suc n)
  then obtain r' where r': "find_task tid (attempt_rounds E env cfg clk send tid n d) = Some r'"
      "tr_max_retries r' = tr_max_retries r" "tr_status r' = StatusPending" "tr_retry_count r' = int n"
    and ok: "db_ok (attempt_rounds E env cfg clk send tid n d)"
    by auto
  have "int n < 2 ^ 62" using Suc.prems assms(6) by linarith
  from attempt_round_failed [OF ok r'(1,3) assms(4), of E env cfg "clk n"] this r' Suc.prems show ?case by auto
qed (use assms in auto)

text \<open>
  C29: a task whose target never answers 2xx is sent exactly MaxRetries + 1 times: after each of the
  first MaxRetries rounds it is PENDING again with that many retries counted, the next round fails
  it, and from then on it cannot be claimed.
\<close>

theorem retries_exhausted:
  assumes "db_ok d" "find_task tid d = Some r" "tr_status r = StatusPending" "\<forall>lim rq. \<not> succeeded (send lim rq)"
    and "tr_retry_count r = 0" "0 \<le> tr_max_retries r" "tr_max_retries r < 2 ^ 62"
  shows "(\<forall>n. int n \<le> tr_max_retries r \<longrightarrow> (\<exists>r'. find_task tid (attempt_rounds E env cfg clk send tid n d) = Some r'
        \<and> tr_status r' = StatusPending \<and> tr_retry_count r' = int n))
    \<and> (let d' = attempt_rounds E env cfg clk send tid (Suc (nat (tr_max_retries r))) d in
        (\<exists>r'. find_task tid d' = Some r' \<and> tr_status r' = StatusFailed) \<and> fst (task_Claim tid d') = Inr False)"
proof -
  let ?m = "nat (tr_max_retries r)"
  have "int ?m \<le> tr_max_retries r" using assms(6) by simp
  from attempt_rounds_pending [OF assms(1-5,7) this, of E env cfg clk] assms(6)
  obtain r' where r': "find_task tid (attempt_rounds E env cfg clk send tid ?m d) = Some r'"
      "tr_max_retries r' = tr_max_retries r" "tr_status r' = StatusPending" "tr_retry_count r' = tr_max_retries r"
    and ok: "db_ok (attempt_rounds E env cfg clk send tid ?m d)"
    by auto
  from attempt_round_failed [OF ok r'(1,3) assms(4), of E env cfg "clk ?m"] r' assms(6,7)
  have "db_ok (attempt_rounds E env cfg clk send tid (Suc ?m) d)"
    "\<exists>r'. find_task tid (attempt_rounds E env cfg clk send tid (Suc ?m) d) = Some r' \<and> tr_status r' = StatusFailed"
    by auto
  moreover have "StatusFailed \<noteq> StatusPending" by (simp add: status_defs)
  ultimately show ?thesis
    using attempt_rounds_pending [OF assms(1-5,7), of _ E env cfg clk]
    by (auto simp: Let_def task_Claim_ok claim_free_def simp del: attempt_rounds.simps)
qed

theorem retries_exhausted_witness:
  "fst (task_Claim ''a'' (attempt_rounds demo_ext (\<lambda>_. []) (Load (\<lambda>_. [])) int (\<lambda>_ _. Response 500 [] []) ''a'' 6
      (demo_work\<lparr>task_tbl := [demo_due\<lparr>tr_retry_count := 0\<rparr>]\<rparr>))) = Inr False"
proof -
  let ?d = "demo_work\<lparr>task_tbl := [demo_due\<lparr>tr_retry_count := 0\<rparr>]\<rparr>"
  have ok: "db_ok ?d" by (simp add: db_ok_def wf_db_def demo_work_def empty_db_def)
  have f: "find_task ''a'' ?d = Some (demo_due\<lparr>tr_retry_count := 0\<rparr>)"
    by (simp add: find_task_def demo_due_def demo_row_def)
  from retries_exhausted [OF ok f, of "\<lambda>_ _. Response 500 [] []" demo_ext "\<lambda>_. []" "Load (\<lambda>_. [])" int]
  show ?thesis by (simp add: demo_due_def demo_row_def StatusPending_def Let_def del: attempt_rounds.simps)
qed

text \<open>
  C31: the wait before retry k. The first is the initial backoff, the later ones the initial backoff
  doubled k - 1 times and cut at the maximum. When the initial backoff is within the maximum the waits
  never exceed it and never shrink; the configuration may also set it above, and then the first wait
  is longer than the maximum and than every later one.
\<close>

theorem task_backoff_correct:
  assumes "0 \<le> initial" "initial < 2 ^ 62" "mx < 2 ^ 62" "1 \<le> k"
  shows "backoff initial mx 1 = initial
    \<and> (1 < k \<longrightarrow> backoff initial mx k = min mx (initial * 2 ^ nat (k - 1)))
    \<and> (initial \<le> mx \<longrightarrow> backoff initial mx k \<le> mx \<and> backoff initial mx k \<le> backoff initial mx (k + 1))
    \<and> (mx < initial \<longrightarrow> backoff initial mx (k + 1) = mx)"
proof -
  have later: "backoff initial mx n = min mx (initial * 2 ^ nat (n - 1))" if "1 < n" for n
  proof -
    have "nat (n - 1) \<noteq> 0" using that by simp
    then obtain m where m: "nat (n - 1) = Suc m" using not0_implies_Suc by blast
    have i: "i64 (initial * 2) = initial * 2" using assms(1,2) by (intro i64_id) (simp add: in_i64_def)
    show ?thesis
    proof (cases "mx < initial * 2")
      case True
      have "initial * 2 * 1 \<le> initial * 2 * 2 ^ m" using assms(1) by (intro mult_left_mono) simp_all
      with True show ?thesis by (simp add: backoff_def m i)
    next
      case False
      with assms(1,3) show ?thesis by (simp add: backoff_def m i backoff_loop_spec mult.assoc)
    qed
  qed
  have grows: "initial * 2 ^ nat (k - 1) \<le> initial * 2 ^ nat k"
    using assms(1) by (intro mult_left_mono power_increasing) auto
  have "initial * 1 \<le> initial * 2 ^ nat k" using assms(1) by (intro mult_left_mono) simp_all
  moreover have "backoff initial mx 1 = initial" by (simp add: backoff_def)
  ultimately show ?thesis using later [of k] later [of "k + 1"] grows assms(4) by (cases "k = 1") (auto simp: min_le_iff_disj)
qed

theorem task_backoff_correct_witness: "backoff 1 60 4 = 8 \<and> backoff 1 60 7 = 60 \<and> backoff 90 60 1 = 90 \<and> backoff 90 60 2 = 60"
  using task_backoff_correct [of 1 60 4] task_backoff_correct [of 1 60 7] task_backoff_correct [of 90 60 1] by simp

text \<open>
  Every dispatch names its queue and task by the last segment of their resource names and
  carries the retry count, whatever headers the task was created with; a Content-Type is
  always there; an Authorization header the task brings along is sent as it is.
\<close>

theorem dispatch_headers:
  "let h = rq_headers (task_request E env now t) in
     header_get h ''X-CloudTasks-QueueName'' = path_base (t_QueueID t)
   \<and> header_get h ''X-CloudTasks-TaskName'' = path_base (t_ID t)
   \<and> header_get h ''X-CloudTasks-TaskRetryCount'' = itoa (t_RetryCount t)
   \<and> header_get h ''User-Agent'' = ''Google-Cloud-Tasks''
   \<and> header_get h ''Content-Type'' \<noteq> []
   \<and> header_get h ''Authorization'' =
       (let a = header_get (set_all (t_Headers t) Map.empty) ''Authorization'' in
        if a \<noteq> [] then a else let b = Bearer E env now in if b \<noteq> [] then ''Bearer '' @ b else a)"
  by (simp add: task_request_def Let_def header_get_set auth_Apply_def task_header_keys)

section \<open>Recovery and progress\<close>

text \<open>
  C32: RecoverRunning, which the worker runs before its first poll, leaves no task RUNNING, makes
  exactly the tasks a previous process left RUNNING pending again with their retry count and next
  attempt unchanged, and reports their number.
\<close>

theorem recover_running:
  assumes "db_ok d"
  shows "case task_RecoverRunning d of (n, d') \<Rightarrow>
      n = Inr (int (length (filter (\<lambda>r. tr_status r = StatusRunning) (task_tbl d))))
    \<and> list_all (\<lambda>r. tr_status r \<noteq> StatusRunning) (task_tbl d')
    \<and> task_tbl d' = map (\<lambda>r. if tr_status r = StatusRunning then r\<lparr>tr_status := StatusPending\<rparr> else r) (task_tbl d)"
  using assms
  by (auto simp: task_RecoverRunning_def update_tasks_def db_ok_def rows_affected_def rows_update_def list_all_iff
      status_defs)

theorem recover_running_witness: "fst (task_RecoverRunning demo_db) = Inr 1"
  using recover_running [OF demo_db_ok] by (simp add: demo_db_def demo_row_def StatusRunning_def case_prod_beta)

text \<open>
  A queue the worker can take a task of now: a free place within its concurrency limit, and a token in
  its bucket after the refill. A queue that has no bucket yet gets a full one.
\<close>

definition may_start :: "time \<Rightarrow> Queue \<Rightarrow> worker \<Rightarrow> bool" where
  "may_start now q w \<longleftrightarrow>
     (let mc = MaxConcurrentDispatches (limits_of q); rate = MaxDispatchesPerSecond (limits_of q) in
      (0 < mc \<longrightarrow> inflight w (q_ID q) < mc)
    \<and> (0 < rate \<longrightarrow> rate \<le> 2 ^ 53
        \<and> (case buckets w (q_ID q) of None \<Rightarrow> True | Some b \<Rightarrow> 1 \<le> tokens (refill now (of_int rate) b))))"

lemma queue_limit_positive:
  assumes "may_start now q w" "0 < room"
  shows "0 < fst (queue_limit now q room w)"
proof -
  let ?mc = "MaxConcurrentDispatches (limits_of q)" and ?rate = "MaxDispatchesPerSecond (limits_of q)"
  let ?lim = "if ?mc > 0 then min room (?mc - inflight w (q_ID q)) else room"
  have lim: "0 < ?lim" using assms by (simp add: may_start_def Let_def)
  show ?thesis
  proof (cases "0 < ?rate")
    case True
    let ?b = "case buckets w (q_ID q) of None \<Rightarrow> \<lparr>tokens = max 1 (of_int ?rate), last_refill = now\<rparr> | Some b \<Rightarrow> b"
    have r: "?rate \<le> 2 ^ 53" using assms(1) True by (simp add: may_start_def Let_def)
    have fl: "fl64 (of_int ?rate) = of_int ?rate" using True r by (intro float64.fl_int) simp
    have tok: "1 \<le> tokens (refill now (of_int ?rate) ?b)"
      using assms(1) True r fresh_bucket [of ?rate now]
      by (auto simp: may_start_def Let_def fl split: option.splits)
    have "(1 :: rat) \<le> of_int ?rate" using True by simp
    then have "tokens (refill now (of_int ?rate) ?b) \<le> of_int ?rate" by (simp add: refill_def Let_def)
    also have "(of_int ?rate :: rat) \<le> of_int (2 ^ 53)" using r by (simp only: of_int_le_iff)
    finally have "\<lfloor>tokens (refill now (of_int ?rate) ?b)\<rfloor> \<le> 2 ^ 53" by (simp add: floor_le_iff)
    moreover have "1 \<le> \<lfloor>tokens (refill now (of_int ?rate) ?b)\<rfloor>" using tok by (simp add: le_floor_iff)
    ultimately have "1 \<le> go_int (tokens (refill now (of_int ?rate) ?b))"
      using tok by (simp add: go_int_def Let_def in_i64_def)
    with lim True show ?thesis by (cases "buckets w (q_ID q)") (simp_all add: queue_limit_def Let_def fl)
  next
    case False
    with lim show ?thesis by (simp add: queue_limit_def Let_def)
  qed
qed

lemma poll_queues_starts:
  assumes "db_ok d" "sem_len w < cap" "distinct (map q_ID qs)" "q \<in> set qs" "\<not> Paused q" "may_start now q w"
    and "r \<in> set (task_tbl d)" "tr_queue_id r = q_ID q" "due (clk (q_ID q)) r"
  shows "fst (poll_queues E cap now clk qs w d) \<noteq> []"
  using assms
proof (induction qs arbitrary: w)
  case (Cons q1 qs)
  show ?case
  proof (cases "Paused q1")
    case True
    with Cons.prems Cons.IH [of w] show ?thesis by auto
  next
    case False
    obtain limit useb w' where l: "queue_limit now q1 (cap - sem_len w) w = (limit, useb, w')"
      by (cases "queue_limit now q1 (cap - sem_len w) w")
    note w' = queue_limit_spec(2,3,6) [OF l]
    have later: "fst (poll_queues E cap now clk qs w' d) \<noteq> []" if "q \<noteq> q1"
    proof -
      have n: "q_ID q \<noteq> q_ID q1" using that Cons.prems(3,4) by (auto simp: image_iff)
      with Cons.prems(6) w' have "may_start now q w'" by (simp add: may_start_def)
      with that Cons.prems w'(2) show ?thesis by (intro Cons.IH) simp_all
    qed
    show ?thesis
    proof (cases "0 < limit")
      case False
      have "q \<noteq> q1" using queue_limit_positive [of now q1 w "cap - sem_len w"] Cons.prems(2,6) l False by auto
      from later [OF this] show ?thesis using \<open>\<not> Paused q1\<close> Cons.prems(2) l False by simp
    next
      case True
      define ts where "ts = task_rows_pending (clk (q_ID q1)) (q_ID q1) limit d"
      have p: "task_ListPendingForQueue E (clk (q_ID q1)) (q_ID q1) limit d = (Inr (map (scanTask E) ts), d)"
        using Cons.prems(1) by (simp add: task_ListPendingForQueue_def task_query_def select_def db_ok_def ts_def)
      have u: "poll_queues E cap now clk (q1 # qs) w d =
          (case poll_tasks cap q1 useb (map (scanTask E) ts) w' d of (stop, started, w, d) \<Rightarrow>
             if stop then (started, w, d)
             else case poll_queues E cap now clk qs w d of (rest, w, d) \<Rightarrow> (started @ rest, w, d))"
        using \<open>\<not> Paused q1\<close> l True p Cons.prems(2) by simp
      show ?thesis
      proof (cases ts)
        case Nil
        have "q \<noteq> q1"
          using Cons.prems(7-9) Nil True task_rows_pending_full [of r d "q_ID q1" "clk (q_ID q1)" limit]
          by (auto simp: ts_def)
        from later [OF this] show ?thesis unfolding u using Nil by (simp add: case_prod_beta)
      next
        case (Cons r1 ts')
        have r1: "r1 \<in> set (task_tbl d)" "due (clk (q_ID q1)) r1"
          using task_rows_pending_mem(1,3) [of r1 "clk (q_ID q1)" "q_ID q1" limit d] Cons by (simp_all add: ts_def)
        have "find_task (tr_id r1) d = Some r1"
          using find_key_mem [of tr_id "task_tbl d" r1] r1(1) Cons.prems(1) by (simp add: find_task_def db_ok_def wf_db_def)
        with r1(2) have c: "claim_free (tr_id r1) d" by (simp add: claim_free_def due_def)
        have "fst (snd (poll_tasks cap q1 useb (map (scanTask E) ts) w' d)) \<noteq> []"
          using Cons.prems(1,2) w'(2) c
          by (simp add: Cons sem_acquire_def task_Claim_ok scanTask_def case_prod_beta)
        then show ?thesis unfolding u by (simp add: case_prod_beta)
      qed
    qed
  qed
qed simp

text \<open>
  C30: a poll makes progress: when the worker has a free slot, whatever else it is doing, and some
  queue that is not paused has a task that is due, a free place within its concurrency limit and a
  token in its bucket after the refill, the poll starts at least one dispatch, on a database without
  failures. The rate is taken to be at most 2^53, where the token count fits an integer.
\<close>

theorem poll_starts_due:
  assumes "db_ok d" "sem_len w < cap" "q \<in> set (queue_tbl d)" "qr_state q \<noteq> StatePaused"
    and "may_start now (scanQueue E q) w"
    and "r \<in> set (task_tbl d)" "tr_queue_id r = qr_id q" "due (clk (qr_id q)) r"
  shows "fst (pollAndDispatch E cap now clk w d) \<noteq> []"
proof -
  define rs where "rs = sort_key (\<lambda>r. (qr_project r, qr_location r, qr_name r)) (queue_tbl d)"
  have a: "queue_ListAll E d = (Inr (map (scanQueue E) rs), d)"
    using assms(1) by (simp add: queue_ListAll_def queue_query_def select_def db_ok_def rs_def)
  have "mset (map qr_id rs) = mset (map qr_id (queue_tbl d))" by (simp add: rs_def)
  then have "distinct (map qr_id rs)"
    using assms(1) by (metis db_ok_def wf_db_def mset_eq_imp_distinct_iff)
  moreover have i: "q_ID \<circ> scanQueue E = qr_id" by (auto simp: scanQueue_def)
  ultimately have "distinct (map q_ID (map (scanQueue E) rs))" by simp
  then have "fst (poll_queues E cap now clk (map (scanQueue E) rs) w d) \<noteq> []"
    using assms by (intro poll_queues_starts [where q = "scanQueue E q" and r = r])
      (auto simp: rs_def scanQueue_def Paused_def)
  then show ?thesis by (simp add: pollAndDispatch_def a)
qed

text \<open>One of two slots is taken, and the bucket of the queue holds one token.\<close>

theorem poll_starts_due_witness:
  "fst (pollAndDispatch demo_ext 2 0 (\<lambda>_. 0)
     (worker_New\<lparr>sem_len := 1, buckets := [''q'' \<mapsto> \<lparr>tokens = 1, last_refill = 0\<rparr>]\<rparr>) demo_work) \<noteq> []"
proof (rule poll_starts_due [OF demo_work_ok, where q = demo_qrow and r = demo_due])
  show "may_start 0 (scanQueue demo_ext demo_qrow)
      (worker_New\<lparr>sem_len := 1, buckets := [''q'' \<mapsto> \<lparr>tokens = 1, last_refill = 0\<rparr>]\<rparr>)"
    using fresh_bucket [of 1 0] float64.fl_int [of 1]
    by (simp add: may_start_def Let_def scanQueue_def demo_qrow_def limits_of_def worker_New_def)
qed (simp_all add: demo_work_def demo_qrow_def demo_due_def demo_row_def due_def StatusPending_def StateRunning_def StatePaused_def)

text \<open>
  C33: the outcome of a dispatch is recorded under the task's name only. When a running task is
  deleted and a task of the same name created before the dispatch ends, a 2xx answer to the old
  request completes the new task, which was never sent.
\<close>

theorem recreated_task_completed:
  assumes "db_ok d" "find_task (t_ID t) d \<noteq> None" "t_Name t' = t_ID t" "succeeded (send (dispatch_timeout cfg t) (task_request E env start t))"
  shows "\<exists>r. find_task (t_ID t) (dispatch E env cfg start now send t
        (snd (task_Create E wall t' (snd (task_Delete (t_ID t) d))))) = Some r
      \<and> tr_url r = t_URL t' \<and> tr_body r = t_Body t' \<and> tr_status r = StatusCompleted"
proof -
  let ?d1 = "snd (task_Delete (t_ID t) d)" and ?r = "task_insert_row E wall (t'\<lparr>t_ID := t_Name t'\<rparr>)"
  let ?d2 = "snd (task_Create E wall t' ?d1)"
  have d1: "?d1 = d\<lparr>task_tbl := rows_delete (\<lambda>r. tr_id r = t_ID t) (task_tbl d)\<rparr>"
    using assms(1,2) by (auto simp: task_Delete_ok)
  have ok1: "db_ok ?d1" using assms(1) unfolding d1 by (auto simp: db_ok_def wf_db_def intro: distinct_rows_delete)
  have n: "find_task (t_Name t') ?d1 = None"
    unfolding d1 find_task_def by (simp add: find_None_iff assms(3))
  have d2: "?d2 = ?d1\<lparr>task_tbl := task_tbl ?d1 @ [?r]\<rparr>" using n by (simp add: task_Create_ok [OF ok1])
  have ok2: "db_ok ?d2"
    using ok1 n unfolding d2 by (auto simp: db_ok_def wf_db_def find_task_def find_key_None [of tr_id])
  have "find_task (t_ID t) ?d2 = Some ?r"
    using n unfolding d2 by (simp add: find_task_def find_append assms(3))
  then show ?thesis
    unfolding dispatch_def dispatch_outcome_ok [OF ok2] using assms(3,4)
    by (simp add: find_task_def find_rows_update [of tr_id] settled_row_def) (simp add: task_insert_row_def)
qed

theorem recreated_task_completed_witness:
  "\<exists>r. find_task ''b'' (dispatch demo_ext (\<lambda>_. []) (Load (\<lambda>_. [])) 0 0 (\<lambda>_ _. Response 200 [] [])
        (scanTask demo_ext (demo_row ''b'' ''RUNNING''))
        (snd (task_Create demo_ext 0 (demo_task\<lparr>t_Name := ''b''\<rparr>) (snd (task_Delete ''b'' demo_db))))) = Some r
      \<and> tr_body r = ''body'' \<and> tr_status r = StatusCompleted"
  using recreated_task_completed [OF demo_db_ok, of "scanTask demo_ext (demo_row ''b'' ''RUNNING'')"
      "demo_task\<lparr>t_Name := ''b''\<rparr>" "\<lambda>_ _. Response 200 [] []" "Load (\<lambda>_. [])" demo_ext "\<lambda>_. []" 0 0 0]
  by (auto simp: scanTask_def demo_row_def find_task_def demo_db_def demo_task_def)

end
