(* ===== verification/Rest_Base.thy ===== *)
theory Rest_Base
  imports Tasks Auth_Config Go_Float
begin

text \<open>
  What the REST handlers of package api share: replies, the values of the path, the base64
  encodings of \<^verbatim>\<open>encoding/base64\<close>, and integers made of floats. A handler is a function from the
  configuration, the clock, the path, the decoded request and the database to a reply and the
  database after it.
\<close>

section \<open>Replies\<close>

text \<open>
  \<^verbatim>\<open>writeJSON\<close> and \<^verbatim>\<open>writeError\<close> write the status and the body once; nothing is written after.
\<close>

datatype 'a reply = writeJSON int 'a | writeError int string string

fun reply_status :: "'a reply \<Rightarrow> int" where
  "reply_status (writeJSON st v) = st"
| "reply_status (writeError st code msg) = st"

abbreviation "StatusOK \<equiv> 200 :: int"
abbreviation "StatusBadRequest \<equiv> 400 :: int"
abbreviation "StatusNotFound \<equiv> 404 :: int"
abbreviation "StatusConflict \<equiv> 409 :: int"
abbreviation "StatusInternalServerError \<equiv> 500 :: int"

definition invalid_argument :: "string \<Rightarrow> 'a reply" where
  "invalid_argument msg = writeError StatusBadRequest ''INVALID_ARGUMENT'' msg"

definition internal_error :: "error \<Rightarrow> 'a reply" where
  "internal_error e = writeError StatusInternalServerError ''INTERNAL'' (error_text e)"

lemma reply_status_errors [simp]:
  "reply_status (invalid_argument msg) = 400" "reply_status (internal_error e) = 500"
  by (simp_all add: invalid_argument_def internal_error_def)

text \<open>\<^verbatim>\<open>r.PathValue\<close> for the wildcards of the routes; a wildcard a route does not have is empty.\<close>

record path_values =
  pv_project :: string
  pv_location :: string
  pv_queue :: string
  pv_task :: string
  pv_job :: string

definition or_default :: "string \<Rightarrow> string \<Rightarrow> string" where
  "or_default s dflt = (if s = [] then dflt else s)"

definition queueIDFrom :: "Config \<Rightarrow> path_values \<Rightarrow> string" where
  "queueIDFrom cfg p =
     queue_path (or_default (pv_project p) (DefaultProject cfg)) (or_default (pv_location p) (DefaultLocation cfg)) (pv_queue p)"

section \<open>Base64\<close>

definition b64_std_char :: "nat \<Rightarrow> char" where
  "b64_std_char n = (if n = 62 then CHR ''+'' else if n = 63 then CHR ''/'' else b64_char n)"

text \<open>\<^verbatim>\<open>base64.StdEncoding.EncodeToString\<close>: with padding.\<close>

fun b64_pad :: "nat list \<Rightarrow> string" where
  "b64_pad [] = []"
| "b64_pad [a] = [b64_std_char (a div 4), b64_std_char (a mod 4 * 16), CHR ''='', CHR ''='']"
| "b64_pad [a, b] =
     [b64_std_char (a div 4), b64_std_char (a mod 4 * 16 + b div 16), b64_std_char (b mod 16 * 4), CHR ''='']"
| "b64_pad (a # b # c # r) =
     [b64_std_char (a div 4), b64_std_char (a mod 4 * 16 + b div 16), b64_std_char (b mod 16 * 4 + c div 64),
      b64_std_char (c mod 64)] @ b64_pad r"

definition b64_std :: "string \<Rightarrow> string" where
  "b64_std s = b64_pad (map of_char s)"

text \<open>The value of a character of an alphabet, given by its 64 characters.\<close>

definition b64_val :: "(nat \<Rightarrow> char) \<Rightarrow> char \<Rightarrow> nat option" where
  "b64_val alpha c = find (\<lambda>n. alpha n = c) [0..<64]"

text \<open>
  The decoding without padding: groups of four characters give three bytes, a last group of two or
  three gives one or two; the spare bits of a last group are ignored, as outside strict mode.
\<close>

fun b64_decode_raw :: "nat list \<Rightarrow> nat list option" where
  "b64_decode_raw [] = Some []"
| "b64_decode_raw [a] = None"
| "b64_decode_raw [a, b] = Some [a * 4 + b div 16]"
| "b64_decode_raw [a, b, c] = Some [a * 4 + b div 16, b mod 16 * 16 + c div 4]"
| "b64_decode_raw (a # b # c # e # r) =
     map_option (\<lambda>bs. [a * 4 + b div 16, b mod 16 * 16 + c div 4, c mod 4 * 64 + e] @ bs) (b64_decode_raw r)"

fun map_all :: "('a \<Rightarrow> 'b option) \<Rightarrow> 'a list \<Rightarrow> 'b list option" where
  "map_all f [] = Some []"
| "map_all f (x # xs) =
     (case f x of None \<Rightarrow> None | Some y \<Rightarrow> map_option (\<lambda>ys. y # ys) (map_all f xs))"

text \<open>\<^verbatim>\<open>Encoding.DecodeString\<close>: line ends are skipped; with padding the text comes in groups of four.\<close>

definition b64_decode :: "(nat \<Rightarrow> char) \<Rightarrow> bool \<Rightarrow> string \<Rightarrow> string option" where
  "b64_decode alpha padded s =
     (let s = filter (\<lambda>c. c \<noteq> CHR 0x0A \<and> c \<noteq> CHR 0x0D) s;
          body = (if \<not> padded then s else if has_suffix s ''=='' then take (length s - 2) s
                  else trim_suffix s ''='')
      in if padded \<and> length s mod 4 \<noteq> 0 then None
         else Option.bind (map_all (b64_val alpha) body) (\<lambda>vs. map_option (map char_of) (b64_decode_raw vs)))"

subsection \<open>Reading back\<close>

definition b64_code :: "nat \<Rightarrow> nat" where
  "b64_code n = (if n < 26 then 65 + n else if n < 52 then 71 + n else if n < 62 then n - 4
     else if n = 62 then 43 else 47)"

lemma b64_std_char_code: "n < 64 \<Longrightarrow> of_char (b64_std_char n) = b64_code n"
  by (auto simp: b64_std_char_def b64_char_def b64_code_def)

lemma b64_code_inj: "m < 64 \<Longrightarrow> n < 64 \<Longrightarrow> b64_code m = b64_code n \<Longrightarrow> m = n"
  by (simp add: b64_code_def split: if_splits)

lemma b64_std_char_inj: "m < 64 \<Longrightarrow> n < 64 \<Longrightarrow> b64_std_char m = b64_std_char n \<Longrightarrow> m = n"
  using b64_std_char_code [of m] b64_std_char_code [of n] b64_code_inj [of m n] by metis

lemma find_unique:
  assumes "x \<in> set xs" "P x" "\<And>y. y \<in> set xs \<Longrightarrow> P y \<Longrightarrow> y = x"
  shows "find P xs = Some x"
proof (cases "find P xs")
  case None
  with assms(1,2) show ?thesis by (auto simp: find_None_iff)
next
  case (Some y)
  then have "y \<in> set xs \<and> P y" by (auto simp: find_Some_iff)
  with assms(3) Some show ?thesis by simp
qed

lemma b64_std_char_values: "n < 64 \<Longrightarrow> b64_val b64_std_char (b64_std_char n) = Some n"
  unfolding b64_val_def
  by (rule find_unique) (simp_all only: set_upt atLeastLessThan_iff b64_std_char_inj, simp)

lemma b64_std_char_plain:
  assumes "n < 64"
  shows "b64_std_char n \<noteq> CHR ''=''" "b64_std_char n \<noteq> CHR 0x0A" "b64_std_char n \<noteq> CHR 0x0D"
  using b64_std_char_code [OF assms] by (auto simp: b64_code_def split: if_splits)

text \<open>The encoding as its six-bit values and the padding.\<close>

fun b64_values :: "nat list \<Rightarrow> nat list" where
  "b64_values [] = []"
| "b64_values [a] = [a div 4, a mod 4 * 16]"
| "b64_values [a, b] = [a div 4, a mod 4 * 16 + b div 16, b mod 16 * 4]"
| "b64_values (a # b # c # r) =
     [a div 4, a mod 4 * 16 + b div 16, b mod 16 * 4 + c div 64, c mod 64] @ b64_values r"

lemma b64_pad_values:
  "b64_pad ns = map b64_std_char (b64_values ns)
    @ replicate (if length ns mod 3 = 0 then 0 else 3 - length ns mod 3) (CHR ''='')"
  by (induction ns rule: b64_values.induct) (simp_all add: numeral_2_eq_2)

lemma length_b64_values: "length (b64_values ns)
    = length ns div 3 * 4 + (if length ns mod 3 = 0 then 0 else length ns mod 3 + 1)"
  by (induction ns rule: b64_values.induct) simp_all

lemma b64_values_small: "list_all (\<lambda>n. n < 256) ns \<Longrightarrow> list_all (\<lambda>n. n < 64) (b64_values ns)"
proof (induction ns rule: b64_values.induct)
  case (4 a b c r)
  then show ?case by (auto simp: less_mult_imp_div_less)
qed (auto simp: less_mult_imp_div_less)

lemma b64_values_decode: "list_all (\<lambda>n. n < 256) ns \<Longrightarrow> b64_decode_raw (b64_values ns) = Some ns"
proof (induction ns rule: b64_values.induct)
  case (4 a b c r)
  then show ?case by (auto simp: div_mult_mod_eq)
qed auto

lemma map_all_alphabet: "list_all (\<lambda>n. n < 64) vs \<Longrightarrow> map_all (b64_val b64_std_char) (map b64_std_char vs) = Some vs"
  by (induction vs) (simp_all add: b64_std_char_values)

lemma b64_values_plain:
  assumes "list_all (\<lambda>n. n < 64) vs"
  shows "CHR ''='' \<notin> set (map b64_std_char vs)" "filter (\<lambda>c. c \<noteq> CHR 0x0A \<and> c \<noteq> CHR 0x0D) (map b64_std_char vs) = map b64_std_char vs"
  using assms by (force simp: list_all_iff dest: b64_std_char_plain(1), simp add: list_all_iff filter_id_conv b64_std_char_plain)

lemma has_suffix_iff: "has_suffix s p \<longleftrightarrow> (\<exists>r. s = r @ p)"
  unfolding has_suffix_def has_prefix_iff by (metis rev_append rev_rev_ident)

lemma strip_padding:
  assumes "CHR ''='' \<notin> set s" "k \<le> 2" "s \<noteq> [] \<or> k = 0"
  shows "(if has_suffix (s @ replicate k (CHR ''='')) ''=='' then take (length (s @ replicate k (CHR ''='')) - 2) (s @ replicate k (CHR ''=''))
          else trim_suffix (s @ replicate k (CHR ''='')) ''='') = s"
proof -
  consider "k = 0" | "k = 1" | "k = 2" using assms(2) by linarith
  then show ?thesis
    using assms(1) by cases (auto simp: trim_suffix_def has_suffix_iff numeral_2_eq_2)
qed

lemma b64_roundtrip: "b64_decode b64_std_char True (b64_std s) = Some s"
proof -
  let ?ns = "map of_char s :: nat list" and ?f = "\<lambda>c. c \<noteq> CHR 0x0A \<and> c \<noteq> CHR 0x0D"
  let ?k = "if length ?ns mod 3 = 0 then 0 else 3 - length ?ns mod 3"
  have b: "list_all (\<lambda>n. n < 256) ?ns" by (auto simp: list_all_iff)
  note v = b64_values_small [OF b]
  have f: "filter ?f (b64_std s) = b64_std s"
    unfolding b64_std_def b64_pad_values filter_append b64_values_plain(2) [OF v] by (simp add: filter_id_conv)
  have "length (b64_std s) = length (b64_values ?ns) + ?k" unfolding b64_std_def b64_pad_values by simp
  then have l: "length (b64_std s) mod 4 = 0" unfolding length_b64_values by simp
  have "b64_values ?ns \<noteq> [] \<or> ?k = 0" by (cases s) (auto simp: length_b64_values simp flip: length_0_conv)
  then have p: "(if has_suffix (b64_std s) ''=='' then take (length (b64_std s) - 2) (b64_std s) else trim_suffix (b64_std s) ''='')
      = map b64_std_char (b64_values ?ns)"
    unfolding b64_std_def b64_pad_values
    by (intro strip_padding b64_values_plain(1) [OF v]) auto
  show ?thesis
    unfolding b64_decode_def Let_def f l p
    by (simp add: map_all_alphabet [OF v] b64_values_decode [OF b] comp_def)
qed

end
