(* ===== verification/Grpc_Base.thy ===== *)
theory Grpc_Base
  imports Rest_Base
begin

text \<open>
  What the two gRPC servers share: status errors, the messages and enumerations of the protocol
  buffers they read and write, and resource names of parents. A message is a record of the fields
  the servers use, as their getters return them: a message-valued field that may be absent is an
  option, a \<^verbatim>\<open>Timestamp\<close> or \<^verbatim>\<open>Duration\<close> is the instant or duration \<^verbatim>\<open>AsTime\<close> and \<^verbatim>\<open>AsDuration\<close> give,
  an enumeration has its declared values.
\<close>

datatype grpc_code = InvalidArgument | NotFound | AlreadyExists | Internal

type_synonym 'a grpc = "(grpc_code \<times> string) + 'a"

datatype pb_method = METHOD_UNSPECIFIED | M_POST | M_GET | M_HEAD | M_PUT | M_DELETE | M_PATCH | M_OPTIONS

text \<open>\<^verbatim>\<open>int32(x)\<close> wraps.\<close>

definition i32 :: "int \<Rightarrow> int" where
  "i32 x = (x + 2 ^ 31) mod 2 ^ 32 - 2 ^ 31"

lemma i32_id: "- (2 ^ 31) \<le> x \<Longrightarrow> x < 2 ^ 31 \<Longrightarrow> i32 x = x"
  by (simp add: i32_def)

definition parseParent :: "string \<Rightarrow> string + (string \<times> string)" where
  "parseParent parent =
     (case go_split slash parent of
        a # b # c # e # _ \<Rightarrow>
          if a \<noteq> ''projects'' \<or> c \<noteq> ''locations'' then Inl (''invalid parent: '' @ parent) else Inr (b, e)
      | _ \<Rightarrow> Inl (''invalid parent: '' @ parent))"

definition parseTaskParent :: "string \<Rightarrow> string + (string \<times> string \<times> string)" where
  "parseTaskParent parent =
     (case go_split slash parent of
        a # b # c # e # f # g # _ \<Rightarrow>
          if a \<noteq> ''projects'' \<or> c \<noteq> ''locations'' \<or> f \<noteq> ''queues''
          then Inl (''invalid parent: '' @ parent) else Inr (b, e, g)
      | _ \<Rightarrow> Inl (''invalid parent: '' @ parent))"

lemma parseTaskParent_path:
  assumes "slash \<notin> set pr" "slash \<notin> set l" "slash \<notin> set q"
  shows "parseTaskParent (queue_path pr l q) = Inr (pr, l, q)"
proof -
  have "go_split slash (queue_path pr l q) = [''projects'', pr, ''locations'', l, ''queues'', q]"
    using go_split_append [of slash "''projects''"] go_split_append [OF assms(1)]
      go_split_append [of slash "''locations''"] go_split_append [OF assms(2)]
      go_split_append [of slash "''queues''"] go_split_nosep [OF assms(3)]
    by (simp add: queue_path_def)
  then show ?thesis by (simp add: parseTaskParent_def)
qed

end
