(* ===== verification/Rest_Queues.thy ===== *)
theory Rest_Queues
  imports Rest_Base
begin

text \<open>
  api/queue_handler.go: the REST handlers for queues. \<^verbatim>\<open>rest_queue_X\<close> models \<^verbatim>\<open>QueueHandler.X\<close>; a
  request body comes decoded, or as the text of the decoder's error.
\<close>

record queue_body =
  qb_Name :: string
  qb_RateLimits :: "RateLimits option"

type_synonym createQueueRequest = "queue_body option"

record queueResponse =
  qp_Name :: string
  qp_State :: string
  qp_RateLimits :: "RateLimits option"

definition toQueueResponse :: "Queue \<Rightarrow> queueResponse" where
  "toQueueResponse q =
     \<lparr>qp_Name = queue_ResourceName q (q_Project q) (q_Location q),
      qp_State = (if q_State q = [] then StateRunning else q_State q),
      qp_RateLimits = q_RateLimits q\<rparr>"

definition rest_queue_Create ::
  "ext \<Rightarrow> Config \<Rightarrow> time \<Rightarrow> path_values \<Rightarrow> string + createQueueRequest \<Rightarrow> db \<Rightarrow> queueResponse reply \<times> db" where
  "rest_queue_Create E cfg now p decoded d =
     (let project = or_default (pv_project p) (DefaultProject cfg);
          location = or_default (pv_location p) (DefaultLocation cfg) in
      case decoded of
        Inl err \<Rightarrow> (invalid_argument err, d)
      | Inr None \<Rightarrow> (invalid_argument ''queue name is required'', d)
      | Inr (Some req) \<Rightarrow>
          if qb_Name req = [] then (invalid_argument ''queue name is required'', d)
          else let shortName = after_last slash (qb_Name req) in
          case queue_ValidateName E shortName of
            Some e \<Rightarrow> (invalid_argument (error_text e), d)
          | None \<Rightarrow>
              let q = \<lparr>q_ID = [], q_Name = shortName, q_Project = project, q_Location = location, q_State = [],
                       q_RateLimits = qb_RateLimits req, q_CreatedAt = zero_time\<rparr> in
              case queue_Create now q d of
                (Inl e, d) \<Rightarrow>
                  (if e = QueueAlreadyExists
                   then writeError StatusConflict ''ALREADY_EXISTS'' (''queue already exists: '' @ q_ID (queue_prepared q))
                   else internal_error e, d)
              | (Inr q, d) \<Rightarrow> (writeJSON StatusOK (toQueueResponse q), d))"

definition rest_queue_List :: "ext \<Rightarrow> Config \<Rightarrow> path_values \<Rightarrow> db \<Rightarrow> queueResponse list reply \<times> db" where
  "rest_queue_List E cfg p d =
     (case queue_List E (or_default (pv_project p) (DefaultProject cfg))
             (or_default (pv_location p) (DefaultLocation cfg)) d of
        (Inl e, d) \<Rightarrow> (internal_error e, d)
      | (Inr qs, d) \<Rightarrow> (writeJSON StatusOK (map toQueueResponse qs), d))"

definition rest_queue_Get :: "ext \<Rightarrow> Config \<Rightarrow> path_values \<Rightarrow> db \<Rightarrow> queueResponse reply \<times> db" where
  "rest_queue_Get E cfg p d =
     (case queue_Get E (queueIDFrom cfg p) d of
        (Inl e, d) \<Rightarrow> (internal_error e, d)
      | (Inr None, d) \<Rightarrow> (writeError StatusNotFound ''NOT_FOUND'' ''queue not found'', d)
      | (Inr (Some q), d) \<Rightarrow> (writeJSON StatusOK (toQueueResponse q), d))"

definition writeQueueError :: "error \<Rightarrow> 'a reply" where
  "writeQueueError e =
     (if e = QueueNotFound then writeError StatusNotFound ''NOT_FOUND'' (error_text e) else internal_error e)"

definition rest_queue_Delete :: "Config \<Rightarrow> path_values \<Rightarrow> db \<Rightarrow> unit reply \<times> db" where
  "rest_queue_Delete cfg p d =
     (case queue_Delete (queueIDFrom cfg p) d of
        (Inl e, d) \<Rightarrow> (writeQueueError e, d)
      | (Inr _, d) \<Rightarrow> (writeJSON StatusOK (), d))"

text \<open>
  The verb after the colon; \<open>None\<close> is the default arm. \<^verbatim>\<open>errors.Join(ErrNotFound, err)\<close> is the not
  found error whatever \<^verbatim>\<open>err\<close> is, and prints both on lines of their own.
\<close>

definition queue_verb :: "ext \<Rightarrow> string \<Rightarrow> string \<Rightarrow> db \<Rightarrow> ((error + unit) \<times> db) option" where
  "queue_verb E verb qid d =
     (if verb = ''pause'' then Some (queue_SetState qid StatePaused d)
      else if verb = ''resume'' then Some (queue_SetState qid StateRunning d)
      else if verb = ''purge'' then Some (case queue_Purge E qid d of (r, d) \<Rightarrow> (map_sum (\<lambda>e. e) (\<lambda>_. ()) r, d))
      else None)"

definition rest_queue_Action :: "ext \<Rightarrow> path_values \<Rightarrow> db \<Rightarrow> queueResponse reply \<times> db" where
  "rest_queue_Action E p d =
     (case go_cut colon (pv_queue p) of (name, verb, _) \<Rightarrow>
      let qid = queue_path (pv_project p) (pv_location p) name in
      case queue_verb E verb qid d of
        None \<Rightarrow> (writeError StatusNotFound ''NOT_FOUND'' ''unknown method'', d)
      | Some (Inl e, d) \<Rightarrow> (writeQueueError e, d)
      | Some (Inr _, d) \<Rightarrow>
          (case queue_Get E qid d of
             (Inl e, d) \<Rightarrow>
               (writeError StatusNotFound ''NOT_FOUND'' (error_text QueueNotFound @ [CHR 0x0A] @ error_text e), d)
           | (Inr None, d) \<Rightarrow> (writeQueueError QueueNotFound, d)
           | (Inr (Some q), d) \<Rightarrow> (writeJSON StatusOK (toQueueResponse q), d)))"

end
