(* ===== verification/Rest_Tasks.thy ===== *)
theory Rest_Tasks
  imports Rest_Queues
begin

text \<open>
  api/task_handler.go: the REST handlers for tasks. \<^verbatim>\<open>rest_task_X\<close> models \<^verbatim>\<open>TaskHandler.X\<close>. The
  dispatch deadline and the body of a request come as the raw JSON of the field, since the handler
  decodes them itself; the rest of the request body comes decoded, or as the decoder's error text.
\<close>

section \<open>Request\<close>

definition defaultPageSize :: int where "defaultPageSize = 1000"
definition maxPageSize :: int where "maxPageSize = 1000"

definition validHTTPMethods :: "string list" where
  "validHTTPMethods = [''POST'', ''GET'', ''HEAD'', ''PUT'', ''DELETE'', ''PATCH'', ''OPTIONS'']"

text \<open>\<^verbatim>\<open>strings.Trim(s, quote)\<close>: quotes are taken off at both ends.\<close>

definition trim_quotes :: "string \<Rightarrow> string" where
  "trim_quotes s = rev (dropWhile (\<lambda>c. c = CHR 0x22) (rev (dropWhile (\<lambda>c. c = CHR 0x22) s)))"

text \<open>\<^verbatim>\<open>flexDuration.UnmarshalJSON\<close>: unset, seconds, or an error.\<close>

definition flexDuration_Unmarshal :: "ext \<Rightarrow> string \<Rightarrow> string + go_float option" where
  "flexDuration_Unmarshal E b =
     (let s = trim_space b in
      if s = ''null'' then Inr None
      else let s = trim_suffix (trim_quotes s) ''s'' in
      case parse_float E s of
        None \<Rightarrow> Inl (''invalid duration '' @ b @ '' (expected e.g. '' @ [CHR 0x22] @ ''30s'' @ [CHR 0x22] @ '')'')
      | Some f \<Rightarrow> Inr (Some f))"

definition decodeBody :: "ext \<Rightarrow> string \<Rightarrow> string + string" where
  "decodeBody E raw =
     (let raw = trim_space raw in
      if raw = [] \<or> raw = ''null'' then Inr []
      else if hd raw \<noteq> CHR 0x22 then Inr raw
      else case json_unstring E raw of
        Inl err \<Rightarrow> Inl err
      | Inr s \<Rightarrow>
          (case List.find (\<lambda>b. b \<noteq> None)
                  [b64_decode b64_std_char True s, b64_decode b64_std_char False s,
                   b64_decode b64_char True s, b64_decode b64_char False s] of
             Some (Some b) \<Rightarrow> Inr b
           | _ \<Rightarrow> Inl ''httpRequest.body must be a base64-encoded string''))"

record http_body =
  hb_HTTPMethod :: string
  hb_URL :: string
  hb_Headers :: "headers option"
  hb_Body :: string

record task_body =
  tb_Name :: string
  tb_HTTPRequest :: "http_body option"
  tb_ScheduleTime :: string
  tb_DispatchDeadline :: "string option"

type_synonym createTaskRequest = "task_body option"

section \<open>Response\<close>

record httpRequestResponse =
  hr_URL :: string
  hr_HTTPMethod :: string
  hr_Headers :: "headers option"
  hr_Body :: string

record taskResponse =
  tp_Name :: string
  tp_HTTPRequest :: "httpRequestResponse option"
  tp_ScheduleTime :: string
  tp_CreateTime :: string
  tp_DispatchDeadline :: string
  tp_DispatchCount :: int
  tp_ResponseCount :: int

definition toTaskResponse :: "Task \<Rightarrow> taskResponse" where
  "toTaskResponse t =
     (let resp = \<lparr>tp_Name = t_Name t, tp_HTTPRequest = None, tp_ScheduleTime = [], tp_CreateTime = [],
                  tp_DispatchDeadline = [], tp_DispatchCount = Attempts t,
                  tp_ResponseCount = (if t_Status t = StatusRunning then Attempts t - 1 else Attempts t)\<rparr> in
      if t_URL t = [] then resp
      else resp\<lparr>tp_HTTPRequest := Some \<lparr>hr_URL = t_URL t, hr_HTTPMethod = t_HTTPMethod t,
                  hr_Headers = t_Headers t, hr_Body = b64_std (t_Body t)\<rparr>,
                tp_ScheduleTime := (if is_zero (t_ScheduleTime t) then [] else rfc3339_nano (t_ScheduleTime t)),
                tp_CreateTime := (if is_zero (t_CreatedAt t) then [] else rfc3339_nano (t_CreatedAt t)),
                tp_DispatchDeadline := itoa (t_DispatchDeadline t) @ ''s''\<rparr>)"

section \<open>Create\<close>

text \<open>
  Everything the handler decides before it opens the repositories: the task to store, or the
  message of the 400 reply. \<open>uuid\<close> is the fresh identifier, \<open>now\<close> the clock.
\<close>

definition decoded_deadline :: "ext \<Rightarrow> task_body \<Rightarrow> string + go_float option" where
  "decoded_deadline E tb =
     (case tb_DispatchDeadline tb of None \<Rightarrow> Inr None | Some raw \<Rightarrow> flexDuration_Unmarshal E raw)"

definition task_method :: "ext \<Rightarrow> string \<Rightarrow> string" where
  "task_method E m =
     (let method = to_upper E m
      in if method = [] \<or> method = ''HTTP_METHOD_UNSPECIFIED'' then ''POST'' else method)"

definition task_schedule :: "ext \<Rightarrow> time \<Rightarrow> string \<Rightarrow> string + time" where
  "task_schedule E now s =
     (if s = [] then Inr now
      else case parse_rfc3339 s of
        None \<Rightarrow> Inl (''invalid scheduleTime (expected RFC 3339): '' @ time_error E s)
      | Some t \<Rightarrow> Inr t)"

definition task_deadline :: "go_float option \<Rightarrow> string + int" where
  "task_deadline dl =
     (case dl of
        None \<Rightarrow> Inr 30
      | Some f \<Rightarrow> if float_le0 f then Inl ''dispatchDeadline must be positive'' else Inr (float_int (float_add f (1 / 2))))"

definition task_id :: "ext \<Rightarrow> string \<Rightarrow> string \<Rightarrow> string \<Rightarrow> string + string" where
  "task_id E uuid queueID name =
     (if name = [] then Inr uuid
      else let prefix = queueID @ ''/tasks/'' in
      if slash \<in> set name \<and> \<not> has_prefix name prefix
      then Inl (''task.name must belong to queue '' @ queueID)
      else let name = (if slash \<in> set name then trim_prefix name prefix else name) in
      case task_ValidateID E name of Some e \<Rightarrow> Inl (error_text e) | None \<Rightarrow> Inr name)"

definition rest_task_validated ::
  "ext \<Rightarrow> Config \<Rightarrow> time \<Rightarrow> string \<Rightarrow> string \<Rightarrow> string + createTaskRequest \<Rightarrow> string + Task" where
  "rest_task_validated E cfg now uuid queueID decoded =
     (case decoded of
        Inl err \<Rightarrow> Inl err
      | Inr None \<Rightarrow> Inl ''task.httpRequest is required''
      | Inr (Some tb) \<Rightarrow>
     (case decoded_deadline E tb of Inl err \<Rightarrow> Inl err | Inr dl \<Rightarrow>
      case tb_HTTPRequest tb of None \<Rightarrow> Inl ''task.httpRequest is required'' | Some hb \<Rightarrow>
      if hb_URL hb = [] then Inl ''task.httpRequest.url is required''
      else case task_ValidateURL E (hb_URL hb) of Some e \<Rightarrow> Inl (error_text e) | None \<Rightarrow>
      if task_method E (hb_HTTPMethod hb) \<notin> set validHTTPMethods
      then Inl (''unsupported httpMethod '' @ hb_HTTPMethod hb)
      else case task_schedule E now (tb_ScheduleTime tb) of Inl err \<Rightarrow> Inl err | Inr scheduleTime \<Rightarrow>
      case task_deadline dl of Inl err \<Rightarrow> Inl err | Inr dispatchDeadline \<Rightarrow>
      case decodeBody E (hb_Body hb) of Inl err \<Rightarrow> Inl err | Inr body \<Rightarrow>
      case task_id E uuid queueID (tb_Name tb) of Inl err \<Rightarrow> Inl err | Inr taskID \<Rightarrow>
      let taskName = queueID @ ''/tasks/'' @ taskID in
      Inr \<lparr>t_ID = taskName, t_Name = taskName, t_QueueID = queueID, t_HTTPMethod = task_method E (hb_HTTPMethod hb),
           t_URL = hb_URL hb, t_Headers = hb_Headers hb, t_Body = body, t_ScheduleTime = scheduleTime,
           t_DispatchDeadline = dispatchDeadline, t_Status = StatusPending, t_RetryCount = 0,
           t_MaxRetries = DefaultMaxRetries cfg, t_NextAttemptAt = scheduleTime, t_LastError = [],
           t_CreatedAt = zero_time\<rparr>))"

text \<open>
  The queue is looked up and, when it is missing and the configuration allows it, created; a
  concurrent creation is not an error. \<open>None\<close> is success.
\<close>

definition ensure_queue ::
  "ext \<Rightarrow> Config \<Rightarrow> time \<Rightarrow> string \<Rightarrow> string \<Rightarrow> string \<Rightarrow> string \<Rightarrow> db \<Rightarrow> 'a reply option \<times> db" where
  "ensure_queue E cfg wall queueID project location name d =
     (case queue_Get E queueID d of
        (Inl e, d) \<Rightarrow> (Some (internal_error e), d)
      | (Inr (Some _), d) \<Rightarrow> (None, d)
      | (Inr None, d) \<Rightarrow>
          if \<not> AutoCreateQueues cfg then (Some (writeError StatusNotFound ''NOT_FOUND'' ''queue not found''), d)
          else case queue_ValidateName E name of
            Some e \<Rightarrow> (Some (invalid_argument (error_text e)), d)
          | None \<Rightarrow>
              let q = \<lparr>q_ID = [], q_Name = name, q_Project = project, q_Location = location, q_State = [],
                       q_RateLimits = None, q_CreatedAt = zero_time\<rparr> in
              (case queue_Create wall q d of
                 (Inl e, d) \<Rightarrow> (if e = QueueAlreadyExists then None else Some (internal_error e), d)
               | (Inr _, d) \<Rightarrow> (None, d)))"

definition stored_task :: "ext \<Rightarrow> Task \<Rightarrow> db \<Rightarrow> Task \<times> db" where
  "stored_task E t d =
     (case task_Get E (t_Name t) d of (Inr (Some stored), d) \<Rightarrow> (stored, d) | (_, d) \<Rightarrow> (t, d))"

definition rest_task_Create ::
  "ext \<Rightarrow> Config \<Rightarrow> time \<Rightarrow> time \<Rightarrow> string \<Rightarrow> path_values \<Rightarrow> string + createTaskRequest \<Rightarrow> db \<Rightarrow> taskResponse reply \<times> db" where
  "rest_task_Create E cfg now wall uuid p decoded d =
     (let queueID = queueIDFrom cfg p in
      case rest_task_validated E cfg now uuid queueID decoded of
        Inl msg \<Rightarrow> (invalid_argument msg, d)
      | Inr t \<Rightarrow>
          (case ensure_queue E cfg wall queueID (pv_project p) (pv_location p) (pv_queue p) d of
             (Some r, d) \<Rightarrow> (r, d)
           | (None, d) \<Rightarrow>
               (case task_Create E wall t d of
                  (Inl e, d) \<Rightarrow>
                    (if e = TaskAlreadyExists
                     then writeError StatusConflict ''ALREADY_EXISTS'' (''task already exists: '' @ t_Name t)
                     else internal_error e, d)
                | (Inr t, d) \<Rightarrow> (case stored_task E t d of (t, d) \<Rightarrow> (writeJSON StatusOK (toTaskResponse t), d)))))"

section \<open>List, get, delete, run\<close>

definition page_size :: "string \<Rightarrow> int option" where
  "page_size v =
     (if v = [] then Some defaultPageSize
      else case atoi v of
        None \<Rightarrow> None
      | Some n \<Rightarrow> if n < 0 then None else if 0 < n then Some (min n maxPageSize) else Some defaultPageSize)"

definition page_offset :: "string \<Rightarrow> int option" where
  "page_offset v =
     (if v = [] then Some 0 else case atoi v of None \<Rightarrow> None | Some n \<Rightarrow> if n < 0 then None else Some n)"

record listTasksResponse =
  lt_Tasks :: "taskResponse list"
  lt_NextPageToken :: string

definition page_of :: "int \<Rightarrow> int \<Rightarrow> Task list \<Rightarrow> Task list \<times> string" where
  "page_of pageSize offset ts =
     (if pageSize < int (length ts) then (take (nat pageSize) ts, itoa (i64 (offset + pageSize))) else (ts, []))"

definition rest_task_List ::
  "ext \<Rightarrow> Config \<Rightarrow> path_values \<Rightarrow> string \<Rightarrow> string \<Rightarrow> string \<Rightarrow> db \<Rightarrow> listTasksResponse reply \<times> db" where
  "rest_task_List E cfg p statusFilter pageSizeArg pageToken d =
     (case page_size pageSizeArg of
        None \<Rightarrow> (invalid_argument ''invalid pageSize'', d)
      | Some pageSize \<Rightarrow>
     (case page_offset pageToken of
        None \<Rightarrow> (invalid_argument ''invalid pageToken'', d)
      | Some offset \<Rightarrow>
     (case task_ListPage E (queueIDFrom cfg p) statusFilter (pageSize + 1) offset d of
        (Inl e, d) \<Rightarrow> (internal_error e, d)
      | (Inr ts, d) \<Rightarrow>
          (case page_of pageSize offset ts of (page, token) \<Rightarrow>
             (writeJSON StatusOK \<lparr>lt_Tasks = map toTaskResponse page, lt_NextPageToken = token\<rparr>, d)))))"

definition task_name_from :: "Config \<Rightarrow> path_values \<Rightarrow> string \<Rightarrow> string" where
  "task_name_from cfg p tid = queueIDFrom cfg p @ ''/tasks/'' @ tid"

definition rest_task_Get :: "ext \<Rightarrow> Config \<Rightarrow> path_values \<Rightarrow> db \<Rightarrow> taskResponse reply \<times> db" where
  "rest_task_Get E cfg p d =
     (case task_Get E (task_name_from cfg p (pv_task p)) d of
        (Inl e, d) \<Rightarrow> (internal_error e, d)
      | (Inr None, d) \<Rightarrow> (writeError StatusNotFound ''NOT_FOUND'' ''task not found'', d)
      | (Inr (Some t), d) \<Rightarrow> (writeJSON StatusOK (toTaskResponse t), d))"

definition rest_task_Delete :: "Config \<Rightarrow> path_values \<Rightarrow> db \<Rightarrow> unit reply \<times> db" where
  "rest_task_Delete cfg p d =
     (case task_Delete (task_name_from cfg p (pv_task p)) d of
        (Inl e, d) \<Rightarrow>
          (if e = TaskNotFound then writeError StatusNotFound ''NOT_FOUND'' (error_text e) else internal_error e, d)
      | (Inr _, d) \<Rightarrow> (writeJSON StatusOK (), d))"

text \<open>When the task cannot be read again after it was rescheduled, the reply carries its name only.\<close>

definition rest_task_run :: "ext \<Rightarrow> time \<Rightarrow> string \<Rightarrow> db \<Rightarrow> (string + taskResponse) reply \<times> db" where
  "rest_task_run E now taskName d =
     (case task_SetNextAttemptNow now taskName d of
        (Inl e, d) \<Rightarrow>
          (if e = TaskNotFound then writeError StatusNotFound ''NOT_FOUND'' ''task not found'' else internal_error e, d)
      | (Inr _, d) \<Rightarrow>
          (case task_Get E taskName d of
             (Inr (Some t), d) \<Rightarrow> (writeJSON StatusOK (Inr (toTaskResponse t)), d)
           | (_, d) \<Rightarrow> (writeJSON StatusOK (Inl taskName), d)))"

definition rest_task_Run :: "ext \<Rightarrow> Config \<Rightarrow> time \<Rightarrow> path_values \<Rightarrow> db \<Rightarrow> (string + taskResponse) reply \<times> db" where
  "rest_task_Run E cfg now p d = rest_task_run E now (task_name_from cfg p (pv_task p)) d"

definition rest_task_Action :: "ext \<Rightarrow> Config \<Rightarrow> time \<Rightarrow> path_values \<Rightarrow> db \<Rightarrow> (string + taskResponse) reply \<times> db" where
  "rest_task_Action E cfg now p d =
     (case go_cut colon (pv_task p) of (tid, verb, _) \<Rightarrow>
      if verb \<noteq> ''run'' then (writeError StatusNotFound ''NOT_FOUND'' ''unknown method'', d)
      else rest_task_run E now (task_name_from cfg p tid) d)"

end
