(* ===== verification/Grpc_Tasks.thy ===== *)
theory Grpc_Tasks
  imports Grpc_Base Rest_Tasks
begin

text \<open>
  grpcserver/server.go: the Cloud Tasks service. \<^verbatim>\<open>grpc_X\<close> models \<^verbatim>\<open>Server.X\<close>. The handlers take the
  fields of their request they use.
\<close>

section \<open>Messages\<close>

record pb_rate_limits =
  pl_MaxDispatchesPerSecond :: go_float
  pl_MaxConcurrentDispatches :: int

record pb_queue =
  pq_Name :: string
  pq_Paused :: bool
  pq_RateLimits :: "pb_rate_limits option"

record pb_http_request =
  ph_Url :: string
  ph_HttpMethod :: pb_method
  ph_Headers :: headers
  ph_Body :: string

record pb_task =
  pt_Name :: string
  pt_HttpRequest :: "pb_http_request option"
  pt_ScheduleTime :: "time option"
  pt_CreateTime :: "time option"
  pt_DispatchDeadline :: "duration option"
  pt_DispatchCount :: int
  pt_ResponseCount :: int

definition limits_from_proto :: "pb_rate_limits \<Rightarrow> RateLimits" where
  "limits_from_proto l =
     \<lparr>MaxDispatchesPerSecond = float_int (pl_MaxDispatchesPerSecond l),
      MaxConcurrentDispatches = pl_MaxConcurrentDispatches l\<rparr>"

definition queueToProto :: "Queue \<Rightarrow> pb_queue" where
  "queueToProto q =
     \<lparr>pq_Name = queue_ResourceName q (q_Project q) (q_Location q), pq_Paused = Paused q,
      pq_RateLimits = map_option (\<lambda>l.
        \<lparr>pl_MaxDispatchesPerSecond = Fin (fl64 (of_int (MaxDispatchesPerSecond l))),
         pl_MaxConcurrentDispatches = i32 (MaxConcurrentDispatches l)\<rparr>) (q_RateLimits q)\<rparr>"

definition httpMethodToProto :: "string \<Rightarrow> pb_method" where
  "httpMethodToProto m =
     (if m = ''GET'' then M_GET else if m = ''PUT'' then M_PUT else if m = ''DELETE'' then M_DELETE
      else if m = ''PATCH'' then M_PATCH else if m = ''HEAD'' then M_HEAD else if m = ''OPTIONS'' then M_OPTIONS
      else M_POST)"

definition taskToProto :: "Task \<Rightarrow> pb_task" where
  "taskToProto t =
     (let responses = (if t_Status t = StatusRunning then Attempts t - 1 else Attempts t)
      in \<lparr>pt_Name = t_Name t,
          pt_HttpRequest = Some \<lparr>ph_Url = t_URL t, ph_HttpMethod = httpMethodToProto (t_HTTPMethod t),
            ph_Headers = (case t_Headers t of None \<Rightarrow> [] | Some h \<Rightarrow> h), ph_Body = t_Body t\<rparr>,
          pt_ScheduleTime = Some (t_ScheduleTime t), pt_CreateTime = Some (t_CreatedAt t),
          pt_DispatchDeadline = Some (i64 (t_DispatchDeadline t * Second)),
          pt_DispatchCount = i32 (Attempts t), pt_ResponseCount = i32 responses\<rparr>)"

section \<open>Errors\<close>

fun queueErr :: "error \<Rightarrow> grpc_code \<times> string" where
  "queueErr QueueAlreadyExists = (AlreadyExists, error_text QueueAlreadyExists)"
| "queueErr QueueNotFound = (NotFound, error_text QueueNotFound)"
| "queueErr e = (Internal, error_text e)"

fun taskErr :: "error \<Rightarrow> grpc_code \<times> string" where
  "taskErr TaskAlreadyExists = (AlreadyExists, error_text TaskAlreadyExists)"
| "taskErr TaskNotFound = (NotFound, error_text TaskNotFound)"
| "taskErr e = (Internal, error_text e)"

section \<open>Queues\<close>

definition grpc_ListQueues :: "ext \<Rightarrow> Config \<Rightarrow> string \<Rightarrow> db \<Rightarrow> pb_queue list grpc \<times> db" where
  "grpc_ListQueues E cfg parent d =
     (case parseParent parent of
        Inl err \<Rightarrow> (Inl (InvalidArgument, err), d)
      | Inr (project, location) \<Rightarrow>
          (case queue_List E (or_default project (DefaultProject cfg)) (or_default location (DefaultLocation cfg)) d of
             (Inl e, d) \<Rightarrow> (Inl (Internal, error_text e), d)
           | (Inr qs, d) \<Rightarrow> (Inr (map queueToProto qs), d)))"

definition getQueueProto :: "ext \<Rightarrow> string \<Rightarrow> db \<Rightarrow> pb_queue grpc \<times> db" where
  "getQueueProto E name d =
     (case queue_Get E name d of
        (Inl e, d) \<Rightarrow> (Inl (Internal, error_text e), d)
      | (Inr None, d) \<Rightarrow> (Inl (NotFound, ''queue not found''), d)
      | (Inr (Some q), d) \<Rightarrow> (Inr (queueToProto q), d))"

definition grpc_GetQueue :: "ext \<Rightarrow> string \<Rightarrow> db \<Rightarrow> pb_queue grpc \<times> db" where
  "grpc_GetQueue E name d =
     (case queue_Get E name d of
        (Inl e, d) \<Rightarrow> (Inl (Internal, error_text e), d)
      | (Inr None, d) \<Rightarrow> (Inl (NotFound, ''queue not found''), d)
      | (Inr (Some q), d) \<Rightarrow> (Inr (queueToProto q), d))"

definition grpc_CreateQueue :: "ext \<Rightarrow> time \<Rightarrow> string \<Rightarrow> pb_queue option \<Rightarrow> db \<Rightarrow> pb_queue grpc \<times> db" where
  "grpc_CreateQueue E wall parent queue d =
     (case parseParent parent of
        Inl err \<Rightarrow> (Inl (InvalidArgument, err), d)
      | Inr (project, location) \<Rightarrow>
     (case queue of
        None \<Rightarrow> (Inl (InvalidArgument, ''queue is required''), d)
      | Some pq \<Rightarrow>
          let queueName = last (go_split slash (trim_prefix (pq_Name pq) ''projects/'')) in
          if queueName = [] then (Inl (InvalidArgument, ''queue name is required''), d)
          else case queue_ValidateName E queueName of
            Some e \<Rightarrow> (Inl (InvalidArgument, error_text e), d)
          | None \<Rightarrow>
              let q = \<lparr>q_ID = [], q_Name = queueName, q_Project = project, q_Location = location, q_State = [],
                       q_RateLimits = map_option limits_from_proto (pq_RateLimits pq), q_CreatedAt = zero_time\<rparr> in
              (case queue_Create wall q d of
                 (Inl e, d) \<Rightarrow> (Inl (queueErr e), d)
               | (Inr q, d) \<Rightarrow> (Inr (queueToProto q), d))))"

definition grpc_DeleteQueue :: "string \<Rightarrow> db \<Rightarrow> unit grpc \<times> db" where
  "grpc_DeleteQueue name d =
     (case queue_Delete name d of (Inl e, d) \<Rightarrow> (Inl (queueErr e), d) | (Inr _, d) \<Rightarrow> (Inr (), d))"

definition mask_applies :: "string list \<Rightarrow> bool" where
  "mask_applies paths \<longleftrightarrow> paths = [] \<or> list_ex (\<lambda>p. has_prefix p ''rate_limits'') paths"

definition grpc_UpdateQueue :: "ext \<Rightarrow> pb_queue option \<Rightarrow> string list \<Rightarrow> db \<Rightarrow> pb_queue grpc \<times> db" where
  "grpc_UpdateQueue E queue paths d =
     (case queue of
        None \<Rightarrow> (Inl (InvalidArgument, ''queue.name is required''), d)
      | Some pq \<Rightarrow>
          if pq_Name pq = [] then (Inl (InvalidArgument, ''queue.name is required''), d)
          else case pq_RateLimits pq of
            None \<Rightarrow> getQueueProto E (pq_Name pq) d
          | Some l \<Rightarrow>
              if mask_applies paths
              then (case queue_UpdateRateLimits (pq_Name pq) (limits_from_proto l) d of
                      (Inl e, d) \<Rightarrow> (Inl (queueErr e), d)
                    | (Inr _, d) \<Rightarrow> getQueueProto E (pq_Name pq) d)
              else getQueueProto E (pq_Name pq) d)"

definition grpc_PurgeQueue :: "ext \<Rightarrow> string \<Rightarrow> db \<Rightarrow> pb_queue grpc \<times> db" where
  "grpc_PurgeQueue E name d =
     (case queue_Purge E name d of
        (Inl e, d) \<Rightarrow> (Inl (queueErr e), d) | (Inr _, d) \<Rightarrow> getQueueProto E name d)"

definition grpc_PauseQueue :: "ext \<Rightarrow> string \<Rightarrow> db \<Rightarrow> pb_queue grpc \<times> db" where
  "grpc_PauseQueue E name d =
     (case queue_SetState name StatePaused d of
        (Inl e, d) \<Rightarrow> (Inl (queueErr e), d) | (Inr _, d) \<Rightarrow> getQueueProto E name d)"

definition grpc_ResumeQueue :: "ext \<Rightarrow> string \<Rightarrow> db \<Rightarrow> pb_queue grpc \<times> db" where
  "grpc_ResumeQueue E name d =
     (case queue_SetState name StateRunning d of
        (Inl e, d) \<Rightarrow> (Inl (queueErr e), d) | (Inr _, d) \<Rightarrow> getQueueProto E name d)"

section \<open>Tasks\<close>

definition grpc_page_size :: "int \<Rightarrow> int option" where
  "grpc_page_size n =
     (if n < 0 then None else if 0 < n then Some (min n maxPageSize) else Some defaultPageSize)"

definition grpc_ListTasks :: "ext \<Rightarrow> string \<Rightarrow> int \<Rightarrow> string \<Rightarrow> db \<Rightarrow> (pb_task list \<times> string) grpc \<times> db" where
  "grpc_ListTasks E parent pageSizeArg pageToken d =
     (case grpc_page_size pageSizeArg of
        None \<Rightarrow> (Inl (InvalidArgument, ''page_size must not be negative''), d)
      | Some pageSize \<Rightarrow>
     (case page_offset pageToken of
        None \<Rightarrow> (Inl (InvalidArgument, ''invalid page_token''), d)
      | Some offset \<Rightarrow>
     (case task_ListPage E parent [] (pageSize + 1) offset d of
        (Inl e, d) \<Rightarrow> (Inl (Internal, error_text e), d)
      | (Inr ts, d) \<Rightarrow> (case page_of pageSize offset ts of (page, token) \<Rightarrow> (Inr (map taskToProto page, token), d)))))"

definition grpc_GetTask :: "ext \<Rightarrow> string \<Rightarrow> db \<Rightarrow> pb_task grpc \<times> db" where
  "grpc_GetTask E name d =
     (case task_Get E name d of
        (Inl e, d) \<Rightarrow> (Inl (Internal, error_text e), d)
      | (Inr None, d) \<Rightarrow> (Inl (NotFound, ''task not found''), d)
      | (Inr (Some t), d) \<Rightarrow> (Inr (taskToProto t), d))"

fun method_from_proto :: "pb_method \<Rightarrow> string" where
  "method_from_proto M_GET = ''GET''"
| "method_from_proto M_PUT = ''PUT''"
| "method_from_proto M_DELETE = ''DELETE''"
| "method_from_proto M_PATCH = ''PATCH''"
| "method_from_proto M_HEAD = ''HEAD''"
| "method_from_proto M_OPTIONS = ''OPTIONS''"
| "method_from_proto _ = ''POST''"

definition grpc_deadline :: "duration option \<Rightarrow> string + int" where
  "grpc_deadline dl =
     (case dl of
        None \<Rightarrow> Inr 30
      | Some d \<Rightarrow> if d \<le> 0 then Inl ''dispatch_deadline must be positive'' else Inr \<lceil>dur_seconds d\<rceil>)"

text \<open>Everything decided before the database is used; the queue comes from the parent.\<close>

definition grpc_task_validated ::
  "ext \<Rightarrow> Config \<Rightarrow> time \<Rightarrow> string \<Rightarrow> string \<Rightarrow> pb_task option \<Rightarrow> string + Task" where
  "grpc_task_validated E cfg now uuid queueID task =
     (case task of None \<Rightarrow> Inl ''task is required'' | Some pt \<Rightarrow>
      case pt_HttpRequest pt of None \<Rightarrow> Inl ''task.http_request is required'' | Some hb \<Rightarrow>
      if ph_Url hb = [] then Inl ''task.http_request.url is required''
      else case task_ValidateURL E (ph_Url hb) of Some e \<Rightarrow> Inl (error_text e) | None \<Rightarrow>
      let scheduleTime = (case pt_ScheduleTime pt of None \<Rightarrow> now | Some t \<Rightarrow> t) in
      case grpc_deadline (pt_DispatchDeadline pt) of Inl err \<Rightarrow> Inl err | Inr dispatchDeadline \<Rightarrow>
      case task_id E uuid queueID (pt_Name pt) of Inl err \<Rightarrow> Inl err | Inr taskID \<Rightarrow>
      let taskName = queueID @ ''/tasks/'' @ taskID in
      Inr \<lparr>t_ID = taskName, t_Name = taskName, t_QueueID = queueID, t_HTTPMethod = method_from_proto (ph_HttpMethod hb),
           t_URL = ph_Url hb, t_Headers = Some (ph_Headers hb), t_Body = ph_Body hb, t_ScheduleTime = scheduleTime,
           t_DispatchDeadline = dispatchDeadline, t_Status = StatusPending, t_RetryCount = 0,
           t_MaxRetries = DefaultMaxRetries cfg, t_NextAttemptAt = scheduleTime, t_LastError = [],
           t_CreatedAt = zero_time\<rparr>)"

definition grpc_ensure_queue ::
  "ext \<Rightarrow> Config \<Rightarrow> time \<Rightarrow> string \<Rightarrow> string \<Rightarrow> string \<Rightarrow> string \<Rightarrow> db \<Rightarrow> (grpc_code \<times> string) option \<times> db" where
  "grpc_ensure_queue E cfg wall queueID project location name d =
     (case queue_Get E queueID d of
        (Inl e, d) \<Rightarrow> (Some (Internal, error_text e), d)
      | (Inr (Some _), d) \<Rightarrow> (None, d)
      | (Inr None, d) \<Rightarrow>
          if \<not> AutoCreateQueues cfg then (Some (NotFound, ''queue not found''), d)
          else case queue_ValidateName E name of
            Some e \<Rightarrow> (Some (InvalidArgument, error_text e), d)
          | None \<Rightarrow>
              let q = \<lparr>q_ID = [], q_Name = name, q_Project = project, q_Location = location, q_State = [],
                       q_RateLimits = None, q_CreatedAt = zero_time\<rparr> in
              (case queue_Create wall q d of
                 (Inl e, d) \<Rightarrow> (if e = QueueAlreadyExists then None else Some (Internal, error_text e), d)
               | (Inr _, d) \<Rightarrow> (None, d)))"

definition grpc_CreateTask ::
  "ext \<Rightarrow> Config \<Rightarrow> time \<Rightarrow> time \<Rightarrow> string \<Rightarrow> string \<Rightarrow> pb_task option \<Rightarrow> db \<Rightarrow> pb_task grpc \<times> db" where
  "grpc_CreateTask E cfg now wall uuid parent task d =
     (if parent = [] then (Inl (InvalidArgument, ''parent is required''), d)
      else case parseTaskParent parent of
        Inl err \<Rightarrow> (Inl (InvalidArgument, err), d)
      | Inr (project, location, queueName) \<Rightarrow>
          let queueID = queue_path project location queueName in
          (case grpc_task_validated E cfg now uuid queueID task of
             Inl err \<Rightarrow> (Inl (InvalidArgument, err), d)
           | Inr t \<Rightarrow>
               (case grpc_ensure_queue E cfg wall queueID project location queueName d of
                  (Some err, d) \<Rightarrow> (Inl err, d)
                | (None, d) \<Rightarrow>
                    (case task_Create E wall t d of
                       (Inl e, d) \<Rightarrow> (Inl (taskErr e), d)
                     | (Inr t, d) \<Rightarrow> (case stored_task E t d of (t, d) \<Rightarrow> (Inr (taskToProto t), d))))))"

definition grpc_DeleteTask :: "string \<Rightarrow> db \<Rightarrow> unit grpc \<times> db" where
  "grpc_DeleteTask name d =
     (case task_Delete name d of (Inl e, d) \<Rightarrow> (Inl (taskErr e), d) | (Inr _, d) \<Rightarrow> (Inr (), d))"

definition grpc_RunTask :: "ext \<Rightarrow> time \<Rightarrow> string \<Rightarrow> db \<Rightarrow> pb_task grpc \<times> db" where
  "grpc_RunTask E now name d =
     (case task_SetNextAttemptNow now name d of
        (Inl e, d) \<Rightarrow> (Inl (taskErr e), d)
      | (Inr _, d) \<Rightarrow>
          (case task_Get E name d of
             (Inr (Some t), d) \<Rightarrow> (Inr (taskToProto t), d)
           | (_, d) \<Rightarrow> (Inl (NotFound, ''task not found''), d)))"

end
