(* ===== verification/Rest_Jobs.thy ===== *)
theory Rest_Jobs
  imports Rest_Base Sched_Service
begin

text \<open>
  api/job_handler.go: the REST handlers for scheduler jobs over the service. \<^verbatim>\<open>rest_job_X\<close> models
  \<^verbatim>\<open>JobHandler.X\<close>.
\<close>

section \<open>Wire format\<close>

record jobHTTPTarget =
  ht_URI :: string
  ht_HTTPMethod :: string
  ht_Headers :: "headers option"
  ht_Body :: "string option"

record jobRetryConfig =
  rc_RetryCount :: int
  rc_MaxRetryDuration :: string
  rc_MinBackoffDuration :: string
  rc_MaxBackoffDuration :: string
  rc_MaxDoublings :: int

record jobJSON =
  jj_Name :: string
  jj_Description :: string
  jj_Schedule :: string
  jj_TimeZone :: string
  jj_State :: string
  jj_HTTPTarget :: "jobHTTPTarget option"
  jj_RetryConfig :: "jobRetryConfig option"
  jj_AttemptDeadline :: string
  jj_ScheduleTime :: string
  jj_LastAttemptTime :: string
  jj_UserUpdateTime :: string
  jj_Status :: "(int \<times> string) option"

definition formatDuration :: "ext \<Rightarrow> duration \<Rightarrow> string" where
  "formatDuration E d = format_float E (dur_seconds d) @ ''s''"

definition duration_example :: string where
  "duration_example = '' duration such as '' @ [CHR 0x22] @ ''30s'' @ [CHR 0x22]"

definition parseDuration :: "ext \<Rightarrow> string \<Rightarrow> string \<Rightarrow> error + duration" where
  "parseDuration E field s =
     (if s = [] then Inr 0
      else if \<not> has_suffix s ''s''
      then Inl (ValidationError (field @ '' must be a duration in seconds such as '' @ [CHR 0x22] @ ''30s'' @ [CHR 0x22]))
      else case parse_float E (trim_suffix s ''s'') of
        None \<Rightarrow> Inl (ValidationError (field @ '' must be a non-negative'' @ duration_example))
      | Some f \<Rightarrow>
          if float_lt0 f then Inl (ValidationError (field @ '' must be a non-negative'' @ duration_example))
          else Inr (float_int (float_mul_pos f 1000000000)))"

definition toJobJSON :: "ext \<Rightarrow> Job \<Rightarrow> jobJSON" where
  "toJobJSON E j =
     \<lparr>jj_Name = j_ID j, jj_Description = j_Description j, jj_Schedule = j_Schedule j, jj_TimeZone = j_TimeZone j,
      jj_State = j_State j,
      jj_HTTPTarget = Some \<lparr>ht_URI = j_URL j, ht_HTTPMethod = j_HTTPMethod j, ht_Headers = j_Headers j, ht_Body = j_Body j\<rparr>,
      jj_RetryConfig = Some \<lparr>rc_RetryCount = RetryCount (j_Retry j),
        rc_MaxRetryDuration = formatDuration E (MaxRetryDuration (j_Retry j)),
        rc_MinBackoffDuration = formatDuration E (MinBackoff (j_Retry j)),
        rc_MaxBackoffDuration = formatDuration E (MaxBackoff (j_Retry j)),
        rc_MaxDoublings = MaxDoublings (j_Retry j)\<rparr>,
      jj_AttemptDeadline = formatDuration E (j_AttemptDeadline j),
      jj_ScheduleTime = (if is_zero (j_NextRunAt j) then [] else rfc3339_nano (j_NextRunAt j)),
      jj_LastAttemptTime = (if is_zero (j_LastAttemptAt j) then [] else rfc3339_nano (j_LastAttemptAt j)),
      jj_UserUpdateTime = rfc3339_nano (j_UpdatedAt j),
      jj_Status = (if is_zero (j_LastAttemptAt j) then None else Some (j_LastStatusCode j, j_LastError j))\<rparr>"

text \<open>The job with every field at its zero value.\<close>

definition zero_job :: Job where
  "zero_job = \<lparr>j_ID = [], j_Project = [], j_Location = [], j_Name = [], j_Description = [], j_Schedule = [],
     j_TimeZone = [], j_HTTPMethod = [], j_URL = [], j_Headers = None, j_Body = None, j_State = [],
     j_AttemptDeadline = 0,
     j_Retry = \<lparr>RetryCount = 0, MaxRetryDuration = 0, MinBackoff = 0, MaxBackoff = 0, MaxDoublings = 0\<rparr>,
     j_NextRunAt = zero_time, j_LastAttemptAt = zero_time, j_LastStatus = [], j_LastStatusCode = 0,
     j_LastError = [], j_CreatedAt = zero_time, j_UpdatedAt = zero_time\<rparr>"

definition retry_from :: "ext \<Rightarrow> jobRetryConfig \<Rightarrow> error + RetryConfig" where
  "retry_from E rc =
     (case parseDuration E ''retryConfig.maxRetryDuration'' (rc_MaxRetryDuration rc) of Inl e \<Rightarrow> Inl e | Inr mrd \<Rightarrow>
      case parseDuration E ''retryConfig.minBackoffDuration'' (rc_MinBackoffDuration rc) of Inl e \<Rightarrow> Inl e | Inr mnb \<Rightarrow>
      case parseDuration E ''retryConfig.maxBackoffDuration'' (rc_MaxBackoffDuration rc) of Inl e \<Rightarrow> Inl e | Inr mxb \<Rightarrow>
      Inr \<lparr>RetryCount = rc_RetryCount rc, MaxRetryDuration = mrd, MinBackoff = mnb, MaxBackoff = mxb,
           MaxDoublings = rc_MaxDoublings rc\<rparr>)"

definition fromJobJSON :: "ext \<Rightarrow> jobJSON \<Rightarrow> error + Job" where
  "fromJobJSON E i =
     (let j = zero_job\<lparr>j_Description := jj_Description i, j_Schedule := jj_Schedule i, j_TimeZone := jj_TimeZone i\<rparr>;
          j = (case jj_HTTPTarget i of
                 None \<Rightarrow> j
               | Some h \<Rightarrow> j\<lparr>j_URL := ht_URI h, j_HTTPMethod := ht_HTTPMethod h, j_Headers := ht_Headers h, j_Body := ht_Body h\<rparr>) in
      case parseDuration E ''attemptDeadline'' (jj_AttemptDeadline i) of Inl e \<Rightarrow> Inl e | Inr dl \<Rightarrow>
      let j = j\<lparr>j_AttemptDeadline := dl\<rparr> in
      case jj_RetryConfig i of None \<Rightarrow> Inr j | Some rc \<Rightarrow>
      case retry_from E rc of Inl e \<Rightarrow> Inl e | Inr r \<Rightarrow> Inr (j\<lparr>j_Retry := r\<rparr>))"

text \<open>The decoder's error becomes a validation error.\<close>

definition decodeJob :: "string + jobJSON \<Rightarrow> error + jobJSON" where
  "decodeJob decoded =
     (case decoded of Inl err \<Rightarrow> Inl (ValidationError (''invalid request body: '' @ err)) | Inr i \<Rightarrow> Inr i)"

fun writeJobError :: "error \<Rightarrow> 'a reply" where
  "writeJobError (ValidationError msg) = writeError StatusBadRequest ''INVALID_ARGUMENT'' msg"
| "writeJobError JobNotFound = writeError StatusNotFound ''NOT_FOUND'' ''job not found''"
| "writeJobError JobAlreadyExists = writeError StatusConflict ''ALREADY_EXISTS'' ''job already exists''"
| "writeJobError e = internal_error e"

section \<open>Handlers\<close>

definition jobID :: "path_values \<Rightarrow> string" where
  "jobID p = job_ResourceName (pv_project p) (pv_location p) (pv_job p)"

text \<open>A full resource name must match the parent; anything without a slash is the bare name.\<close>

definition job_name_in :: "ext \<Rightarrow> string \<Rightarrow> string \<Rightarrow> string \<Rightarrow> error + string" where
  "job_name_in E project location name =
     (if slash \<in> set name
      then (case job_ParseName E name of
              Inl e \<Rightarrow> Inl e
            | Inr (pr, l, n) \<Rightarrow>
                if pr \<noteq> project \<or> l \<noteq> location
                then Inl (ValidationError ''job name does not match the parent project/location'')
                else if n = [] then Inl (ValidationError ''job name is required'') else Inr n)
      else if name = [] then Inl (ValidationError ''job name is required'') else Inr name)"

definition rest_job_requested :: "ext \<Rightarrow> path_values \<Rightarrow> string + jobJSON \<Rightarrow> error + Job" where
  "rest_job_requested E p decoded =
     (case decodeJob decoded of Inl e \<Rightarrow> Inl e | Inr i \<Rightarrow>
      case fromJobJSON E i of Inl e \<Rightarrow> Inl e | Inr j \<Rightarrow>
      if jj_HTTPTarget i = None then Inl (ValidationError ''httpTarget is required'')
      else case job_name_in E (pv_project p) (pv_location p) (jj_Name i) of Inl e \<Rightarrow> Inl e | Inr n \<Rightarrow>
      Inr (j\<lparr>j_Project := pv_project p, j_Location := pv_location p, j_Name := n, j_State := jj_State i\<rparr>))"

text \<open>
  \<^verbatim>\<open>Service.Create\<close> reads the job back; with no row and no error it returns a nil job, and the
  handler would dereference it. \<open>None\<close> is that panic.
\<close>

definition rest_job_Create ::
  "ext \<Rightarrow> time \<Rightarrow> time \<Rightarrow> path_values \<Rightarrow> string + jobJSON \<Rightarrow> db \<Rightarrow> jobJSON reply option \<times> db" where
  "rest_job_Create E now wall p decoded d =
     (case rest_job_requested E p decoded of
        Inl e \<Rightarrow> (Some (writeJobError e), d)
      | Inr j \<Rightarrow>
          (case svc_Create E now wall j d of
             (Inl e, d) \<Rightarrow> (Some (writeJobError e), d)
           | (Inr None, d) \<Rightarrow> (None, d)
           | (Inr (Some j), d) \<Rightarrow> (Some (writeJSON StatusOK (toJobJSON E j)), d)))"

definition rest_job_List :: "ext \<Rightarrow> path_values \<Rightarrow> db \<Rightarrow> jobJSON list reply \<times> db" where
  "rest_job_List E p d =
     (case svc_List E (pv_project p) (pv_location p) d of
        (Inl e, d) \<Rightarrow> (writeJobError e, d)
      | (Inr js, d) \<Rightarrow> (writeJSON StatusOK (map (toJobJSON E) js), d))"

definition job_reply :: "ext \<Rightarrow> (error + Job) \<times> db \<Rightarrow> jobJSON reply \<times> db" where
  "job_reply E r =
     (case r of (Inl e, d) \<Rightarrow> (writeJobError e, d) | (Inr j, d) \<Rightarrow> (writeJSON StatusOK (toJobJSON E j), d))"

definition rest_job_Get :: "ext \<Rightarrow> path_values \<Rightarrow> db \<Rightarrow> jobJSON reply \<times> db" where
  "rest_job_Get E p d = job_reply E (svc_Get E (jobID p) d)"

definition mask_paths :: "string \<Rightarrow> string list" where
  "mask_paths m = (if m = [] then [] else go_split (CHR '','') m)"

definition rest_job_Update ::
  "ext \<Rightarrow> time \<Rightarrow> time \<Rightarrow> path_values \<Rightarrow> string + jobJSON \<Rightarrow> string \<Rightarrow> db \<Rightarrow> jobJSON reply \<times> db" where
  "rest_job_Update E now wall p decoded updateMask d =
     (case decodeJob decoded of Inl e \<Rightarrow> (writeJobError e, d) | Inr i \<Rightarrow>
      case fromJobJSON E i of Inl e \<Rightarrow> (writeJobError e, d) | Inr patch \<Rightarrow>
      job_reply E (svc_Update E now wall (jobID p) patch (mask_paths updateMask) d))"

definition rest_job_Delete :: "path_values \<Rightarrow> db \<Rightarrow> unit reply \<times> db" where
  "rest_job_Delete p d =
     (case svc_Delete (jobID p) d of
        (Inl e, d) \<Rightarrow> (writeJobError e, d)
      | (Inr _, d) \<Rightarrow> (writeJSON StatusOK (), d))"

text \<open>The third component is the execution \<^verbatim>\<open>:run\<close> starts in the background.\<close>

definition rest_job_Action ::
  "ext \<Rightarrow> time \<Rightarrow> time \<Rightarrow> path_values \<Rightarrow> db \<Rightarrow> jobJSON reply \<times> (Job \<times> time) option \<times> db" where
  "rest_job_Action E now wall p d =
     (case go_cut colon (pv_job p) of (name, verb, found) \<Rightarrow>
      if \<not> found \<or> name = []
      then (writeError StatusNotFound ''NOT_FOUND'' ''unknown method; expected :pause, :resume or :run'', None, d)
      else let jid = job_ResourceName (pv_project p) (pv_location p) name in
      if verb = ''pause'' then (case job_reply E (svc_Pause E wall jid d) of (r, d) \<Rightarrow> (r, None, d))
      else if verb = ''resume'' then (case job_reply E (svc_Resume E now wall jid d) of (r, d) \<Rightarrow> (r, None, d))
      else if verb = ''run''
      then (case svc_Run E now jid d of (res, fired, d) \<Rightarrow>
              (case job_reply E (res, d) of (r, d) \<Rightarrow> (r, fired, d)))
      else (writeError StatusNotFound ''NOT_FOUND'' (''unknown method :'' @ verb), None, d))"

end
