(* ===== verification/Grpc_Jobs.thy ===== *)
theory Grpc_Jobs
  imports Grpc_Base Rest_Jobs
begin

text \<open>
  grpcserver/scheduler_server.go: the Cloud Scheduler service over the scheduler's service.
  \<^verbatim>\<open>grpc_XJob\<close> models \<^verbatim>\<open>SchedulerServer.XJob\<close>.
\<close>

section \<open>Messages\<close>

datatype pb_job_state = JOB_STATE_UNSPECIFIED | JOB_ENABLED | JOB_PAUSED | JOB_DISABLED | JOB_UPDATE_FAILED

record pb_http_target =
  pg_Uri :: string
  pg_HttpMethod :: pb_method
  pg_Headers :: "headers option"
  pg_Body :: "string option"

text \<open>The getter of an absent duration gives nil, whose \<^verbatim>\<open>AsDuration\<close> is zero.\<close>

record pb_retry_config =
  pr_RetryCount :: int
  pr_MaxRetryDuration :: duration
  pr_MinBackoffDuration :: duration
  pr_MaxBackoffDuration :: duration
  pr_MaxDoublings :: int

record pb_job =
  pj_Name :: string
  pj_Description :: string
  pj_Schedule :: string
  pj_TimeZone :: string
  pj_State :: pb_job_state
  pj_HttpTarget :: "pb_http_target option"
  pj_RetryConfig :: "pb_retry_config option"
  pj_AttemptDeadline :: duration
  pj_ScheduleTime :: "time option"
  pj_LastAttemptTime :: "time option"
  pj_UserUpdateTime :: "time option"
  pj_Status :: "(int \<times> string) option"

text \<open>\<^verbatim>\<open>HttpMethod.String\<close> and the table \<^verbatim>\<open>HttpMethod_value\<close>, where an unknown name reads as zero.\<close>

fun method_string :: "pb_method \<Rightarrow> string" where
  "method_string METHOD_UNSPECIFIED = ''HTTP_METHOD_UNSPECIFIED''"
| "method_string M_POST = ''POST''"
| "method_string M_GET = ''GET''"
| "method_string M_HEAD = ''HEAD''"
| "method_string M_PUT = ''PUT''"
| "method_string M_DELETE = ''DELETE''"
| "method_string M_PATCH = ''PATCH''"
| "method_string M_OPTIONS = ''OPTIONS''"

definition method_value :: "string \<Rightarrow> pb_method" where
  "method_value s =
     (case find (\<lambda>m. method_string m = s) [M_POST, M_GET, M_HEAD, M_PUT, M_DELETE, M_PATCH, M_OPTIONS] of
        Some m \<Rightarrow> m | None \<Rightarrow> METHOD_UNSPECIFIED)"

fun schedErr :: "error \<Rightarrow> grpc_code \<times> string" where
  "schedErr (ValidationError msg) = (InvalidArgument, msg)"
| "schedErr JobNotFound = (NotFound, ''job not found'')"
| "schedErr JobAlreadyExists = (AlreadyExists, ''job already exists'')"
| "schedErr e = (Internal, error_text e)"

definition jobIDFromName :: "ext \<Rightarrow> string \<Rightarrow> string grpc" where
  "jobIDFromName E name =
     (case job_ParseName E name of Inl e \<Rightarrow> Inl (schedErr e) | Inr (p, l, j) \<Rightarrow> Inr (job_ResourceName p l j))"

definition jobFromProto :: "pb_job \<Rightarrow> Job" where
  "jobFromProto pj =
     (let j = zero_job\<lparr>j_Description := pj_Description pj, j_Schedule := pj_Schedule pj, j_TimeZone := pj_TimeZone pj,
                j_AttemptDeadline := pj_AttemptDeadline pj\<rparr>;
          j = (case pj_HttpTarget pj of
                 None \<Rightarrow> j
               | Some t \<Rightarrow> j\<lparr>j_URL := pg_Uri t, j_Headers := pg_Headers t, j_Body := pg_Body t,
                     j_HTTPMethod := (if pg_HttpMethod t \<noteq> METHOD_UNSPECIFIED then method_string (pg_HttpMethod t) else [])\<rparr>)
      in case pj_RetryConfig pj of
           None \<Rightarrow> j
         | Some rc \<Rightarrow> j\<lparr>j_Retry := \<lparr>RetryCount = pr_RetryCount rc, MaxRetryDuration = pr_MaxRetryDuration rc,
               MinBackoff = pr_MinBackoffDuration rc, MaxBackoff = pr_MaxBackoffDuration rc,
               MaxDoublings = pr_MaxDoublings rc\<rparr>\<rparr>)"

definition jobToProto :: "Job \<Rightarrow> pb_job" where
  "jobToProto j =
     \<lparr>pj_Name = j_ID j, pj_Description = j_Description j, pj_Schedule = j_Schedule j, pj_TimeZone = j_TimeZone j,
      pj_State = (if j_State j = JobPaused then JOB_PAUSED else JOB_ENABLED),
      pj_HttpTarget = Some \<lparr>pg_Uri = j_URL j, pg_HttpMethod = method_value (j_HTTPMethod j), pg_Headers = j_Headers j,
        pg_Body = j_Body j\<rparr>,
      pj_RetryConfig = Some \<lparr>pr_RetryCount = i32 (RetryCount (j_Retry j)), pr_MaxRetryDuration = MaxRetryDuration (j_Retry j),
        pr_MinBackoffDuration = MinBackoff (j_Retry j), pr_MaxBackoffDuration = MaxBackoff (j_Retry j),
        pr_MaxDoublings = i32 (MaxDoublings (j_Retry j))\<rparr>,
      pj_AttemptDeadline = j_AttemptDeadline j,
      pj_ScheduleTime = (if is_zero (j_NextRunAt j) then None else Some (j_NextRunAt j)),
      pj_LastAttemptTime = (if is_zero (j_LastAttemptAt j) then None else Some (j_LastAttemptAt j)),
      pj_UserUpdateTime = Some (j_UpdatedAt j),
      pj_Status = (if is_zero (j_LastAttemptAt j) then None else Some (i32 (j_LastStatusCode j), j_LastError j))\<rparr>"

section \<open>Handlers\<close>

definition grpc_ListJobs :: "ext \<Rightarrow> string \<Rightarrow> db \<Rightarrow> pb_job list grpc \<times> db" where
  "grpc_ListJobs E parent d =
     (case parseParent parent of
        Inl err \<Rightarrow> (Inl (InvalidArgument, err), d)
      | Inr (project, location) \<Rightarrow>
          (case svc_List E project location d of
             (Inl e, d) \<Rightarrow> (Inl (schedErr e), d)
           | (Inr js, d) \<Rightarrow> (Inr (map jobToProto js), d)))"

definition job_proto :: "(error + Job) \<times> db \<Rightarrow> pb_job grpc \<times> db" where
  "job_proto r = (case r of (Inl e, d) \<Rightarrow> (Inl (schedErr e), d) | (Inr j, d) \<Rightarrow> (Inr (jobToProto j), d))"

definition grpc_GetJob :: "ext \<Rightarrow> string \<Rightarrow> db \<Rightarrow> pb_job grpc \<times> db" where
  "grpc_GetJob E name d =
     (case jobIDFromName E name of Inl err \<Rightarrow> (Inl err, d) | Inr jid \<Rightarrow> job_proto (svc_Get E jid d))"

definition grpc_job_requested :: "ext \<Rightarrow> string \<Rightarrow> pb_job option \<Rightarrow> Job grpc" where
  "grpc_job_requested E parent job =
     (case parseParent parent of
        Inl err \<Rightarrow> Inl (InvalidArgument, err)
      | Inr (project, location) \<Rightarrow>
     (case job of
        None \<Rightarrow> Inl (InvalidArgument, ''job is required'')
      | Some pj \<Rightarrow>
          if pj_HttpTarget pj = None then Inl (InvalidArgument, ''only http_target jobs are supported'')
          else case job_ParseName E (pj_Name pj) of
            Inl e \<Rightarrow> Inl (schedErr e)
          | Inr (p, l, name) \<Rightarrow>
              if p \<noteq> project \<or> l \<noteq> location
              then Inl (InvalidArgument, ''job name does not match the parent project/location'')
              else let j = (jobFromProto pj)\<lparr>j_Project := project, j_Location := location, j_Name := name\<rparr>
                   in Inr (if pj_State pj = JOB_PAUSED then j\<lparr>j_State := JobPaused\<rparr> else j)))"

text \<open>As in the REST handler, \<open>None\<close> is the nil job of \<^verbatim>\<open>Service.Create\<close> dereferenced.\<close>

definition grpc_CreateJob ::
  "ext \<Rightarrow> time \<Rightarrow> time \<Rightarrow> string \<Rightarrow> pb_job option \<Rightarrow> db \<Rightarrow> pb_job grpc option \<times> db" where
  "grpc_CreateJob E now wall parent job d =
     (case grpc_job_requested E parent job of
        Inl err \<Rightarrow> (Some (Inl err), d)
      | Inr j \<Rightarrow>
          (case svc_Create E now wall j d of
             (Inl e, d) \<Rightarrow> (Some (Inl (schedErr e)), d)
           | (Inr None, d) \<Rightarrow> (None, d)
           | (Inr (Some j), d) \<Rightarrow> (Some (Inr (jobToProto j)), d)))"

definition grpc_UpdateJob ::
  "ext \<Rightarrow> time \<Rightarrow> time \<Rightarrow> pb_job option \<Rightarrow> string list \<Rightarrow> db \<Rightarrow> pb_job grpc \<times> db" where
  "grpc_UpdateJob E now wall job paths d =
     (case job of
        None \<Rightarrow> (Inl (InvalidArgument, ''job is required''), d)
      | Some pj \<Rightarrow>
          (case jobIDFromName E (pj_Name pj) of
             Inl err \<Rightarrow> (Inl err, d)
           | Inr jid \<Rightarrow> job_proto (svc_Update E now wall jid (jobFromProto pj) paths d)))"

definition grpc_DeleteJob :: "ext \<Rightarrow> string \<Rightarrow> db \<Rightarrow> unit grpc \<times> db" where
  "grpc_DeleteJob E name d =
     (case jobIDFromName E name of
        Inl err \<Rightarrow> (Inl err, d)
      | Inr jid \<Rightarrow> (case svc_Delete jid d of (Inl e, d) \<Rightarrow> (Inl (schedErr e), d) | (Inr _, d) \<Rightarrow> (Inr (), d)))"

definition grpc_PauseJob :: "ext \<Rightarrow> time \<Rightarrow> string \<Rightarrow> db \<Rightarrow> pb_job grpc \<times> db" where
  "grpc_PauseJob E wall name d =
     (case jobIDFromName E name of Inl err \<Rightarrow> (Inl err, d) | Inr jid \<Rightarrow> job_proto (svc_Pause E wall jid d))"

definition grpc_ResumeJob :: "ext \<Rightarrow> time \<Rightarrow> time \<Rightarrow> string \<Rightarrow> db \<Rightarrow> pb_job grpc \<times> db" where
  "grpc_ResumeJob E now wall name d =
     (case jobIDFromName E name of Inl err \<Rightarrow> (Inl err, d) | Inr jid \<Rightarrow> job_proto (svc_Resume E now wall jid d))"

definition grpc_RunJob :: "ext \<Rightarrow> time \<Rightarrow> string \<Rightarrow> db \<Rightarrow> pb_job grpc \<times> (Job \<times> time) option \<times> db" where
  "grpc_RunJob E now name d =
     (case jobIDFromName E name of
        Inl err \<Rightarrow> (Inl err, None, d)
      | Inr jid \<Rightarrow> (case svc_Run E now jid d of (res, fired, d) \<Rightarrow> (case job_proto (res, d) of (r, d) \<Rightarrow> (r, fired, d))))"

end
