(* ===== verification/Rest_Props.thy ===== *)
theory Rest_Props
  imports Rest_Tasks Rest_Jobs Worker_Props
begin

text \<open>
  The properties of the REST handlers: requests that are refused change nothing, an accepted task is
  stored as requested, the pages of a listing are complete, bodies survive the base64 round trip,
  jobs are filed under the parent of the request, and what the replies hide.
\<close>

section \<open>Creating a task\<close>

lemma ensure_queue_effect:
  assumes "ensure_queue E cfg wall qid pr l n d = (r, d')"
  shows "case r of Some _ \<Rightarrow> tables d' = tables d
    | None \<Rightarrow> task_tbl d' = task_tbl d \<and> job_tbl d' = job_tbl d"
proof -
  obtain x d1 where g: "queue_Get E qid d = (x, d1)" by (cases "queue_Get E qid d")
  note G = queue_Get_effect [OF g]
  let ?q = "\<lparr>q_ID = [], q_Name = n, q_Project = pr, q_Location = l, q_State = [], q_RateLimits = None, q_CreatedAt = zero_time\<rparr>"
  obtain y d2 where c: "queue_Create wall ?q d1 = (y, d2)" by (cases "queue_Create wall ?q d1")
  note C = queue_Create_effect [OF c]
  show ?thesis
  proof (cases x)
    case (Inl e)
    with assms g G show ?thesis by (auto simp: ensure_queue_def)
  next
    case (Inr qo)
    show ?thesis
    proof (cases qo)
      case (Some q)
      with Inr assms g G show ?thesis by (auto simp: ensure_queue_def tables_eq_iff)
    next
      case None
      with Inr assms g G c C show ?thesis
        by (cases y) (auto simp: ensure_queue_def tables_eq_iff Let_def split: if_splits option.splits)
    qed
  qed
qed

text \<open>
  C34: a create request that is answered with 400 or 404 leaves every table as it was, whatever
  statement fails; in particular a malformed request never creates a queue.
\<close>

theorem rest_create_refused:
  assumes "rest_task_Create E cfg now wall uuid p decoded d = (r, d')" "reply_status r \<in> {400, 404}"
  shows "tables d' = tables d"
proof (cases "rest_task_validated E cfg now uuid (queueIDFrom cfg p) decoded")
  case (Inl msg)
  with assms show ?thesis by (simp add: rest_task_Create_def)
next
  case (Inr t)
  obtain x d1 where q: "ensure_queue E cfg wall (queueIDFrom cfg p) (pv_project p) (pv_location p) (pv_queue p) d
      = (x :: taskResponse reply option, d1)"
    by (cases "ensure_queue E cfg wall (queueIDFrom cfg p) (pv_project p) (pv_location p) (pv_queue p) d
      :: taskResponse reply option \<times> db")
  show ?thesis
  proof (cases x)
    case (Some r')
    with ensure_queue_effect [OF q] assms Inr q show ?thesis by (auto simp: rest_task_Create_def)
  next
    case None
    with assms Inr q show ?thesis
      by (auto simp: rest_task_Create_def split: sum.splits prod.splits if_splits)
  qed
qed

theorem rest_create_refused_witness:
  "tables (snd (rest_task_Create demo_ext (Load (\<lambda>_. [])) 0 0 ''u'' \<lparr>pv_project = ''p'', pv_location = ''l'',
      pv_queue = ''q'', pv_task = [], pv_job = []\<rparr> (Inr None) demo_db)) = tables demo_db"
  by (rule rest_create_refused [OF prod.collapse [symmetric]])
    (simp add: rest_task_Create_def rest_task_validated_def)

lemma ensure_queue_ok:
  assumes "db_ok d" "queue_path pr l n = qid" "pr \<noteq> []" "l \<noteq> []"
    and "find_queue qid d \<noteq> None \<or> AutoCreateQueues cfg \<and> queue_ValidateName E n = None"
  shows "\<exists>d'. ensure_queue E cfg wall qid pr l n d = (None, d') \<and> db_ok d' \<and> find_queue qid d' \<noteq> None
    \<and> task_tbl d' = task_tbl d"
proof (cases "find_queue qid d")
  case (Some r)
  with assms(1) show ?thesis by (auto simp: ensure_queue_def queue_Get_lookup queue_lookup_def)
next
  case None
  let ?q = "\<lparr>q_ID = [], q_Name = n, q_Project = pr, q_Location = l, q_State = [], q_RateLimits = None, q_CreatedAt = zero_time\<rparr>"
  obtain y d2 where c: "queue_Create wall ?q d = (y, d2)" by (cases "queue_Create wall ?q d")
  have "y \<noteq> Inl e" for e
    using c None assms(1,2) by (auto simp: queue_Create_ok)
  moreover have "faults d2 = []" using c assms(1) by (auto simp: queue_Create_ok db_ok_def split: if_splits)
  ultimately show ?thesis
    using queue_Create_effect [OF c] queue_Create_keeps(1) [OF c] assms None c
    by (cases y) (auto simp: ensure_queue_def queue_Get_lookup queue_lookup_def Let_def db_ok_def find_queue_def
        find_append queue_insert_row_def queue_prepared_def queue_ResourceName_def)
qed

lemma rest_create_effect:
  assumes "db_ok d" "rest_task_validated E cfg now uuid (queueIDFrom cfg p) decoded = Inr t"
    and "pv_project p \<noteq> []" "pv_location p \<noteq> []"
    and "find_queue (queueIDFrom cfg p) d \<noteq> None \<or> AutoCreateQueues cfg \<and> queue_ValidateName E (pv_queue p) = None"
    and "find_task (t_Name t) d = None"
  shows "case rest_task_Create E cfg now wall uuid p decoded d of (r, d') \<Rightarrow>
      r = writeJSON 200 (toTaskResponse (scanTask E (task_insert_row E wall t)))
    \<and> find_task (t_Name t) d' = Some (task_insert_row E wall t) \<and> find_queue (queueIDFrom cfg p) d' \<noteq> None
    \<and> db_ok d' \<and> rest_task_Create E cfg now wall uuid p decoded d'
        = (writeError 409 ''ALREADY_EXISTS'' (''task already exists: '' @ t_Name t), d')"
proof -
  let ?qid = "queueIDFrom cfg p" and ?r = "task_insert_row E wall t"
  have q: "queue_path (pv_project p) (pv_location p) (pv_queue p) = ?qid"
    using assms(3,4) by (simp add: queueIDFrom_def or_default_def)
  have n: "t_ID t = t_Name t"
    using assms(2) by (auto simp: rest_task_validated_def Let_def split: sum.splits option.splits if_splits)
  then have t: "t\<lparr>t_ID := t_Name t\<rparr> = t" by (intro Task.equality) simp_all
  obtain d1 where d1: "ensure_queue E cfg wall ?qid (pv_project p) (pv_location p) (pv_queue p) d = (None :: taskResponse reply option, d1)"
      "db_ok d1" "find_queue ?qid d1 \<noteq> None" "task_tbl d1 = task_tbl d"
    using ensure_queue_ok [OF assms(1) q assms(3-5), of wall] by blast
  let ?d2 = "d1\<lparr>task_tbl := task_tbl d1 @ [?r]\<rparr>"
  have f: "find_task (t_Name t) d1 = None" using assms(6) d1(4) by (simp add: find_task_def)
  have c: "task_Create E wall t d1 = (Inr t, ?d2)"
    using f t by (simp add: task_Create_ok [OF d1(2)])
  have f2: "find_task (t_Name t) ?d2 = Some ?r" using f n by (simp add: find_task_def find_append)
  have ok2: "db_ok ?d2"
    using d1(2) f n by (auto simp: db_ok_def wf_db_def find_task_def find_key_None [of tr_id])
  have q2: "find_queue ?qid ?d2 \<noteq> None" using d1(3) by (simp add: find_queue_def)
  have s: "stored_task E t ?d2 = (scanTask E ?r, ?d2)"
    by (simp add: stored_task_def task_Get_lookup [OF ok2] task_lookup_def f2)
  have "ensure_queue E cfg wall ?qid (pv_project p) (pv_location p) (pv_queue p) ?d2 = (None :: taskResponse reply option, ?d2)"
    using q2 by (auto simp: ensure_queue_def queue_Get_lookup [OF ok2] queue_lookup_def)
  then have "rest_task_Create E cfg now wall uuid p decoded ?d2
      = (writeError 409 ''ALREADY_EXISTS'' (''task already exists: '' @ t_Name t), ?d2)"
    using assms(2) f2 by (simp add: rest_task_Create_def task_Create_ok [OF ok2])
  moreover have "rest_task_Create E cfg now wall uuid p decoded d
      = (writeJSON 200 (toTaskResponse (scanTask E ?r)), ?d2)"
    using assms(2) d1(1) c s by (simp add: rest_task_Create_def)
  ultimately show ?thesis using f2 q2 ok2 by simp
qed

text \<open>
  What the row of a task has to hold, field by field, when the request body \<open>tb\<close> with the HTTP part
  \<open>hb\<close> is accepted for the queue \<open>qid\<close> at the time \<open>now\<close>.
\<close>

definition row_described ::
  "ext \<Rightarrow> Config \<Rightarrow> time \<Rightarrow> string \<Rightarrow> string \<Rightarrow> task_body \<Rightarrow> http_body \<Rightarrow> task_row \<Rightarrow> bool" where
  "row_described E cfg now uuid qid tb hb r \<longleftrightarrow>
     task_id E uuid qid (tb_Name tb) = Inr (drop (length (qid @ ''/tasks/'')) (tr_id r))
   \<and> has_prefix (tr_id r) (qid @ ''/tasks/'') \<and> tr_queue_id r = qid
   \<and> tr_url r = hb_URL hb \<and> tr_http_method r = task_method E (hb_HTTPMethod hb)
   \<and> tr_headers r = (case hb_Headers hb of None \<Rightarrow> ''{}'' | Some h \<Rightarrow> hdr_marshal E h)
   \<and> decodeBody E (hb_Body hb) = Inr (tr_body r)
   \<and> (case task_schedule E now (tb_ScheduleTime tb) of Inl _ \<Rightarrow> False
      | Inr t \<Rightarrow> tr_schedule_time r = formatTime t \<and> tr_next_attempt_at r = formatTime t)
   \<and> (case decoded_deadline E tb of Inl _ \<Rightarrow> False | Inr dl \<Rightarrow> task_deadline dl = Inr (tr_dispatch_deadline r))
   \<and> tr_status r = StatusPending \<and> tr_retry_count r = 0 \<and> tr_max_retries r = DefaultMaxRetries cfg
   \<and> tr_last_error r = None"

lemma validated_described:
  assumes "rest_task_validated E cfg now uuid qid (Inr (Some tb)) = Inr t"
  shows "\<exists>hb. tb_HTTPRequest tb = Some hb \<and> row_described E cfg now uuid qid tb hb (task_insert_row E wall t)"
proof -
  obtain hb where hb: "tb_HTTPRequest tb = Some hb"
    using assms by (cases "tb_HTTPRequest tb") (auto simp: rest_task_validated_def split: sum.splits)
  obtain dl sched dd body tid where p: "decoded_deadline E tb = Inr dl" "task_schedule E now (tb_ScheduleTime tb) = Inr sched"
    "task_deadline dl = Inr dd" "decodeBody E (hb_Body hb) = Inr body" "task_id E uuid qid (tb_Name tb) = Inr tid"
    using assms by (auto simp: rest_task_validated_def hb Let_def split: sum.splits option.splits if_splits)
  have "t = \<lparr>t_ID = qid @ ''/tasks/'' @ tid, t_Name = qid @ ''/tasks/'' @ tid, t_QueueID = qid,
      t_HTTPMethod = task_method E (hb_HTTPMethod hb), t_URL = hb_URL hb, t_Headers = hb_Headers hb, t_Body = body,
      t_ScheduleTime = sched, t_DispatchDeadline = dd, t_Status = StatusPending, t_RetryCount = 0,
      t_MaxRetries = DefaultMaxRetries cfg, t_NextAttemptAt = sched, t_LastError = [], t_CreatedAt = zero_time\<rparr>"
    using assms p by (auto simp: rest_task_validated_def hb Let_def split: option.splits if_splits)
  then show ?thesis
    using hb p by (auto simp: row_described_def task_insert_row_def HeadersJSON_def has_prefix_iff)
qed

text \<open>
  C35: an accepted create request whose queue exists, or may be created, stores under a fresh name a
  row that holds what the request says: its URL, method, headers, decoded body, schedule and deadline,
  PENDING, without retries and with the configured limit of them. It answers 200 with that row read
  back and leaves the queue in place; the same name again is answered 409 with the tables unchanged.
\<close>

theorem rest_create_stored:
  assumes "db_ok d" "rest_task_validated E cfg now uuid (queueIDFrom cfg p) (Inr (Some tb)) = Inr t"
    and "pv_project p \<noteq> []" "pv_location p \<noteq> []"
    and "find_queue (queueIDFrom cfg p) d \<noteq> None \<or> AutoCreateQueues cfg \<and> queue_ValidateName E (pv_queue p) = None"
    and "find_task (t_Name t) d = None"
  shows "case rest_task_Create E cfg now wall uuid p (Inr (Some tb)) d of (reply, d') \<Rightarrow>
      \<exists>hb r. tb_HTTPRequest tb = Some hb \<and> find_task (t_Name t) d' = Some r
    \<and> row_described E cfg now uuid (queueIDFrom cfg p) tb hb r \<and> tr_created_at r = current_timestamp wall
    \<and> reply = writeJSON 200 (toTaskResponse (scanTask E r)) \<and> find_queue (queueIDFrom cfg p) d' \<noteq> None
    \<and> rest_task_Create E cfg now wall uuid p (Inr (Some tb)) d'
        = (writeError 409 ''ALREADY_EXISTS'' (''task already exists: '' @ t_Name t), d')"
proof -
  obtain hb where hb: "tb_HTTPRequest tb = Some hb"
    "row_described E cfg now uuid (queueIDFrom cfg p) tb hb (task_insert_row E wall t)"
    using validated_described [OF assms(2)] by blast
  moreover have "tr_created_at (task_insert_row E wall t) = current_timestamp wall" by (simp add: task_insert_row_def)
  ultimately show ?thesis using rest_create_effect [OF assms, of wall] by (auto simp: case_prod_beta)
qed

definition demo_path :: path_values where
  "demo_path = \<lparr>pv_project = ''p'', pv_location = ''l'', pv_queue = ''q'', pv_task = ''t'', pv_job = ''j''\<rparr>"

definition demo_body :: task_body where
  "demo_body = \<lparr>tb_Name = ''t'', tb_HTTPRequest = Some \<lparr>hb_HTTPMethod = ''put'', hb_URL = ''http://h/'',
     hb_Headers = None, hb_Body = []\<rparr>, tb_ScheduleTime = [], tb_DispatchDeadline = None\<rparr>"

abbreviation demo_request :: "string + createTaskRequest" where
  "demo_request \<equiv> Inr (Some demo_body)"

lemma demo_validated:
  "rest_task_validated demo_ext cfg 0 ''u'' qid demo_request
    = Inr \<lparr>t_ID = qid @ ''/tasks/t'', t_Name = qid @ ''/tasks/t'',
           t_QueueID = qid, t_HTTPMethod = ''PUT'', t_URL = ''http://h/'', t_Headers = None,
           t_Body = [], t_ScheduleTime = 0, t_DispatchDeadline = 30, t_Status = StatusPending, t_RetryCount = 0,
           t_MaxRetries = DefaultMaxRetries cfg, t_NextAttemptAt = 0, t_LastError = [], t_CreatedAt = zero_time\<rparr>"
proof -
  have "task_method demo_ext ''put'' = ''PUT''" by code_simp
  moreover have "task_ValidateURL demo_ext ''http://h/'' = None" by code_simp
  moreover have "match_name 500 ''t''" by (simp add: match_name_def name_char_def)
  then have "task_id demo_ext ''u'' qid ''t'' = Inr ''t''" for qid by (simp add: task_id_def task_ValidateID_def)
  moreover have "decodeBody demo_ext [] = Inr []" by (simp add: decodeBody_def)
  moreover have "task_schedule demo_ext 0 [] = Inr 0" "task_deadline None = Inr 30"
    by (simp_all add: task_schedule_def task_deadline_def)
  ultimately show ?thesis
    by (simp add: rest_task_validated_def demo_body_def decoded_deadline_def validHTTPMethods_def Let_def)
qed

theorem rest_create_stored_witness:
  "\<exists>r d'. rest_task_Create demo_ext (Load (\<lambda>_. [])) 0 0 ''u'' demo_path demo_request empty_db = (writeJSON 200 r, d')
     \<and> (\<exists>row. find_task ''projects/p/locations/l/queues/q/tasks/t'' d' = Some row
          \<and> row_described demo_ext (Load (\<lambda>_. [])) 0 ''u'' ''projects/p/locations/l/queues/q'' demo_body (the (tb_HTTPRequest demo_body)) row)"
proof -
  let ?c = "Load (\<lambda>_. [])"
  have q: "queueIDFrom ?c demo_path = ''projects/p/locations/l/queues/q''" by code_simp
  have "AutoCreateQueues ?c" by code_simp
  moreover have "queue_ValidateName demo_ext (pv_queue demo_path) = None"
    by (simp add: queue_ValidateName_def demo_path_def match_name_def name_char_def)
  ultimately have a: "find_queue (queueIDFrom ?c demo_path) empty_db \<noteq> None
      \<or> AutoCreateQueues ?c \<and> queue_ValidateName demo_ext (pv_queue demo_path) = None" by blast
  have ne: "pv_project demo_path \<noteq> []" "pv_location demo_path \<noteq> []" by (simp_all add: demo_path_def)
  have f: "find_task n empty_db = None" for n by (simp add: find_task_def empty_db_def)
  from rest_create_stored [OF empty_db_ok demo_validated ne a f, of 0]
  show ?thesis by (cases "rest_task_Create demo_ext ?c 0 0 ''u'' demo_path demo_request empty_db") (auto simp: q demo_body_def)
qed

section \<open>Listing\<close>

text \<open>Following the page tokens from a first page on; \<open>None\<close> is running out of fuel, or an error.\<close>

fun rest_all_pages ::
  "nat \<Rightarrow> ext \<Rightarrow> Config \<Rightarrow> path_values \<Rightarrow> string \<Rightarrow> string \<Rightarrow> string \<Rightarrow> db \<Rightarrow> taskResponse list option" where
  "rest_all_pages 0 E cfg p st sz tok d = None"
| "rest_all_pages (Suc n) E cfg p st sz tok d =
     (case rest_task_List E cfg p st sz tok d of
        (writeError _ _ _, d) \<Rightarrow> None
      | (writeJSON _ resp, d) \<Rightarrow>
          if lt_NextPageToken resp = [] then Some (lt_Tasks resp)
          else map_option (\<lambda>ts. lt_Tasks resp @ ts) (rest_all_pages n E cfg p st sz (lt_NextPageToken resp) d))"

lemma page_size_range: "page_size v = Some k \<Longrightarrow> 1 \<le> k \<and> k \<le> 1000"
  by (auto simp: page_size_def defaultPageSize_def maxPageSize_def split: if_splits option.splits)

lemma itoa_ne [simp]: "itoa n \<noteq> []"
  by (simp add: itoa_def)

lemma rest_task_List_ok:
  assumes "db_ok d" "page_size sz = Some k" "page_offset tok = Some off" "0 \<le> off" "off < 2 ^ 62"
    and "L = task_rows_page (queueIDFrom cfg p) st (-1) 0 d"
  shows "rest_task_List E cfg p st sz tok d =
    (writeJSON 200 \<lparr>lt_Tasks = map (\<lambda>r. toTaskResponse (scanTask E r)) (take (nat k) (drop (nat off) L)),
       lt_NextPageToken = (if int (length L) \<le> off + k then [] else itoa (off + k))\<rparr>, d)"
proof -
  have k: "1 \<le> k" "k \<le> 1000" using page_size_range [OF assms(2)] by simp_all
  have "task_rows_page (queueIDFrom cfg p) st (k + 1) off d = take (nat (k + 1)) (drop (nat off) L)"
    using k by (simp add: assms(6) task_rows_page_def sql_limit_def)
  then have l: "task_ListPage E (queueIDFrom cfg p) st (k + 1) off d
      = (Inr (map (scanTask E) (take (nat (k + 1)) (drop (nat off) L))), d)"
    using assms(1) by (simp add: task_ListPage_def task_query_def select_def db_ok_def)
  have i: "i64 (off + k) = off + k" using assms(4,5) k by (intro i64_id) (simp add: in_i64_def)
  show ?thesis
  proof (cases "int (length L) \<le> off + k")
    case True
    then have "length (drop (nat off) L) \<le> nat k" by simp
    with True l assms(2,3) k show ?thesis by (simp add: rest_task_List_def page_of_def)
  next
    case False
    then have "k < int (length (take (nat (k + 1)) (drop (nat off) L)))" using k assms(4) by simp
    with False l assms(2,3) i k show ?thesis
      by (simp add: rest_task_List_def page_of_def take_map min_def)
  qed
qed

lemma rest_all_pages_from:
  assumes "db_ok d" "page_size sz = Some k" "L = task_rows_page (queueIDFrom cfg p) st (-1) 0 d" "length L < 2 ^ 61"
    and "page_offset tok = Some off" "0 \<le> off" "off < 2 ^ 62" "int (length L) - off < int n" "0 < n"
  shows "rest_all_pages n E cfg p st sz tok d = Some (map (\<lambda>r. toTaskResponse (scanTask E r)) (drop (nat off) L))"
  using assms(5-9)
proof (induction n arbitrary: tok off)
  case (Suc n)
  have k: "1 \<le> k" "k \<le> 1000" using page_size_range [OF assms(2)] by simp_all
  note l = rest_task_List_ok [OF assms(1,2) Suc.prems(1-3) assms(3), of E]
  show ?case
  proof (cases "int (length L) \<le> off + k")
    case True
    then have "length (drop (nat off) L) \<le> nat k" by simp
    with True l show ?thesis by simp
  next
    case False
    have o: "page_offset (itoa (off + k)) = Some (off + k)"
      using Suc.prems(2,3) k atoi_itoa [of "off + k"] by (simp add: page_offset_def in_i64_def)
    have "off + k < 2 ^ 62" using False assms(4) by simp
    then have "rest_all_pages n E cfg p st sz (itoa (off + k)) d
        = Some (map (\<lambda>r. toTaskResponse (scanTask E r)) (drop (nat (off + k)) L))"
      using Suc.prems k False by (intro Suc.IH [OF o]) simp_all
    moreover have "take (nat k) (drop (nat off) L) @ drop (nat (off + k)) L = drop (nat off) L"
    proof -
      have "drop (nat (off + k)) L = drop (nat k) (drop (nat off) L)"
        using Suc.prems(2) k by (simp add: nat_add_distrib add.commute)
      then show ?thesis by (simp only: append_take_drop_id)
    qed
    ultimately show ?thesis using l False by (simp flip: map_append)
  qed
qed simp

text \<open>
  C9: a client that follows nextPageToken sees every task of the queue with the status it asked
  for exactly once, in the order of the listing, and comes to an end: with any page size the
  request may carry, one request more than there are tasks is enough.
\<close>

theorem rest_listing_complete:
  assumes "db_ok d" "page_size sz = Some k" "length (task_tbl d) < 2 ^ 61"
  shows "rest_all_pages (Suc (length (task_tbl d))) E cfg p st sz [] d
    = (case task_List E (queueIDFrom cfg p) st d of (Inr ts, _) \<Rightarrow> Some (map toTaskResponse ts) | _ \<Rightarrow> None)"
proof -
  define L where "L = task_rows_page (queueIDFrom cfg p) st (-1) 0 d"
  have "length L = length (filter (in_listing (queueIDFrom cfg p) st) (task_tbl d))"
    by (simp add: L_def task_rows_page_def sql_limit_def)
  then have len: "length L \<le> length (task_tbl d)" by simp
  have "rest_all_pages (Suc (length (task_tbl d))) E cfg p st sz [] d
      = Some (map (\<lambda>r. toTaskResponse (scanTask E r)) (drop (nat 0) L))"
    using len assms(3) by (intro rest_all_pages_from [OF assms(1,2) L_def]) (simp_all add: page_offset_def)
  moreover have "task_List E (queueIDFrom cfg p) st d = (Inr (map (scanTask E) L), d)"
    using assms(1) by (simp add: task_List_def task_ListPage_def task_query_def select_def db_ok_def L_def)
  ultimately show ?thesis by (simp add: comp_def)
qed

theorem rest_listing_complete_witness:
  "rest_all_pages 4 demo_ext (Load (\<lambda>_. [])) (demo_path\<lparr>pv_queue := ''none''\<rparr>) [] ''2'' [] demo_db
    = (case task_List demo_ext (queueIDFrom (Load (\<lambda>_. [])) (demo_path\<lparr>pv_queue := ''none''\<rparr>)) [] demo_db of
         (Inr ts, _) \<Rightarrow> Some (map toTaskResponse ts) | _ \<Rightarrow> None)"
proof -
  have l: "length (task_tbl demo_db) = 3" by (simp add: demo_db_def)
  have n: "4 = Suc (length (task_tbl demo_db))" by (simp only: l)
  have "page_size ''2'' = Some 2" by code_simp
  from rest_listing_complete [OF demo_db_ok this] l show ?thesis unfolding n by simp
qed

section \<open>Bodies and deadlines\<close>

text \<open>
  C36: the httpRequest of a task response can be sent back in a create request: its URL, method and
  headers are the task's, and its body, which is left out when it is empty, is base64 text that the
  handler decodes to the bytes of the task's body.
\<close>

theorem task_body_roundtrip:
  assumes "t_URL t \<noteq> []" "json_string_reads_back E (b64_std (t_Body t))"
  shows "\<exists>h. tp_HTTPRequest (toTaskResponse t) = Some h
    \<and> hr_URL h = t_URL t \<and> hr_HTTPMethod h = t_HTTPMethod t \<and> hr_Headers h = t_Headers t
    \<and> decodeBody E (if hr_Body h = [] then [] else json_string E (hr_Body h)) = Inr (t_Body t)"
proof -
  let ?raw = "json_string E (b64_std (t_Body t))"
  have r: "?raw \<noteq> []" "hd ?raw = CHR 0x22" "last ?raw = CHR 0x22" "json_unstring E ?raw = Inr (b64_std (t_Body t))"
    using assms(2) by (simp_all add: json_string_reads_back_def)
  then have "trim_space ?raw = ?raw" by (intro trim_space_id) (simp_all add: visible_def)
  moreover have "?raw \<noteq> ''null''" using r(2) by auto
  ultimately have "decodeBody E ?raw = Inr (t_Body t)" using r by (simp add: decodeBody_def b64_roundtrip)
  moreover have "b64_std (t_Body t) = [] \<longrightarrow> [] = t_Body t"
  proof
    assume "b64_std (t_Body t) = []"
    then have "b64_decode b64_std_char True [] = Some (t_Body t)" using b64_roundtrip [of "t_Body t"] by simp
    moreover have "b64_decode b64_std_char True [] = Some []" using b64_roundtrip [of "[]"] by (simp add: b64_std_def)
    ultimately show "[] = t_Body t" by simp
  qed
  moreover have "decodeBody E [] = Inr []" by (simp add: decodeBody_def)
  ultimately show ?thesis using assms(1) by (simp add: toTaskResponse_def Let_def)
qed

theorem task_body_roundtrip_witness:
  "\<exists>h. tp_HTTPRequest (toTaskResponse (demo_task\<lparr>t_URL := ''http://h/'', t_Body := ''hi!''\<rparr>)) = Some h
    \<and> decodeBody demo_ext ([CHR 0x22] @ hr_Body h @ [CHR 0x22]) = Inr ''hi!''"
proof -
  have j: "json_string demo_ext s = [CHR 0x22] @ s @ [CHR 0x22]" for s by (simp add: demo_ext_def)
  have "json_string_reads_back demo_ext (b64_std ''hi!'')"
    by (simp add: json_string_reads_back_def j) (simp add: demo_ext_def butlast_append)
  moreover have "b64_std ''hi!'' \<noteq> []" by code_simp
  ultimately show ?thesis
    using task_body_roundtrip [of "demo_task\<lparr>t_URL := ''http://h/'', t_Body := ''hi!''\<rparr>" demo_ext]
    by (auto simp: j toTaskResponse_def Let_def)
qed

text \<open>
  The check that a dispatch deadline is positive does not keep it positive: a quarter of a
  second is stored as 0 seconds, and a deadline that parses as NaN is stored as the least integer.
\<close>

theorem deadline_not_positive:
  "task_deadline (Some (Fin (1 / 4))) = Inr 0 \<and> task_deadline (Some NaN) = Inr (- (2 ^ 63))"
proof -
  have "0 \<le> fl64 (1 / 4 + 1 / 2)" "fl64 (1 / 4 + 1 / 2) < 1" by code_simp+
  then have "\<lfloor>fl64 (1 / 4 + 1 / 2)\<rfloor> = 0" by (simp add: floor_eq_iff)
  then show ?thesis
    using \<open>0 \<le> fl64 (1 / 4 + 1 / 2)\<close> by (simp add: task_deadline_def go_int_def in_i64_def del: divide_rat_def)
qed

section \<open>Queue verbs\<close>

lemma queue_verb_found:
  assumes "queue_verb E verb qid d = Some (Inr u, d1)"
  shows "find_queue qid d1 \<noteq> None"
proof -
  have st: "find_queue qid d1 \<noteq> None" if "queue_SetState qid st d = (Inr u, d1)" for st
    using queue_SetState_effect [OF that] by (auto simp: find_queue_def find_rows_update [of qr_id])
  show ?thesis
  proof (cases "verb = ''pause'' \<or> verb = ''resume''")
    case True
    with assms st show ?thesis by (auto simp: queue_verb_def)
  next
    case False
    with assms obtain r where "queue_Purge E qid d = (r, d1)" "map_sum (\<lambda>e. e) (\<lambda>_. ()) r = Inr u"
      by (auto simp: queue_verb_def split: if_splits prod.splits)
    with queue_Purge_effect [OF this(1)] show ?thesis by (cases r) (auto simp: find_queue_def)
  qed
qed

text \<open>
  C38: a queue verb (pause, resume or purge) that has taken effect is answered 404 NOT_FOUND when the
  statement that reads the queue back fails, although the queue is there: the reply is the one of a
  missing queue, and the effect of the verb stays in the tables.
\<close>

theorem rest_action_hides_failure:
  assumes "go_cut colon (pv_queue p) = (name, verb, True)"
    and "queue_verb E verb (queue_path (pv_project p) (pv_location p) name) d = Some (Inr (), d1)"
    and "faults d1 = Some e # fs"
  shows "case rest_queue_Action E p d of (r, d') \<Rightarrow>
      (\<exists>msg. r = writeError 404 ''NOT_FOUND'' msg) \<and> tables d' = tables d1
    \<and> find_queue (queue_path (pv_project p) (pv_location p) name) d' \<noteq> None"
proof -
  let ?qid = "queue_path (pv_project p) (pv_location p) name"
  have g: "queue_Get E ?qid d1 = (Inl (SqlError e), d1\<lparr>faults := fs\<rparr>)"
    using assms(3) by (simp add: queue_Get_def select_def stmt_def)
  have "find_queue ?qid (d1\<lparr>faults := fs\<rparr>) \<noteq> None"
    using queue_verb_found [OF assms(2)] by (simp add: find_queue_def)
  with assms(1,2) g show ?thesis by (simp add: rest_queue_Action_def Let_def tables_eq_iff)
qed

text \<open>A purge whose deletion works and whose last read meets a busy database.\<close>

theorem rest_action_hides_failure_witness:
  "reply_status (fst (rest_queue_Action demo_ext (demo_path\<lparr>pv_queue := ''q:purge''\<rparr>)
     (empty_db\<lparr>queue_tbl := [demo_qrow\<lparr>qr_id := ''projects/p/locations/l/queues/q''\<rparr>],
        faults := [None, None, Some (DriverError ''busy'')]\<rparr>))) = 404"
proof -
  let ?qid = "''projects/p/locations/l/queues/q''"
  let ?d = "empty_db\<lparr>queue_tbl := [demo_qrow\<lparr>qr_id := ?qid\<rparr>], faults := [None, None, Some (DriverError ''busy'')]\<rparr>"
    and ?p = "demo_path\<lparr>pv_queue := ''q:purge''\<rparr>"
  have c: "go_cut colon (pv_queue ?p) = (''q'', ''purge'', True)" by (simp add: demo_path_def)
  have q: "queue_path (pv_project ?p) (pv_location ?p) ''q'' = ?qid" by (simp add: queue_path_def demo_path_def)
  have "queue_verb demo_ext ''purge'' ?qid ?d = Some (Inr (), ?d\<lparr>faults := [Some (DriverError ''busy'')]\<rparr>)"
    by (simp add: queue_verb_def queue_Purge_def queue_Get_def select_def delete_tasks_def stmt_def find_queue_def)
      (simp add: empty_db_def rows_delete_def)
  then have v: "queue_verb demo_ext ''purge'' (queue_path (pv_project ?p) (pv_location ?p) ''q'') ?d
      = Some (Inr (), ?d\<lparr>faults := [Some (DriverError ''busy'')]\<rparr>)" by (simp only: q)
  from rest_action_hides_failure [OF c v, of "DriverError ''busy''" "[]"] show ?thesis by (auto simp: case_prod_beta)
qed

section \<open>Jobs\<close>

lemma writeJobError_not_JSON: "writeJobError e \<noteq> writeJSON st v"
  by (cases e) (simp_all add: internal_error_def)

lemma svc_prepare_name:
  assumes "svc_prepare E now j = Inr j'"
  shows "match_name 500 (j_Name j')" "j_Project j' = j_Project j" "j_Location j' = j_Location j"
proof -
  let ?j = "ApplyDefaults E j"
  have v: "Validate E ?j = None" using assms by (auto simp: svc_prepare_def Let_def split: option.splits)
  obtain t where "j' = ?j\<lparr>j_NextRunAt := t\<rparr>"
    using assms v by (auto simp: svc_prepare_def Let_def split: if_splits sum.splits)
  then show "match_name 500 (j_Name j')" "j_Project j' = j_Project j" "j_Location j' = j_Location j"
    using Validate_config [OF v] by (simp_all add: config_ok_def ApplyDefaults_def)
qed

lemma svc_Create_effect:
  assumes "svc_Create E now wall j d = (r, d')"
  shows "case r of
      Inl e \<Rightarrow> (\<exists>x. e = SqlError x) \<or> tables d' = tables d
    | Inr None \<Rightarrow> True
    | Inr (Some k) \<Rightarrow> \<exists>n. match_name 500 n \<and> j_ID k = job_ResourceName (j_Project j) (j_Location j) n"
proof (cases "svc_prepare E now j")
  case (Inl e)
  with assms show ?thesis by (auto simp: svc_Create_def)
next
  case (Inr j1)
  note n = svc_prepare_name [OF Inr]
  obtain x d1 where c: "job_Create E wall j1 d = (x, d1)" by (cases "job_Create E wall j1 d")
  note C = job_Create_effect [OF c]
  show ?thesis
  proof (cases x)
    case (Inl e)
    with C Inr c assms show ?thesis by (auto simp: svc_Create_def)
  next
    case (Inr j2)
    have id: "j_ID j2 = job_ResourceName (j_Project j) (j_Location j) (j_Name j1)"
      using C Inr n by (simp add: job_stamped_def)
    have g: "job_Get E (j_ID j2) d1 = (r, d')" using assms \<open>svc_prepare E now j = Inr j1\<close> c Inr by (simp add: svc_Create_def)
    have "\<exists>x. e = SqlError x" if "r = Inl e" for e
      using g that by (auto simp: job_Get_def split: prod.splits sum.splits)
    moreover have "j_ID k = j_ID j2" if rk: "r = Inr (Some k)" for k
    proof -
      obtain row where row: "find_job (j_ID j2) d1 = Some row" "k = scanJob E row"
        using job_Get_effect [OF g] rk by (cases "find_job (j_ID j2) d1") (auto simp: job_lookup_def)
      then have "jr_id row = j_ID j2" by (auto simp: find_job_def find_Some_iff)
      with row(2) show ?thesis by (simp add: scanJob_def)
    qed
    ultimately show ?thesis using id n(1) by (auto split: sum.splits option.splits)
  qed
qed

text \<open>
  C37: the REST handler files a job under the project and location of the path whatever name the
  request carries: a created job is named after the parent and a valid bare name, and a request
  refused with 400 or 409 leaves every table as it was, whatever statement fails.
\<close>

theorem rest_job_create_parent:
  assumes "rest_job_Create E now wall p decoded d = (Some r, d')"
  shows "(reply_status r \<in> {400, 409} \<longrightarrow> tables d' = tables d)
    \<and> (\<forall>st j. r = writeJSON st j \<longrightarrow> (\<exists>n. match_name 500 n \<and> jj_Name j = job_ResourceName (pv_project p) (pv_location p) n))"
proof (cases "rest_job_requested E p decoded")
  case (Inl e)
  with assms show ?thesis by (auto simp: rest_job_Create_def writeJobError_not_JSON)
next
  case (Inr j)
  have j: "j_Project j = pv_project p" "j_Location j = pv_location p"
    using Inr by (auto simp: rest_job_requested_def split: sum.splits if_splits)
  obtain x d1 where c: "svc_Create E now wall j d = (x, d1)" by (cases "svc_Create E now wall j d")
  note C = svc_Create_effect [OF c]
  show ?thesis
  proof (cases x)
    case (Inl e)
    with assms Inr c C \<open>rest_job_requested E p decoded = Inr j\<close> show ?thesis
      by (auto simp: rest_job_Create_def writeJobError_not_JSON internal_error_def)
  next
    case (Inr ko)
    with assms c C j \<open>rest_job_requested E p decoded = Inr j\<close> show ?thesis
      by (cases ko) (auto simp: rest_job_Create_def toJobJSON_def)
  qed
qed

theorem rest_job_create_parent_witness:
  "tables (snd (rest_job_Create demo_ext 0 0 demo_path (Inl ''bad'') demo_db)) = tables demo_db"
  using rest_job_create_parent [of demo_ext 0 0 demo_path "Inl ''bad''" demo_db]
  by (simp add: rest_job_Create_def rest_job_requested_def decodeJob_def)

end
