(* ===== verification/Grpc_Props.thy ===== *)
theory Grpc_Props
  imports Grpc_Tasks Grpc_Jobs Rest_Props
begin

text \<open>
  The properties of the gRPC services: the two front ends agree on what they store, and
  what happens to fractional dispatch rates.
\<close>

section \<open>The two front ends\<close>

text \<open>
  When a REST and a gRPC create request say the same: equal names and URLs, and a method, schedule, body
  and headers that read as the same values; a REST request without headers says the same as an empty
  map of them. The dispatch deadline is absent in both, or the JSON of one is the number of whole
  seconds the other holds; a fraction of a second is read differently by the two (REST rounds to the
  nearest second, gRPC up), so it is not the same deadline.
\<close>

definition same_deadline :: "ext \<Rightarrow> task_body \<Rightarrow> duration option \<Rightarrow> bool" where
  "same_deadline E tb dd \<longleftrightarrow>
     (case dd of
        None \<Rightarrow> decoded_deadline E tb = Inr None
      | Some d \<Rightarrow> d mod Second = 0 \<and> in_i64 d \<and> decoded_deadline E tb = Inr (Some (Fin (of_int (d div Second)))))"

definition same_request :: "ext \<Rightarrow> time \<Rightarrow> task_body \<Rightarrow> pb_task \<Rightarrow> bool" where
  "same_request E now tb pt \<longleftrightarrow>
     (case (tb_HTTPRequest tb, pt_HttpRequest pt) of
        (Some hb, Some ph) \<Rightarrow>
          tb_Name tb = pt_Name pt \<and> hb_URL hb = ph_Url ph
        \<and> task_method E (hb_HTTPMethod hb) = method_from_proto (ph_HttpMethod ph)
        \<and> decodeBody E (hb_Body hb) = Inr (ph_Body ph)
        \<and> (case hb_Headers hb of None \<Rightarrow> ph_Headers ph = [] | Some h \<Rightarrow> ph_Headers ph = h)
        \<and> task_schedule E now (tb_ScheduleTime tb) = Inr (case pt_ScheduleTime pt of None \<Rightarrow> now | Some t \<Rightarrow> t)
        \<and> same_deadline E tb (pt_DispatchDeadline pt)
      | _ \<Rightarrow> False)"

lemma whole_seconds:
  assumes "0 < n" "in_i64 (n * Second)"
  shows "dur_seconds (n * Second) = of_int n" "float_int (float_add (Fin (of_int n)) (1 / 2)) = n"
proof -
  have n: "n < 2 ^ 51" using assms(2) by (simp add: in_i64_def)
  have "fl64 (of_int n) = of_int n" using assms(1) n by (intro float64.fl_int) simp
  then show "dur_seconds (n * Second) = of_int n"
    using assms(1) by (simp add: dur_seconds_def Let_def go_div_nonneg)
  have "\<lfloor>of_int n + 1 / 2 :: rat\<rfloor> = n" by (simp add: floor_eq_iff)
  moreover have "(0 :: rat) \<le> of_int n + 1 / 2" using assms(1) by simp
  ultimately show "float_int (float_add (Fin (of_int n)) (1 / 2)) = n"
    using fl64_half [of n] assms(1) n by (simp add: go_int_def Let_def in_i64_def)
qed

lemma same_deadline_read:
  assumes "same_deadline E tb dd"
  shows "\<exists>dl. decoded_deadline E tb = Inr dl
    \<and> (case task_deadline dl of Inl _ \<Rightarrow> \<exists>err. grpc_deadline dd = Inl err | Inr n \<Rightarrow> grpc_deadline dd = Inr n)"
proof (cases dd)
  case None
  with assms show ?thesis by (simp add: same_deadline_def task_deadline_def grpc_deadline_def)
next
  case (Some d)
  let ?n = "d div Second"
  have d: "d = ?n * Second" "in_i64 d" "decoded_deadline E tb = Inr (Some (Fin (of_int ?n)))"
    using assms div_mult_mod_eq [of d Second] by (simp_all add: Some same_deadline_def)
  show ?thesis
  proof (cases "0 < ?n")
    case True
    with whole_seconds [of ?n] d have "dur_seconds d = of_int ?n" "float_int (float_add (Fin (of_int ?n)) (1 / 2)) = ?n" by simp_all
    moreover have "0 < d" using True d(1) by simp
    ultimately show ?thesis using True d(3) by (simp add: Some task_deadline_def grpc_deadline_def del: float_add.simps float_int.simps)
  next
    case False
    then have "d \<le> 0" using d(1) by (simp add: mult_le_0_iff)
    with False d(3) show ?thesis by (simp add: Some task_deadline_def grpc_deadline_def)
  qed
qed

text \<open>Both validate to the same task, up to how no headers are represented.\<close>

definition same_task :: "Task \<Rightarrow> Task \<Rightarrow> bool" where
  "same_task t u \<longleftrightarrow> (\<exists>h. u = t\<lparr>t_Headers := Some h\<rparr> \<and> (case t_Headers t of None \<Rightarrow> h = [] | Some g \<Rightarrow> h = g))"

lemma method_from_proto_valid: "method_from_proto m \<in> set validHTTPMethods"
  by (cases m) (simp_all add: validHTTPMethods_def)

lemma same_request_validated:
  assumes "same_request E now tb pt"
  shows "(case rest_task_validated E cfg now uuid qid (Inr (Some tb)) of
      Inl _ \<Rightarrow> \<exists>err. grpc_task_validated E cfg now uuid qid (Some pt) = Inl err
    | Inr t \<Rightarrow> \<exists>u. grpc_task_validated E cfg now uuid qid (Some pt) = Inr u \<and> same_task t u)"
proof -
  obtain hb ph where h: "tb_HTTPRequest tb = Some hb" "pt_HttpRequest pt = Some ph" "tb_Name tb = pt_Name pt"
      "hb_URL hb = ph_Url ph" "task_method E (hb_HTTPMethod hb) = method_from_proto (ph_HttpMethod ph)"
      "decodeBody E (hb_Body hb) = Inr (ph_Body ph)"
      "case hb_Headers hb of None \<Rightarrow> ph_Headers ph = [] | Some h \<Rightarrow> ph_Headers ph = h"
      "task_schedule E now (tb_ScheduleTime tb) = Inr (case pt_ScheduleTime pt of None \<Rightarrow> now | Some t \<Rightarrow> t)"
      "same_deadline E tb (pt_DispatchDeadline pt)"
    using assms by (auto simp: same_request_def split: option.splits)
  obtain dl where dl: "decoded_deadline E tb = Inr dl"
    "case task_deadline dl of Inl _ \<Rightarrow> \<exists>err. grpc_deadline (pt_DispatchDeadline pt) = Inl err
     | Inr n \<Rightarrow> grpc_deadline (pt_DispatchDeadline pt) = Inr n"
    using same_deadline_read [OF h(9)] by blast
  show ?thesis
    using h(1-6,8) h(7) dl method_from_proto_valid [of "ph_HttpMethod ph"]
    by (cases "task_ValidateURL E (ph_Url ph)"; cases "task_deadline dl"; cases "task_id E uuid qid (pt_Name pt)")
      (auto simp: rest_task_validated_def grpc_task_validated_def same_task_def Let_def)
qed

lemma same_task_row:
  assumes "json_empty_map E" "same_task t u"
  shows "task_insert_row E wall (t\<lparr>t_ID := n\<rparr>) = task_insert_row E wall (u\<lparr>t_ID := n\<rparr>)" "t_Name u = t_Name t"
  using assms by (auto simp: same_task_def task_insert_row_def HeadersJSON_def json_empty_map_def split: option.splits)

lemma same_task_create:
  assumes "json_empty_map E" "same_task t u" "task_Create E wall t d = (x, d')"
  shows "\<exists>y. task_Create E wall u d = (y, d') \<and> (case x of Inl e \<Rightarrow> y = Inl e
    | Inr a \<Rightarrow> \<exists>b. y = Inr b \<and> snd (stored_task E a d') = snd (stored_task E b d'))"
  using assms(3) same_task_row(1) [OF assms(1,2), of wall "t_Name t"] same_task_row(2) [OF assms(1,2)]
  by (auto simp: task_Create_def Let_def stored_task_def split: prod.splits sum.splits option.splits if_splits)

lemma ensure_queue_same:
  "\<exists>r. ensure_queue E cfg wall qid pr l n d = (r, snd (grpc_ensure_queue E cfg wall qid pr l n d))
     \<and> (case (r, fst (grpc_ensure_queue E cfg wall qid pr l n d)) of
           (None, None) \<Rightarrow> True | (Some y, Some _) \<Rightarrow> reply_status y \<noteq> 200 | _ \<Rightarrow> False)"
  by (auto simp: ensure_queue_def grpc_ensure_queue_def Let_def split: prod.splits sum.splits option.splits)

text \<open>
  C4: the REST and the gRPC front end are one service: for requests that say the same, with a deadline
  in whole seconds or none, and a queue named by the same path, both accept or both refuse, and the
  database after them is the same, row by row, whatever statements fail.
\<close>

theorem front_ends_agree:
  assumes "same_request E now tb pt" "json_empty_map E" "pv_project p \<noteq> []" "pv_location p \<noteq> []"
    and "slash \<notin> set (pv_project p)" "slash \<notin> set (pv_location p)" "slash \<notin> set (pv_queue p)"
  shows "case rest_task_Create E cfg now wall uuid p (Inr (Some tb)) d of (r, d') \<Rightarrow>
    case grpc_CreateTask E cfg now wall uuid (queueIDFrom cfg p) (Some pt) d of (g, e') \<Rightarrow>
      d' = e' \<and> (reply_status r = 200 \<longleftrightarrow> (\<exists>t. g = Inr t))"
proof -
  have q: "queueIDFrom cfg p = queue_path (pv_project p) (pv_location p) (pv_queue p)"
    using assms(3,4) by (simp add: queueIDFrom_def or_default_def)
  have qne: "queueIDFrom cfg p \<noteq> []" by (simp add: q queue_path_def)
  have pp: "parseTaskParent (queueIDFrom cfg p) = Inr (pv_project p, pv_location p, pv_queue p)"
    unfolding q by (rule parseTaskParent_path [OF assms(5-7)])
  note v = same_request_validated [OF assms(1), of cfg uuid "queueIDFrom cfg p"]
  show ?thesis
  proof (cases "rest_task_validated E cfg now uuid (queueIDFrom cfg p) (Inr (Some tb))")
    case (Inl msg)
    with v qne pp show ?thesis by (auto simp: rest_task_Create_def grpc_CreateTask_def q)
  next
    case (Inr t)
    with v obtain u where g: "grpc_task_validated E cfg now uuid (queueIDFrom cfg p) (Some pt) = Inr u" "same_task t u" by auto
    obtain x d1 where e: "grpc_ensure_queue E cfg wall (queueIDFrom cfg p) (pv_project p) (pv_location p) (pv_queue p) d = (x, d1)"
      by (cases "grpc_ensure_queue E cfg wall (queueIDFrom cfg p) (pv_project p) (pv_location p) (pv_queue p) d")
    obtain r :: "taskResponse reply option" where
      r: "ensure_queue E cfg wall (queueIDFrom cfg p) (pv_project p) (pv_location p) (pv_queue p) d = (r, d1)"
        "case (r, x) of (None, None) \<Rightarrow> True | (Some y, Some _) \<Rightarrow> reply_status y \<noteq> 200 | _ \<Rightarrow> False"
      using ensure_queue_same [of E cfg wall "queueIDFrom cfg p" "pv_project p" "pv_location p" "pv_queue p" d] e by auto
    obtain y d2 where c: "task_Create E wall t d1 = (y, d2)" by (cases "task_Create E wall t d1")
    obtain z where z: "task_Create E wall u d1 = (z, d2)" "case y of Inl e \<Rightarrow> z = Inl e
        | Inr a \<Rightarrow> \<exists>b. z = Inr b \<and> snd (stored_task E a d2) = snd (stored_task E b d2)"
      using same_task_create [OF assms(2) g(2) c] by blast
    have R: "rest_task_Create E cfg now wall uuid p (Inr (Some tb)) d = (case r of Some y \<Rightarrow> (y, d1) | None \<Rightarrow>
        (case y of Inl e \<Rightarrow> (if e = TaskAlreadyExists
             then writeError StatusConflict ''ALREADY_EXISTS'' (''task already exists: '' @ t_Name t) else internal_error e, d2)
         | Inr t \<Rightarrow> (case stored_task E t d2 of (t, d) \<Rightarrow> (writeJSON StatusOK (toTaskResponse t), d))))"
      using Inr r(1) c by (simp add: rest_task_Create_def split: option.split sum.split)
    have G: "grpc_CreateTask E cfg now wall uuid (queueIDFrom cfg p) (Some pt) d = (case x of Some err \<Rightarrow> (Inl err, d1) | None \<Rightarrow>
        (case z of Inl e \<Rightarrow> (Inl (taskErr e), d2)
         | Inr t \<Rightarrow> (case stored_task E t d2 of (t, d) \<Rightarrow> (Inr (taskToProto t), d))))"
      using qne pp g(1) e z(1) q by (simp add: grpc_CreateTask_def split: option.split sum.split)
    show ?thesis unfolding R G using r(2) z(2) by (cases r; cases x; cases y) (auto simp: case_prod_beta)
  qed
qed

text \<open>
  The requests of the witness: a PUT without headers and body, scheduled now, with a deadline of twelve
  seconds.
\<close>

definition demo_pb :: pb_task where
  "demo_pb = \<lparr>pt_Name = ''t'', pt_HttpRequest = Some \<lparr>ph_Url = ''http://h/'', ph_HttpMethod = M_PUT, ph_Headers = [], ph_Body = []\<rparr>,
     pt_ScheduleTime = None, pt_CreateTime = None, pt_DispatchDeadline = Some (12 * Second), pt_DispatchCount = 0, pt_ResponseCount = 0\<rparr>"

definition demo_tb :: task_body where
  "demo_tb = \<lparr>tb_Name = ''t'', tb_HTTPRequest = Some \<lparr>hb_HTTPMethod = ''put'', hb_URL = ''http://h/'', hb_Headers = None,
     hb_Body = []\<rparr>, tb_ScheduleTime = [], tb_DispatchDeadline = Some ''12''\<rparr>"

theorem front_ends_agree_witness:
  "snd (rest_task_Create demo_ext (Load (\<lambda>_. [])) 0 0 ''u'' demo_path (Inr (Some demo_tb)) empty_db)
    = snd (grpc_CreateTask demo_ext (Load (\<lambda>_. [])) 0 0 ''u'' (queueIDFrom (Load (\<lambda>_. [])) demo_path) (Some demo_pb) empty_db)"
proof -
  have "task_method demo_ext ''put'' = ''PUT''" by code_simp
  moreover have "flexDuration_Unmarshal demo_ext ''12'' = Inr (Some (Fin 12))" by code_simp
  then have "same_deadline demo_ext demo_tb (Some (12 * Second))"
    by (simp add: same_deadline_def demo_tb_def decoded_deadline_def in_i64_def)
  ultimately have "same_request demo_ext 0 demo_tb demo_pb"
    by (simp add: same_request_def demo_tb_def demo_pb_def decodeBody_def task_schedule_def)
  moreover have "json_empty_map demo_ext" by (simp add: json_empty_map_def demo_ext_def)
  ultimately show ?thesis
    using front_ends_agree [of demo_ext 0 demo_tb demo_pb demo_path "Load (\<lambda>_. [])" 0 "''u''" empty_db]
    by (simp add: demo_path_def case_prod_beta)
qed

section \<open>Dispatch rates\<close>

text \<open>
  A dispatch rate below one per second is not honoured: CreateQueue truncates it to zero, which
  the repository reads as unset, so the queue is stored with the default of 500 dispatches per
  second.
\<close>

theorem grpc_fractional_rate:
  assumes "0 < rate" "rate < 1" "db_ok d" "find_queue (queue_path pr l n) d = None"
    and "slash \<notin> set pr" "slash \<notin> set l" "match_name 100 n"
  shows "\<exists>row. find_queue (queue_path pr l n) (snd (grpc_CreateQueue E wall (''projects/'' @ pr @ ''/locations/'' @ l)
      (Some \<lparr>pq_Name = n, pq_Paused = False,
             pq_RateLimits = Some \<lparr>pl_MaxDispatchesPerSecond = Fin rate, pl_MaxConcurrentDispatches = k\<rparr>\<rparr>) d)) = Some row
    \<and> qr_rate_limit row = 500"
proof -
  have "\<lfloor>rate\<rfloor> = 0" using assms(1,2) by (simp add: floor_eq_iff)
  then have z: "go_int rate = 0" using assms(1) by (simp add: go_int_def in_i64_def)
  have n: "n \<noteq> []" "slash \<notin> set n" using assms(7) by (auto simp: match_name_def name_char_def list_all_iff)
  have "go_split slash (''projects/'' @ pr @ ''/locations/'' @ l) = [''projects'', pr, ''locations'', l]"
    using go_split_append [of slash "''projects''"] go_split_append [OF assms(5)] go_split_append [of slash "''locations''"]
      go_split_nosep [OF assms(6)] by simp
  then have p: "parseParent (''projects/'' @ pr @ ''/locations/'' @ l) = Inr (pr, l)" by (simp add: parseParent_def)
  have "\<not> has_prefix n ''projects/''" using n(2) by (auto simp: has_prefix_iff)
  then have s: "last (go_split slash (trim_prefix n ''projects/'')) = n" using n(2) by (simp add: trim_prefix_def go_split_nosep)
  have v: "queue_ValidateName E n = None" using assms(7) by (simp add: queue_ValidateName_def)
  show ?thesis
    using assms(3,4) p s v n(1) z
    by (auto simp: grpc_CreateQueue_def Let_def queue_Create_ok find_queue_def find_append queue_insert_row_def
        effective_limits_def limits_from_proto_def DefaultMaxDispatchesPerSecond_def)
qed

theorem grpc_fractional_rate_witness:
  "\<exists>row. find_queue ''projects/p/locations/l/queues/q'' (snd (grpc_CreateQueue demo_ext 0 ''projects/p/locations/l''
      (Some \<lparr>pq_Name = ''q'', pq_Paused = False,
             pq_RateLimits = Some \<lparr>pl_MaxDispatchesPerSecond = Fin (1 / 2), pl_MaxConcurrentDispatches = 1\<rparr>\<rparr>) empty_db)) = Some row
    \<and> qr_rate_limit row = 500"
  using grpc_fractional_rate [of "1 / 2" empty_db "''p''" "''l''" "''q''" demo_ext 0 1] empty_db_ok
  by (simp add: queue_path_def find_queue_def match_name_def name_char_def empty_db_def)

end
