(* ===== verification/Sched_Shared.thy ===== *)
theory Sched_Shared
  imports Sched_Props
begin

text \<open>
  The scheduler as the whole process sees it. First the runner beside the service: ticks claim runs
  while requests change the jobs; no run is started twice unless a request wrote a next run it had
  computed before that run was started, and in that case one can be. Then \<^verbatim>\<open>ForDB\<close> (service.go), through
  which REST, gRPC, the admin pages and the runner get their service: they all get the same one, so
  the in-flight guard of its dispatcher is one for all.
\<close>

section \<open>Runs\<close>

text \<open>
  A run is a job with the time, in milliseconds, it was due. The runner and the requests work on the
  database statement by statement: \<open>sl_read\<close> holds the rows any request or the runner has read so far,
  however old they are by now, and a step that writes names the clock reading \<open>now\<close> it computed with,
  which is no later than the clock. \<open>sl_fired\<close> lists the runs the runner has started; the manual runs
  of \<^verbatim>\<open>Service.Run\<close> are not in it, they have no due time.

  \<open>sl_late\<close> is a history variable the program does not have: the jobs that were created, updated or
  resumed with a clock reading from before a run that had been started by the time of the write.
  service.go computes the next run from that reading and writes it without a comparison.
\<close>

record slots =
  sl_db :: db
  sl_clock :: time
  sl_read :: "job_row list"
  sl_fired :: "(string \<times> int) list"
  sl_late :: "string set"

definition overtaken :: "string \<Rightarrow> time \<Rightarrow> (string \<times> int) list \<Rightarrow> bool" where
  "overtaken jid now fired = list_ex (\<lambda>(i, v). i = jid \<and> unix_milli now < v) fired"

text \<open>The state after a write of the next run of a job, computed at \<open>now\<close>, with result \<open>r\<close>.\<close>

definition written :: "slots \<Rightarrow> db \<Rightarrow> error + 'a \<Rightarrow> string \<Rightarrow> time \<Rightarrow> slots" where
  "written s d' r jid now =
     s\<lparr>sl_db := d', sl_late := (if \<not> isl r \<and> overtaken jid now (sl_fired s) then insert jid (sl_late s) else sl_late s)\<rparr>"

inductive slot_step :: "ext \<Rightarrow> slots \<Rightarrow> slots \<Rightarrow> bool" for E where
  slot_clock: "sl_clock s \<le> t \<Longrightarrow> slot_step E s (s\<lparr>sl_clock := t\<rparr>)"
| slot_failures: "slot_step E s (s\<lparr>sl_db := (sl_db s)\<lparr>faults := fs\<rparr>\<rparr>)"
| slot_read: "row \<in> set (job_tbl (sl_db s)) \<Longrightarrow> slot_step E s (s\<lparr>sl_read := row # sl_read s\<rparr>)"
| slot_create: "0 \<le> now \<Longrightarrow> now \<le> sl_clock s \<Longrightarrow> svc_prepare E now j = Inr j' \<Longrightarrow>
    job_Create E wall j' (sl_db s) = (r, d') \<Longrightarrow>
    slot_step E s (written s d' r (job_ResourceName (j_Project j') (j_Location j') (j_Name j')) now)"
| slot_update: "0 \<le> now \<Longrightarrow> now \<le> sl_clock s \<Longrightarrow> row \<in> set (sl_read s) \<Longrightarrow>
    svc_updated E now p paths (scanJob E row) = Inr j' \<Longrightarrow> job_Update E wall j' (sl_db s) = (r, d') \<Longrightarrow>
    slot_step E s (written s d' r (jr_id row) now)"
| slot_resume: "0 \<le> now \<Longrightarrow> now \<le> sl_clock s \<Longrightarrow> row \<in> set (sl_read s) \<Longrightarrow>
    NextRun E (jr_schedule row) (jr_time_zone row) now = Inr nxt \<Longrightarrow>
    job_SetState wall (jr_id row) JobEnabled nxt (sl_db s) = (r, d') \<Longrightarrow>
    slot_step E s (written s d' r (jr_id row) now)"
| slot_pause: "job_SetState wall jid JobPaused zero_time (sl_db s) = (r, d') \<Longrightarrow> slot_step E s (s\<lparr>sl_db := d'\<rparr>)"
| slot_claim: "0 \<le> now \<Longrightarrow> now \<le> sl_clock s \<Longrightarrow> row \<in> set (sl_read s) \<Longrightarrow> job_due now row \<Longrightarrow>
    NextRun E (jr_schedule row) (jr_time_zone row) now = Inr nxt \<Longrightarrow>
    job_Claim (jr_id row) (fromMs (jr_next_run_at row)) nxt (sl_db s) = (r, d') \<Longrightarrow>
    slot_step E s (s\<lparr>sl_db := d',
      sl_fired := (if r = Inr True then (jr_id row, jr_next_run_at row) # sl_fired s else sl_fired s)\<rparr>)"
| slot_record: "job_RecordAttempt jid att st code msg (sl_db s) = (u, d') \<Longrightarrow> slot_step E s (s\<lparr>sl_db := d'\<rparr>)"
| slot_delete: "svc_Delete jid (sl_db s) = (u, d') \<Longrightarrow> slot_step E s (s\<lparr>sl_db := d'\<rparr>)"

text \<open>A change of the jobs in which a row without the property \<open>P\<close> keeps its run or loses it.\<close>

definition slots_after :: "(job_row \<Rightarrow> bool) \<Rightarrow> db \<Rightarrow> db \<Rightarrow> bool" where
  "slots_after P d d' \<longleftrightarrow> (\<forall>r' \<in> set (job_tbl d'). jr_next_run_at r' = 0 \<or> P r'
     \<or> (\<exists>r \<in> set (job_tbl d). jr_id r = jr_id r' \<and> jr_next_run_at r = jr_next_run_at r'))"

lemma slots_after_refl: "tables d' = tables d \<Longrightarrow> slots_after P d d'"
  by (auto simp: slots_after_def tables_eq_iff)

lemma slots_after_rows:
  assumes "job_tbl d' = rows_update Q f (job_tbl d)" and "\<And>r. jr_id (f r) = jr_id r"
    and "\<And>r. Q r \<Longrightarrow> jr_next_run_at (f r) = 0 \<or> P (f r) \<or> jr_next_run_at (f r) = jr_next_run_at r"
  shows "slots_after P d d'"
  unfolding slots_after_def
proof
  fix r' assume "r' \<in> set (job_tbl d')"
  then obtain r where r: "r \<in> set (job_tbl d)" "r' = (if Q r then f r else r)"
    unfolding assms(1) rows_update_def by auto
  show "jr_next_run_at r' = 0 \<or> P r' \<or> (\<exists>r \<in> set (job_tbl d). jr_id r = jr_id r' \<and> jr_next_run_at r = jr_next_run_at r')"
    using r assms(2) [of r] assms(3) [of r] by (cases "Q r") auto
qed

lemma slots_after_affected:
  assumes "affected (update_jobs Q f d) = (r, d')" and "\<And>r. jr_id (f r) = jr_id r"
    and "\<And>x. \<not> isl r \<Longrightarrow> Q x \<Longrightarrow> jr_next_run_at (f x) = 0 \<or> P (f x) \<or> jr_next_run_at (f x) = jr_next_run_at x"
  shows "slots_after P d d'"
proof (cases r)
  case (Inl e)
  with affected_update [OF assms(1)] show ?thesis by (simp add: slots_after_refl)
next
  case (Inr u)
  with affected_update [OF assms(1)] have "job_tbl d' = rows_update Q f (job_tbl d)" by auto
  from slots_after_rows [OF this assms(2,3)] Inr show ?thesis by simp
qed

lemma next_run_ms: "cron_later E \<Longrightarrow> NextRun E spec tz t = Inr nxt \<Longrightarrow> unix_milli t < ms nxt"
  using NextRun_later(3) [of E spec tz t nxt] NextRun_milli [of E spec tz t nxt] by (simp add: ms_def)

lemma prepared_slot:
  assumes "cron_later E" "svc_prepare E now j = Inr j'"
  shows "ms (j_NextRunAt j') = 0 \<or> unix_milli now < ms (j_NextRunAt j')"
proof -
  have z: "ms zero_time = 0" by (simp add: ms_def is_zero_def)
  from assms(2) next_run_ms [OF assms(1)] show ?thesis
    by (auto simp: svc_prepare_def Let_def z split: option.splits if_splits sum.splits)
qed

lemma updated_slot:
  assumes "cron_later E" "run_ok j" "svc_updated E now p paths j = Inr j'"
  shows "j_ID j' = j_ID j \<and> (ms (j_NextRunAt j') = 0 \<or> unix_milli now < ms (j_NextRunAt j'))"
proof -
  obtain k where k: "applyPatch E j p paths = Inr k"
    using assms(3) by (auto simp: svc_updated_def split: sum.splits)
  have "same_identity j k" by (rule applyPatch_identity [OF k])
  then have "j_ID (ApplyDefaults E k) = j_ID j" "j_NextRunAt (ApplyDefaults E k) = j_NextRunAt j"
    "j_State (ApplyDefaults E k) = j_State j"
    using assms(2) by (auto simp: same_identity_def ApplyDefaults_def run_ok_def sched_consts)
  then show ?thesis
    using assms(2,3) k next_run_ms [OF assms(1)]
    by (auto simp: svc_updated_def run_ok_def Let_def split: option.splits if_splits sum.splits)
qed

text \<open>What each operation of the service does to the runs.\<close>

lemma created_after:
  assumes "cron_later E" "svc_prepare E now j = Inr j'" "job_Create E wall j' d = (r, d')"
  shows "slots_after (\<lambda>x. \<not> isl r \<and> jr_id x = job_ResourceName (j_Project j') (j_Location j') (j_Name j')
      \<and> unix_milli now < jr_next_run_at x) d d'"
  using job_Create_effect [OF assms(3)] prepared_slot [OF assms(1,2)]
  by (cases r) (simp add: slots_after_refl, auto simp: slots_after_def job_insert_row_def job_stamped_def)

lemma updated_after:
  assumes "cron_later E" "job_row_ok E row" "svc_updated E now p paths (scanJob E row) = Inr j'"
    and "job_Update E wall j' d = (r, d')"
  shows "slots_after (\<lambda>x. \<not> isl r \<and> jr_id x = jr_id row \<and> unix_milli now < jr_next_run_at x) d d'"
  using assms(4) unfolding job_Update_def
  by (rule slots_after_affected)
    (use updated_slot [OF assms(1) run_ok_scanJob [OF assms(2)] assms(3)] in \<open>auto simp: job_update_row_def scanJob_def\<close>)

lemma resumed_after:
  assumes "cron_later E" "NextRun E spec tz now = Inr nxt" "job_SetState wall jid JobEnabled nxt d = (r, d')"
  shows "slots_after (\<lambda>x. \<not> isl r \<and> jr_id x = jid \<and> unix_milli now < jr_next_run_at x) d d'"
  using assms(3) unfolding job_SetState_def
  by (rule slots_after_affected) (simp_all add: next_run_ms [OF assms(1,2)])

lemma paused_after: "job_SetState wall jid JobPaused zero_time d = (r, d') \<Longrightarrow> slots_after (\<lambda>_. False) d d'"
  unfolding job_SetState_def by (erule slots_after_affected) (simp_all add: ms_def is_zero_def)

lemma recorded_after: "job_RecordAttempt jid att st code msg d = (u, d') \<Longrightarrow> slots_after (\<lambda>_. False) d d'"
  unfolding job_RecordAttempt_def by (drule jobs_updated, cases u) (simp add: slots_after_refl, auto elim!: slots_after_rows)

lemma deleted_after: "svc_Delete jid d = (u, d') \<Longrightarrow> slots_after (\<lambda>_. False) d d'"
  using job_Delete_effect [of jid d u d']
  by (cases u) (simp add: slots_after_refl svc_Delete_def, auto simp: svc_Delete_def slots_after_def rows_delete_def)

text \<open>
  The invariant: a run started for a job that no late write touched lies before the job's next run,
  whatever row now bears the job's name; so it cannot be claimed again.
\<close>

definition slot_inv :: "ext \<Rightarrow> slots \<Rightarrow> bool" where
  "slot_inv E s \<longleftrightarrow>
     wf_db (sl_db s) \<and> jobs_ok E (sl_db s) \<and> list_all (job_row_ok E) (sl_read s) \<and> 0 \<le> sl_clock s
   \<and> distinct (filter (\<lambda>f. fst f \<notin> sl_late s) (sl_fired s))
   \<and> (\<forall>jid v. (jid, v) \<in> set (sl_fired s) \<longrightarrow> v \<le> unix_milli (sl_clock s))
   \<and> (\<forall>jid v r. (jid, v) \<in> set (sl_fired s) \<longrightarrow> jid \<notin> sl_late s \<longrightarrow> r \<in> set (job_tbl (sl_db s)) \<longrightarrow> jr_id r = jid \<longrightarrow>
        jr_next_run_at r = 0 \<or> v < jr_next_run_at r)"

lemma distinct_filter_mono: "distinct (filter P xs) \<Longrightarrow> (\<And>x. Q x \<Longrightarrow> P x) \<Longrightarrow> distinct (filter Q xs)"
  by (induction xs) (auto split: if_splits)

lemma slot_inv_same:
  assumes "slot_inv E s" "job_safe E (sl_db s) d'" "slots_after (\<lambda>_. False) (sl_db s) d'"
  shows "slot_inv E (s\<lparr>sl_db := d'\<rparr>)"
  using assms by (force simp: slot_inv_def job_safe_def slots_after_def)

lemma slot_inv_written:
  assumes "slot_inv E s" "job_safe E (sl_db s) d'"
    and "slots_after (\<lambda>x. \<not> isl r \<and> jr_id x = jid \<and> unix_milli now < jr_next_run_at x) (sl_db s) d'"
  shows "slot_inv E (written s d' r jid now)"
proof -
  let ?s = "written s d' r jid now"
  have f: "sl_fired ?s = sl_fired s" "sl_db ?s = d'" "sl_clock ?s = sl_clock s" "sl_read ?s = sl_read s" "sl_late s \<subseteq> sl_late ?s"
    by (auto simp: written_def)
  have later: "jr_next_run_at x = 0 \<or> v < jr_next_run_at x"
    if h: "(jr_id x, v) \<in> set (sl_fired s)" "jr_id x \<notin> sl_late ?s" "x \<in> set (job_tbl d')" for v x
  proof -
    have "jr_id x \<notin> sl_late s" using h(2) f(5) by blast
    with assms(1) h(1) have old: "jr_next_run_at y = 0 \<or> v < jr_next_run_at y"
      if "y \<in> set (job_tbl (sl_db s))" "jr_id y = jr_id x" for y
      using that by (simp add: slot_inv_def)
    from assms(3) h(3) consider "jr_next_run_at x = 0" | "\<not> isl r" "jr_id x = jid" "unix_milli now < jr_next_run_at x"
      | y where "y \<in> set (job_tbl (sl_db s))" "jr_id y = jr_id x" "jr_next_run_at y = jr_next_run_at x"
      unfolding slots_after_def by blast
    then show ?thesis
    proof cases
      case 2
      with h(2) have "\<not> overtaken jid now (sl_fired s)" by (auto simp: written_def)
      with h(1) 2 show ?thesis by (auto simp: overtaken_def list_ex_iff)
    next
      case 3
      with old show ?thesis by metis
    qed simp
  qed
  then have later: "\<forall>i v x. (i, v) \<in> set (sl_fired s) \<longrightarrow> i \<notin> sl_late ?s \<longrightarrow> x \<in> set (job_tbl d') \<longrightarrow> jr_id x = i \<longrightarrow>
      jr_next_run_at x = 0 \<or> v < jr_next_run_at x" by simp
  have dist: "distinct (filter (\<lambda>x. fst x \<notin> sl_late ?s) (sl_fired s))"
  proof (rule distinct_filter_mono)
    show "distinct (filter (\<lambda>x. fst x \<notin> sl_late s) (sl_fired s))" using assms(1) by (simp add: slot_inv_def)
  qed (use f(5) in blast)
  from assms(1,2) have "wf_db d' \<and> jobs_ok E d' \<and> list_all (job_row_ok E) (sl_read s) \<and> 0 \<le> sl_clock s
      \<and> (\<forall>i v. (i, v) \<in> set (sl_fired s) \<longrightarrow> v \<le> unix_milli (sl_clock s))"
    by (simp add: slot_inv_def job_safe_def)
  with dist later show ?thesis unfolding slot_inv_def f(1-4) by (intro conjI) simp_all
qed

lemma slot_inv_claim:
  assumes "cron_later E" "slot_inv E s" "0 \<le> now" "now \<le> sl_clock s" "job_due now row"
    and "NextRun E (jr_schedule row) (jr_time_zone row) now = Inr nxt"
    and "job_Claim (jr_id row) (fromMs (jr_next_run_at row)) nxt (sl_db s) = (r, d')"
  shows "slot_inv E (s\<lparr>sl_db := d', sl_fired := (if r = Inr True then (jr_id row, jr_next_run_at row) # sl_fired s else sl_fired s)\<rparr>)"
proof -
  let ?v = "jr_next_run_at row" and ?d = "sl_db s"
  have safe: "job_safe E ?d d'" by (rule job_Claim_safe [OF assms(7) NextRun_ms_pos [OF assms(1,3,6)]])
  have v: "0 < ?v" "?v \<le> unix_milli now" using assms(5) by (simp_all add: job_due_def)
  have m: "unix_milli now \<le> unix_milli (sl_clock s)" using assms(4) by (simp add: unix_milli_def zdiv_mono1)
  have nx: "?v < ms nxt" using next_run_ms [OF assms(1,6)] v(2) by simp
  have c: "ms (fromMs ?v) = ?v" by (rule ms_fromMs [OF v(1)])
  show ?thesis
  proof (cases r)
    case (Inl e)
    with jobs_updated [OF assms(7) [unfolded job_Claim_def]] have "tables d' = tables ?d" by simp
    with Inl slot_inv_same [OF assms(2) safe slots_after_refl] show ?thesis by simp
  next
    case (Inr b)
    let ?P = "\<lambda>r. jr_id r = jr_id row \<and> jr_state r = JobEnabled \<and> jr_next_run_at r = ?v"
    define g :: "job_row \<Rightarrow> job_row" where "g = (\<lambda>r. if ?P r then r\<lparr>jr_next_run_at := ms nxt\<rparr> else r)"
    have u: "b = (rows_affected ?P (job_tbl ?d) = 1)" "job_tbl d' = map g (job_tbl ?d)"
      using jobs_updated [OF assms(7) [unfolded job_Claim_def]] Inr c by (simp_all add: rows_update_def g_def)
    have gid: "jr_id (g r) = jr_id r" for r by (simp add: g_def)
    have later: "jr_next_run_at (g r) = 0 \<or> w < jr_next_run_at (g r)"
      if "(jr_id r, w) \<in> set (sl_fired s)" "jr_id r \<notin> sl_late s" "r \<in> set (job_tbl ?d)" for w r
    proof -
      have "jr_next_run_at r = 0 \<or> w < jr_next_run_at r" using assms(2) that by (simp add: slot_inv_def)
      with nx v(1) show ?thesis by (cases "?P r") (auto simp: g_def)
    qed
    show ?thesis
    proof (cases b)
      case False
      with Inr safe assms(2) show ?thesis by (auto simp: slot_inv_def job_safe_def u(2) gid dest: later)
    next
      case True
      then have "filter ?P (job_tbl ?d) \<noteq> []" using u(1) by (auto simp: rows_affected_def)
      then obtain r0 where r0: "r0 \<in> set (job_tbl ?d)" "?P r0" by (auto simp: filter_empty_conv)
      have new: "(jr_id row, ?v) \<notin> set (sl_fired s)" if "jr_id row \<notin> sl_late s"
        using assms(2) r0 v that by (force simp: slot_inv_def)
      have own: "jr_next_run_at (g r) = 0 \<or> ?v < jr_next_run_at (g r)" if "r \<in> set (job_tbl ?d)" "jr_id r = jr_id row" for r
      proof -
        have "distinct (map jr_id (job_tbl ?d))" using assms(2) by (simp add: slot_inv_def wf_db_def)
        then have "r = r0" using that r0 by (simp add: distinct_map inj_on_def)
        with r0(2) nx show ?thesis by (simp add: g_def)
      qed
      from True Inr safe assms(2) new v(2) m show ?thesis
        by (auto simp: slot_inv_def job_safe_def u(2) gid dest: later own)
    qed
  qed
qed

lemma slot_step_inv:
  assumes "cron_later E" "slot_step E s s'" "slot_inv E s"
  shows "slot_inv E s'"
  using assms(2)
proof cases
  case (slot_clock t)
  then have "unix_milli (sl_clock s) \<le> unix_milli t" by (simp add: unix_milli_def zdiv_mono1)
  with assms(3) slot_clock show ?thesis by (force simp: slot_inv_def)
next
  case (slot_failures fs)
  with assms(3) show ?thesis by (simp add: slot_inv_def jobs_ok_def)
next
  case (slot_read row)
  with assms(3) show ?thesis by (auto simp: slot_inv_def jobs_ok_def list_all_iff)
next
  case (slot_create now j j' wall r d')
  show ?thesis unfolding slot_create(1)
    by (rule slot_inv_written [OF assms(3) job_Create_safe [OF slot_create(5)
        svc_prepare_ok(1,2) [OF assms(1) slot_create(2,4)]] created_after [OF assms(1) slot_create(4,5)]])
next
  case (slot_update now row p paths j' wall r d')
  have ok: "job_row_ok E row" using assms(3) slot_update(4) by (simp add: slot_inv_def list_all_iff)
  show ?thesis unfolding slot_update(1)
    by (rule slot_inv_written [OF assms(3) job_Update_safe [OF slot_update(6)
        svc_updated_ok(1,2) [OF assms(1) slot_update(2,5) run_ok_scanJob [OF ok]]] updated_after [OF assms(1) ok slot_update(5,6)]])
next
  case (slot_resume now row nxt wall r d')
  have "job_safe E (sl_db s) d'"
    by (rule job_SetState_safe [OF slot_resume(6)]) (use NextRun_ms_pos [OF assms(1) slot_resume(2,5)] in simp)
  from slot_inv_written [OF assms(3) this resumed_after [OF assms(1) slot_resume(5,6)]] slot_resume(1) show ?thesis by simp
next
  case (slot_pause wall jid r d')
  have "job_safe E (sl_db s) d'" by (rule job_SetState_safe [OF slot_pause(2)]) simp
  from slot_inv_same [OF assms(3) this paused_after [OF slot_pause(2)]] slot_pause(1) show ?thesis by simp
next
  case (slot_claim now row nxt r d')
  show ?thesis unfolding slot_claim(1) by (rule slot_inv_claim [OF assms(1,3) slot_claim(2,3,5,6,7)])
next
  case (slot_record jid att st code msg u d')
  show ?thesis unfolding slot_record(1)
    by (rule slot_inv_same [OF assms(3) job_RecordAttempt_safe [OF slot_record(2)] recorded_after [OF slot_record(2)]])
next
  case (slot_delete jid u d')
  show ?thesis unfolding slot_delete(1)
    by (rule slot_inv_same [OF assms(3) svc_Delete_safe [OF slot_delete(2)] deleted_after [OF slot_delete(2)]])
qed

lemma count_list_filter: "P x \<Longrightarrow> count_list (filter P xs) x = count_list xs x"
  by (induction xs) auto

lemma distinct_count_list: "distinct xs \<Longrightarrow> count_list xs x \<le> 1"
  by (induction xs) auto

lemma slot_inv_reached:
  assumes "cron_later E" "(slot_step E)\<^sup>*\<^sup>* s s'" "slot_inv E s"
  shows "slot_inv E s'"
  using assms(2,3)
proof (induction rule: rtranclp_induct)
  case (step s' s'')
  with slot_step_inv [OF assms(1)] show ?case by blast
qed

definition slots_init :: "db \<Rightarrow> time \<Rightarrow> slots" where
  "slots_init d t = \<lparr>sl_db = d, sl_clock = t, sl_read = [], sl_fired = [], sl_late = {}\<rparr>"

lemma slots_init_inv: "wf_db d \<Longrightarrow> jobs_ok E d \<Longrightarrow> 0 \<le> t \<Longrightarrow> slot_inv E (slots_init d t)"
  by (simp add: slot_inv_def slots_init_def)

text \<open>
  C15: the runner starts no run of a job twice and none before its time: over any sequence of ticks,
  requests, recorded attempts and failing statements, all acting on rows and clock readings that may
  be old, each pair of a job and a due time is started at most once, for every job that was not
  created, updated or resumed by a request that read the clock before, and wrote after, a run of that
  job was started. Deleting, recreating, pausing, resuming and rescheduling a job otherwise do not make
  it run again for a time it has run for. No run of any job starts before it is due.
\<close>

theorem runs_start_once:
  assumes "cron_later E" "wf_db d0" "jobs_ok E d0" "0 \<le> t0" "(slot_step E)\<^sup>*\<^sup>* (slots_init d0 t0) s"
  shows "(jid \<notin> sl_late s \<longrightarrow> count_list (sl_fired s) (jid, v) \<le> 1)
    \<and> ((jid, v) \<in> set (sl_fired s) \<longrightarrow> v \<le> unix_milli (sl_clock s))"
proof -
  have i: "slot_inv E s" by (rule slot_inv_reached [OF assms(1,5) slots_init_inv [OF assms(2-4)]])
  have "count_list (sl_fired s) (jid, v) \<le> 1" if "jid \<notin> sl_late s"
  proof -
    have "count_list (sl_fired s) (jid, v) = count_list (filter (\<lambda>f. fst f \<notin> sl_late s) (sl_fired s)) (jid, v)"
      by (rule count_list_filter [symmetric]) (simp add: that)
    also have "\<dots> \<le> 1" using i by (intro distinct_count_list) (simp add: slot_inv_def)
    finally show ?thesis .
  qed
  with i show ?thesis by (auto simp: slot_inv_def)
qed

text \<open>The job of the examples is due at two minutes past; the runner reads it and claims its run.\<close>

lemma demo_row:
  defines "row \<equiv> job_insert_row demo_ext (job_stamped Second demo_ready)"
  shows "jr_id row = ''projects/p/locations/l/jobs/j''" "jr_next_run_at row = 120000" "jr_state row = JobEnabled"
    "jr_schedule row = ''* * * * *''"
  unfolding row_def
  by (simp_all add: job_insert_row_def job_stamped_def demo_ready_fields job_ResourceName_def)
    (simp add: demo_ready_def ms_def is_zero_def zero_time_def unix_milli_def)

lemma demo_jobs_valid: "jobs_ok demo_ext demo_jobs"
  using job_insert_row_ok [OF svc_prepare_ok(1,2) [OF demo_cron_later _ demo_prepare], of Second]
  by (simp add: jobs_ok_def demo_jobs_def)

lemma demo_row_read:
  "slot_step demo_ext (slots_init demo_jobs t)
     ((slots_init demo_jobs t)\<lparr>sl_read := [job_insert_row demo_ext (job_stamped Second demo_ready)]\<rparr>)"
  using slot_read [of "job_insert_row demo_ext (job_stamped Second demo_ready)" "slots_init demo_jobs t" demo_ext]
  by (simp add: slots_init_def demo_jobs_def)

theorem runs_start_once_witness:
  "\<exists>s. (slot_step demo_ext)\<^sup>*\<^sup>* (slots_init demo_jobs (120 * Second)) s \<and> sl_late s = {}
     \<and> sl_fired s = [(''projects/p/locations/l/jobs/j'', 120000)]
     \<and> count_list (sl_fired s) (''projects/p/locations/l/jobs/j'', 120000) \<le> 1"
proof -
  let ?row = "job_insert_row demo_ext (job_stamped Second demo_ready)" and ?id = "''projects/p/locations/l/jobs/j''"
  let ?s0 = "(slots_init demo_jobs (120 * Second))\<lparr>sl_read := [?row]\<rparr>"
  have n: "NextRun demo_ext (jr_schedule ?row) (jr_time_zone ?row) (120 * Second) = Inr (180 * Second)"
    using demo_NextRun [of 120 "jr_time_zone ?row"] unfolding demo_row(4) by simp
  have due: "job_due (120 * Second) ?row" using demo_row by (simp add: job_due_def unix_milli_def)
  obtain r d where c: "job_Claim (jr_id ?row) (fromMs (jr_next_run_at ?row)) (180 * Second) demo_jobs = (r, d)"
    by (cases "job_Claim (jr_id ?row) (fromMs (jr_next_run_at ?row)) (180 * Second) demo_jobs")
  have ms: "ms (fromMs 120000) = 120000" by (rule ms_fromMs) simp
  have "find_job ?id demo_jobs = Some ?row" using demo_row(1) by (simp add: find_job_def demo_jobs_def)
  then have r: "r = Inr True"
    using c job_Claim_ok [OF demo_jobs_ok, of ?id "fromMs 120000" "180 * Second"] demo_row ms by (simp add: job_claim_free_def)
  have st: "slot_step demo_ext ?s0 (?s0\<lparr>sl_db := d, sl_fired := [(?id, 120000)]\<rparr>)"
    using slot_claim [OF _ _ _ due n, of ?s0 r d] c r demo_row(1,2) by (simp add: slots_init_def)
  have star: "(slot_step demo_ext)\<^sup>*\<^sup>* (slots_init demo_jobs (120 * Second)) (?s0\<lparr>sl_db := d, sl_fired := [(?id, 120000)]\<rparr>)"
  proof (rule converse_rtranclp_into_rtranclp)
    show "slot_step demo_ext (slots_init demo_jobs (120 * Second)) ?s0" by (rule demo_row_read)
    show "(slot_step demo_ext)\<^sup>*\<^sup>* ?s0 (?s0\<lparr>sl_db := d, sl_fired := [(?id, 120000)]\<rparr>)"
      by (rule r_into_rtranclp) (rule st)
  qed
  from runs_start_once [OF demo_cron_later db_okD(2) [OF demo_jobs_ok] demo_jobs_valid _ star, of ?id 120000] star
  show ?thesis by (intro exI [of _ "?s0\<lparr>sl_db := d, sl_fired := [(?id, 120000)]\<rparr>"]) (simp add: slots_init_def)
qed

text \<open>
  What a late write does. The claim and the write of a resume on a database without failures, seen
  through the row of the job.
\<close>

lemma claim_due:
  assumes "db_ok d" "find_job (jr_id row) d = Some row" "job_due now row"
  shows "\<exists>d'. job_Claim (jr_id row) (fromMs (jr_next_run_at row)) nxt d = (Inr True, d') \<and> db_ok d'
    \<and> find_job (jr_id row) d' = Some (row\<lparr>jr_next_run_at := ms nxt\<rparr>)"
proof -
  let ?P = "\<lambda>r. jr_id r = jr_id row \<and> jr_state r = JobEnabled \<and> jr_next_run_at r = jr_next_run_at row"
  let ?d = "d\<lparr>job_tbl := rows_update ?P (\<lambda>r. r\<lparr>jr_next_run_at := ms nxt\<rparr>) (job_tbl d)\<rparr>"
  have v: "ms (fromMs (jr_next_run_at row)) = jr_next_run_at row" using assms(3) by (intro ms_fromMs) (simp add: job_due_def)
  have "job_Claim (jr_id row) (fromMs (jr_next_run_at row)) nxt d = (Inr True, ?d)"
    using job_Claim_ok [OF assms(1)] assms(2,3) v by (simp add: job_claim_free_def job_due_def)
  moreover have "db_ok ?d" by (rule db_ok_jobs [OF assms(1)]) (simp add: map_rows_update)
  moreover have "find_job (jr_id row) ?d = Some (row\<lparr>jr_next_run_at := ms nxt\<rparr>)"
    using assms(2,3) by (simp add: find_job_def find_rows_update job_due_def)
  ultimately show ?thesis by blast
qed

lemma resume_writes:
  assumes "db_ok d" "find_job (jr_id row) d = Some row"
  shows "\<exists>d'. job_SetState wall (jr_id row) JobEnabled nxt d = (Inr (), d') \<and> db_ok d'
    \<and> find_job (jr_id row) d' = Some (row\<lparr>jr_state := JobEnabled, jr_next_run_at := ms nxt, jr_updated_at := unix_milli wall\<rparr>)"
proof -
  let ?f = "\<lambda>r. r\<lparr>jr_state := JobEnabled, jr_next_run_at := ms nxt, jr_updated_at := unix_milli wall\<rparr>"
  let ?d = "d\<lparr>job_tbl := rows_update (\<lambda>r. jr_id r = jr_id row) ?f (job_tbl d)\<rparr>"
  have "job_SetState wall (jr_id row) JobEnabled nxt d = (Inr (), ?d)"
    using assms by (simp add: job_SetState_def affected_def update_jobs_def db_ok_def rows_affected_key find_job_def)
  moreover have "db_ok ?d" by (rule db_ok_jobs [OF assms(1)]) (simp add: map_rows_update)
  moreover have "find_job (jr_id row) ?d = Some (?f row)" using assms(2) by (simp add: find_job_def find_rows_update)
  ultimately show ?thesis by blast
qed

lemma find_job_row: "find_job jid d = Some row \<Longrightarrow> row \<in> set (job_tbl d)"
  using find_key_Some [of jr_id jid "job_tbl d" row] by (simp add: find_job_def)

text \<open>
  C40: the condition of the previous property cannot be dropped. Take any job that is due now, on a
  database without failures, and a Resume that reads the job and the clock before the run is started
  and computes that very run as the next one. If the runner starts the run before the Resume writes,
  the write sets the run again, and the next tick, at the same time, starts it a second time.
\<close>

theorem late_resume_repeats:
  assumes "db_ok (sl_db s)" "find_job (jr_id row) (sl_db s) = Some row" "job_due (sl_clock s) row"
    and "0 \<le> early" "early \<le> sl_clock s"
    and "NextRun E (jr_schedule row) (jr_time_zone row) early = Inr (fromMs (jr_next_run_at row))"
    and "NextRun E (jr_schedule row) (jr_time_zone row) (sl_clock s) = Inr nxt"
  shows "\<exists>s'. (slot_step E)\<^sup>*\<^sup>* s s' \<and> sl_clock s' = sl_clock s
    \<and> sl_fired s' = (jr_id row, jr_next_run_at row) # (jr_id row, jr_next_run_at row) # sl_fired s"
proof -
  let ?t = "sl_clock s" and ?run = "(jr_id row, jr_next_run_at row)"
  have v: "ms (fromMs (jr_next_run_at row)) = jr_next_run_at row" using assms(3) by (intro ms_fromMs) (simp add: job_due_def)
  have t: "0 \<le> ?t" using assms(4,5) by simp
  obtain d1 where d1: "job_Claim (jr_id row) (fromMs (jr_next_run_at row)) nxt (sl_db s) = (Inr True, d1)" "db_ok d1"
      "find_job (jr_id row) d1 = Some (row\<lparr>jr_next_run_at := ms nxt\<rparr>)"
    using claim_due [OF assms(1-3)] by blast
  define row2 where "row2 = row\<lparr>jr_state := JobEnabled, jr_updated_at := unix_milli ?t\<rparr>"
  have r2: "jr_id row2 = jr_id row" "jr_next_run_at row2 = jr_next_run_at row" "jr_schedule row2 = jr_schedule row"
    "jr_time_zone row2 = jr_time_zone row" "job_due ?t row2"
    using assms(3) by (simp_all add: row2_def job_due_def)
  have "row\<lparr>jr_next_run_at := ms nxt, jr_state := JobEnabled, jr_next_run_at := jr_next_run_at row, jr_updated_at := unix_milli ?t\<rparr> = row2"
    by (simp add: row2_def)
  then obtain d2 where d2: "job_SetState ?t (jr_id row) JobEnabled (fromMs (jr_next_run_at row)) d1 = (Inr (), d2)" "db_ok d2"
      "find_job (jr_id row2) d2 = Some row2"
    using resume_writes [OF d1(2), of "row\<lparr>jr_next_run_at := ms nxt\<rparr>" ?t "fromMs (jr_next_run_at row)"] d1(3) r2(1) by (auto simp: v)
  obtain d3 where d3: "job_Claim (jr_id row2) (fromMs (jr_next_run_at row2)) nxt d2 = (Inr True, d3)"
    using claim_due [OF d2(2,3) r2(5)] by blast
  let ?s1 = "s\<lparr>sl_read := row # sl_read s\<rparr>"
  let ?s2 = "?s1\<lparr>sl_db := d1, sl_fired := ?run # sl_fired s\<rparr>"
  let ?s3 = "written ?s2 d2 (Inr () :: error + unit) (jr_id row) early"
  let ?s4 = "?s3\<lparr>sl_read := row2 # sl_read ?s3\<rparr>"
  let ?s5 = "?s4\<lparr>sl_db := d3, sl_fired := ?run # sl_fired ?s4\<rparr>"
  have "slot_step E s ?s1" by (rule slot_read) (rule find_job_row [OF assms(2)])
  moreover have "slot_step E ?s1 ?s2" using slot_claim [of ?t ?s1 row E nxt "Inr True" d1] t assms(3,7) d1(1) by simp
  moreover have "slot_step E ?s2 ?s3" using slot_resume [of early ?s2 row E _ ?t "Inr ()" d2] assms(4-6) d2(1) by simp
  moreover have "slot_step E ?s3 ?s4" by (rule slot_read) (use find_job_row [OF d2(3)] in \<open>simp add: written_def\<close>)
  moreover have "slot_step E ?s4 ?s5"
    using slot_claim [of ?t ?s4 row2 E nxt "Inr True" d3] t assms(7) r2 d3 by (simp add: written_def)
  ultimately have "(slot_step E)\<^sup>*\<^sup>* s ?s5" by (meson converse_rtranclp_into_rtranclp rtranclp.rtrancl_refl)
  then show ?thesis by (intro exI [of _ ?s5]) (simp add: written_def)
qed

text \<open>The clock stands at two minutes; the Resume has read it twenty seconds earlier.\<close>

theorem late_resume_repeats_witness:
  "\<exists>s. (slot_step demo_ext)\<^sup>*\<^sup>* (slots_init demo_jobs (120 * Second)) s
     \<and> count_list (sl_fired s) (''projects/p/locations/l/jobs/j'', 120000) = 2"
proof -
  let ?row = "job_insert_row demo_ext (job_stamped Second demo_ready)" and ?s = "slots_init demo_jobs (120 * Second)"
  have f: "find_job (jr_id ?row) (sl_db ?s) = Some ?row" by (simp add: slots_init_def demo_jobs_def find_job_def)
  have "fromMs 120000 = 120 * Second" by (simp add: fromMs_def)
  then have e: "NextRun demo_ext (jr_schedule ?row) (jr_time_zone ?row) (100 * Second) = Inr (fromMs (jr_next_run_at ?row))"
    using demo_NextRun [of 100 "jr_time_zone ?row"] demo_row by simp
  have n: "NextRun demo_ext (jr_schedule ?row) (jr_time_zone ?row) (sl_clock ?s) = Inr (180 * Second)"
    using demo_NextRun [of 120 "jr_time_zone ?row"] demo_row by (simp add: slots_init_def)
  have due: "job_due (sl_clock ?s) ?row" using demo_row by (simp add: job_due_def unix_milli_def slots_init_def)
  have "db_ok (sl_db ?s)" using demo_jobs_ok by (simp add: slots_init_def)
  from late_resume_repeats [OF this f due _ _ e n] obtain s' where
    "(slot_step demo_ext)\<^sup>*\<^sup>* ?s s'" "sl_fired s' = (jr_id ?row, jr_next_run_at ?row) # (jr_id ?row, jr_next_run_at ?row) # sl_fired ?s"
    by (auto simp: slots_init_def)
  then show ?thesis using demo_row(1,2) by (intro exI [of _ s']) (simp add: slots_init_def)
qed

text \<open>A tick is a sequence of such steps, and the executions it starts are the runs they claim.\<close>

definition run_of :: "Job \<times> time \<Rightarrow> string \<times> int" where
  "run_of f = (j_ID (fst f), ms (snd f))"

lemma scanJob_run:
  "j_ID (scanJob E r) = jr_id r" "j_Schedule (scanJob E r) = jr_schedule r" "j_TimeZone (scanJob E r) = jr_time_zone r"
  "j_NextRunAt (scanJob E r) = fromMs (jr_next_run_at r)"
  by (simp_all add: scanJob_def)

lemma slot_reads:
  "set rows \<subseteq> set (job_tbl (sl_db s)) \<Longrightarrow> (slot_step E)\<^sup>*\<^sup>* s (s\<lparr>sl_read := rev rows @ sl_read s\<rparr>)"
proof (induction rows arbitrary: s)
  case (Cons row rows)
  let ?s = "s\<lparr>sl_read := row # sl_read s\<rparr>"
  have "slot_step E s ?s" using Cons.prems by (intro slot_read) simp
  from converse_rtranclp_into_rtranclp [OF this Cons.IH [of ?s]] Cons.prems show ?case by simp
qed simp

lemma tick_jobs_slots:
  assumes "0 \<le> now" "now \<le> sl_clock s" "list_all (job_due now) rows" "set rows \<subseteq> set (sl_read s)"
  shows "(slot_step E)\<^sup>*\<^sup>* s
    (case tick_jobs E now wall (map (scanJob E) rows) (sl_db s) of
       (fs, d') \<Rightarrow> s\<lparr>sl_db := d', sl_fired := rev (map run_of fs) @ sl_fired s\<rparr>)"
  using assms(2-4)
proof (induction rows arbitrary: s)
  case (Cons row rows)
  let ?d = "sl_db s"
  have due: "job_due now row" and read: "row \<in> set (sl_read s)" using Cons.prems by simp_all
  have v: "ms (fromMs (jr_next_run_at row)) = jr_next_run_at row" using due by (intro ms_fromMs) (simp add: job_due_def)
  show ?case
  proof (cases "NextRun E (jr_schedule row) (jr_time_zone row) now")
    case (Inl e)
    obtain r d1 where s: "job_SetState wall (jr_id row) JobPaused zero_time ?d = (r, d1)"
      by (cases "job_SetState wall (jr_id row) JobPaused zero_time ?d")
    from converse_rtranclp_into_rtranclp [OF slot_pause [OF s] Cons.IH] Inl s Cons.prems
    show ?thesis by (simp add: scanJob_run)
  next
    case (Inr nxt)
    obtain r d1 where c: "job_Claim (jr_id row) (fromMs (jr_next_run_at row)) nxt ?d = (r, d1)"
      by (cases "job_Claim (jr_id row) (fromMs (jr_next_run_at row)) nxt ?d")
    let ?s = "s\<lparr>sl_db := d1, sl_fired := (if r = Inr True then (jr_id row, jr_next_run_at row) # sl_fired s else sl_fired s)\<rparr>"
    have st: "slot_step E s ?s" by (rule slot_claim [OF assms(1) Cons.prems(1) read due Inr c])
    have ih: "(slot_step E)\<^sup>*\<^sup>* ?s (case tick_jobs E now wall (map (scanJob E) rows) d1 of
       (fs, d') \<Rightarrow> ?s\<lparr>sl_db := d', sl_fired := rev (map run_of fs) @ sl_fired ?s\<rparr>)"
      using Cons.IH [of ?s] Cons.prems by simp
    obtain fs d2 where t: "tick_jobs E now wall (map (scanJob E) rows) d1 = (fs, d2)"
      by (cases "tick_jobs E now wall (map (scanJob E) rows) d1")
    have "run_of (scanJob E row, fromMs (jr_next_run_at row)) = (jr_id row, jr_next_run_at row)"
      by (simp add: run_of_def scanJob_run v)
    moreover have "tick_jobs E now wall (map (scanJob E) (row # rows)) ?d
        = ((if r = Inr True then (scanJob E row, fromMs (jr_next_run_at row)) # fs else fs), d2)"
      using Inr c t by (cases r) (auto simp: scanJob_run split: bool.splits)
    ultimately show ?thesis using converse_rtranclp_into_rtranclp [OF st ih] t by (cases "r = Inr True") simp_all
  qed
qed simp

lemma Tick_slots:
  assumes "0 \<le> now" "now \<le> sl_clock s"
  shows "\<exists>rows. (slot_step E)\<^sup>*\<^sup>* s
    (case Tick E now wall (sl_db s) of
       (fs, d') \<Rightarrow> s\<lparr>sl_read := rows @ sl_read s, sl_db := d', sl_fired := rev (map run_of fs) @ sl_fired s\<rparr>)"
proof -
  obtain r d1 where q: "job_ListDue E now (sl_db s) = (r, d1)" by (cases "job_ListDue E now (sl_db s)")
  let ?due = "sort_key jr_next_run_at (filter (job_due now) (job_tbl (sl_db s)))"
  have e: "tables d1 = tables (sl_db s) \<and> (case r of Inl _ \<Rightarrow> True | Inr js \<Rightarrow> js = map (scanJob E) ?due)"
    by (rule job_query_effect [OF q [unfolded job_ListDue_def]]) simp
  then have d1: "d1 = (sl_db s)\<lparr>faults := faults d1\<rparr>" by (simp add: tables_eq_iff)
  let ?s1 = "s\<lparr>sl_db := d1\<rparr>"
  have st: "slot_step E s ?s1" using slot_failures [of E s "faults d1"] d1 by simp
  show ?thesis
  proof (cases r)
    case (Inl e)
    have "(slot_step E)\<^sup>*\<^sup>* s ?s1" by (rule r_into_rtranclp) (rule st)
    with Inl q show ?thesis by (intro exI [of _ "[]"]) (simp add: Tick_def)
  next
    case (Inr js)
    let ?s2 = "?s1\<lparr>sl_read := rev ?due @ sl_read s\<rparr>"
    have "set ?due \<subseteq> set (job_tbl (sl_db ?s1))" using e by (auto simp: tables_eq_iff)
    from slot_reads [OF this, of E] have rd: "(slot_step E)\<^sup>*\<^sup>* ?s1 ?s2" by simp
    have "(slot_step E)\<^sup>*\<^sup>* ?s2 (case tick_jobs E now wall (map (scanJob E) ?due) (sl_db ?s2) of
       (fs, d') \<Rightarrow> ?s2\<lparr>sl_db := d', sl_fired := rev (map run_of fs) @ sl_fired ?s2\<rparr>)"
      using assms by (intro tick_jobs_slots) (simp_all add: list_all_iff)
    moreover obtain fs d2 where t: "tick_jobs E now wall (map (scanJob E) ?due) d1 = (fs, d2)"
      by (cases "tick_jobs E now wall (map (scanJob E) ?due) d1")
    ultimately have "(slot_step E)\<^sup>*\<^sup>* ?s2 (?s2\<lparr>sl_db := d2, sl_fired := rev (map run_of fs) @ sl_fired s\<rparr>)" by simp
    from rtranclp_trans [OF converse_rtranclp_into_rtranclp [OF st rd] this]
    have "(slot_step E)\<^sup>*\<^sup>* s (s\<lparr>sl_read := rev ?due @ sl_read s, sl_db := d2, sl_fired := rev (map run_of fs) @ sl_fired s\<rparr>)"
      by simp
    with Inr e q t show ?thesis by (intro exI [of _ "rev ?due"]) (simp add: Tick_def)
  qed
qed

section \<open>One service for everybody\<close>

text \<open>
  \<^verbatim>\<open>sync.Map.LoadOrStore\<close>: the value under the key, which is the new one when there was none.
\<close>

definition load_or_store :: "'k \<Rightarrow> 'v \<Rightarrow> ('k \<rightharpoonup> 'v) \<Rightarrow> 'v \<times> ('k \<rightharpoonup> 'v)" where
  "load_or_store k v m = (case m k of Some w \<Rightarrow> (w, m) | None \<Rightarrow> (v, m(k \<mapsto> v)))"

text \<open>
  Any number of goroutines call \<^verbatim>\<open>ForDB\<close> and then \<^verbatim>\<open>Fire\<close> on the dispatcher of the service they got.
  A service is named by the address of its allocation. \<open>sv_made\<close> are the callers that found no entry
  and are between their \<^verbatim>\<open>Load\<close> and their \<^verbatim>\<open>LoadOrStore\<close>, with the service they made;
  \<open>sv_handles\<close> the services handed out; \<open>sv_running\<close> the guard of each service's dispatcher;
  \<open>sv_inside\<close> the executions inside, with the connection, the service and the job.
\<close>

record 'c shared =
  sv_services :: "'c \<rightharpoonup> nat"
  sv_next :: nat
  sv_made :: "('c \<times> nat) list"
  sv_handles :: "('c \<times> nat) list"
  sv_running :: "nat \<Rightarrow> string set"
  sv_inside :: "('c \<times> nat \<times> string) list"

inductive share_step :: "'c shared \<Rightarrow> 'c shared \<Rightarrow> bool" where
  ForDB_hit: "sv_services s c = Some v \<Longrightarrow> share_step s (s\<lparr>sv_handles := (c, v) # sv_handles s\<rparr>)"
| ForDB_miss: "sv_services s c = None \<Longrightarrow>
    share_step s (s\<lparr>sv_made := (c, sv_next s) # sv_made s, sv_next := Suc (sv_next s)\<rparr>)"
| ForDB_store: "sv_made s = xs @ (c, new) # ys \<Longrightarrow> load_or_store c new (sv_services s) = (v, m) \<Longrightarrow>
    share_step s (s\<lparr>sv_services := m, sv_made := xs @ ys, sv_handles := (c, v) # sv_handles s\<rparr>)"
| Fire_enter: "(c, v) \<in> set (sv_handles s) \<Longrightarrow> acquire jid (sv_running s v) = (True, g) \<Longrightarrow>
    share_step s (s\<lparr>sv_running := (sv_running s)(v := g), sv_inside := (c, v, jid) # sv_inside s\<rparr>)"
| Fire_skip: "(c, v) \<in> set (sv_handles s) \<Longrightarrow> acquire jid (sv_running s v) = (False, g) \<Longrightarrow>
    share_step s (s\<lparr>sv_running := (sv_running s)(v := g)\<rparr>)"
| Fire_leave: "sv_inside s = xs @ (c, v, jid) # ys \<Longrightarrow>
    share_step s (s\<lparr>sv_running := (sv_running s)(v := release jid (sv_running s v)), sv_inside := xs @ ys\<rparr>)"

definition shared_init :: "'c shared" where
  "shared_init = \<lparr>sv_services = Map.empty, sv_next = 0, sv_made = [], sv_handles = [], sv_running = (\<lambda>_. {}), sv_inside = []\<rparr>"

text \<open>Handed-out services are the registered ones, and each guard holds exactly the jobs inside.\<close>

definition shared_inv :: "'c shared \<Rightarrow> bool" where
  "shared_inv s \<longleftrightarrow>
     (\<forall>c v. (c, v) \<in> set (sv_handles s) \<longrightarrow> sv_services s c = Some v)
   \<and> (\<forall>c v jid. (c, v, jid) \<in> set (sv_inside s) \<longrightarrow> sv_services s c = Some v \<and> jid \<in> sv_running s v)
   \<and> distinct (map snd (sv_inside s))"

lemma shared_step_inv:
  assumes "share_step s s'" "shared_inv s"
  shows "shared_inv s'"
  using assms
proof cases
  case (ForDB_store xs c new ys v m)
  then have "m c = Some v" "\<And>c' w. sv_services s c' = Some w \<Longrightarrow> m c' = Some w"
    by (auto simp: load_or_store_def split: option.splits)
  with assms(2) ForDB_store show ?thesis by (auto simp: shared_inv_def)
next
  case (Fire_enter c v jid g)
  then have g: "g = insert jid (sv_running s v)" "jid \<notin> sv_running s v" using dispatcher_guard.entered by simp_all
  have "(v, jid) \<notin> set (map snd (sv_inside s))" using assms(2) g(2) by (auto simp: shared_inv_def)
  with assms(2) Fire_enter g(1) show ?thesis by (auto simp: shared_inv_def)
next
  case (Fire_skip c v jid g)
  then have "g = sv_running s v" using dispatcher_guard.refused by simp
  with assms(2) Fire_skip show ?thesis by (simp add: shared_inv_def)
next
  case (Fire_leave xs c v jid ys)
  then have n: "(v, jid) \<notin> set (map snd (xs @ ys))" using assms(2) by (auto simp: shared_inv_def)
  then have "(c', v', jid') \<in> set (xs @ ys) \<Longrightarrow> v' = v \<Longrightarrow> jid' \<noteq> jid" for c' v' jid' by force
  with assms(2) Fire_leave show ?thesis by (auto simp: shared_inv_def dispatcher_guard.leave_held)
qed (auto simp: shared_inv_def)

text \<open>
  C14: at most one execution of a job runs at a time, whoever starts it: however many goroutines get
  their service with ForDB, at whatever moments, and fire jobs on it, those with the same connection
  hold the same service, and no two executions inside are for the same job of the same connection.
\<close>

theorem executions_exclusive:
  assumes "share_step\<^sup>*\<^sup>* shared_init s"
  shows "distinct (map (\<lambda>(c, v, jid). (c, jid)) (sv_inside s))
    \<and> (\<forall>c v v'. (c, v) \<in> set (sv_handles s) \<and> (c, v') \<in> set (sv_handles s) \<longrightarrow> v = v')"
proof -
  have i: "shared_inv s"
    using assms
  proof (induction rule: rtranclp_induct)
    case base
    show ?case by (simp add: shared_inv_def shared_init_def)
  next
    case (step s s')
    then show ?case using shared_step_inv by blast
  qed
  have "inj_on (\<lambda>(c, v, jid). (c, jid)) (set (sv_inside s))"
  proof (rule inj_onI)
    fix x y assume xy: "x \<in> set (sv_inside s)" "y \<in> set (sv_inside s)"
      "(\<lambda>(c, v, jid). (c, jid)) x = (\<lambda>(c, v, jid). (c, jid)) y"
    obtain c v jid c' v' jid' where e: "x = (c, v, jid)" "y = (c', v', jid')" by (cases x; cases y) auto
    with i xy have "sv_services s c = Some v" "sv_services s c' = Some v'" unfolding shared_inv_def by blast+
    with xy(3) e show "x = y" by simp
  qed
  moreover have "distinct (sv_inside s)" using i by (auto simp: shared_inv_def distinct_map)
  ultimately have "distinct (map (\<lambda>(c, v, jid). (c, jid)) (sv_inside s))" by (simp add: distinct_map)
  moreover have "v = v'" if "(c, v) \<in> set (sv_handles s)" "(c, v') \<in> set (sv_handles s)" for c v v'
  proof -
    have "sv_services s c = Some v" "sv_services s c = Some v'" using i that unfolding shared_inv_def by blast+
    then show ?thesis by simp
  qed
  ultimately show ?thesis by blast
qed

text \<open>Two goroutines miss at the same time; both end up with the service of the first to store.\<close>

theorem executions_exclusive_witness:
  "\<exists>s. share_step\<^sup>*\<^sup>* shared_init s \<and> sv_handles s = [(''db'', 0), (''db'', 0)] \<and> sv_inside s = [(''db'', 0, ''j'')]
     \<and> distinct (map (\<lambda>(c, v, jid). (c, jid)) (sv_inside s))"
proof -
  let ?a = "(shared_init :: string shared)\<lparr>sv_made := [(''db'', 0)], sv_next := 1\<rparr>"
  let ?b = "?a\<lparr>sv_made := [(''db'', 1), (''db'', 0)], sv_next := 2\<rparr>"
  let ?c = "?b\<lparr>sv_services := [''db'' \<mapsto> 0], sv_made := [(''db'', 1)], sv_handles := [(''db'', 0)]\<rparr>"
  let ?d = "?c\<lparr>sv_made := [], sv_handles := [(''db'', 0), (''db'', 0)]\<rparr>"
  let ?e = "?d\<lparr>sv_running := (\<lambda>_. {})(0 := {''j''}), sv_inside := [(''db'', 0, ''j'')]\<rparr>"
  have "share_step shared_init ?a" using ForDB_miss [of shared_init "''db''"] by (simp add: shared_init_def)
  moreover have "share_step ?a ?b" using ForDB_miss [of ?a "''db''"] by (simp add: shared_init_def numeral_2_eq_2)
  moreover have "share_step ?b ?c"
    using ForDB_store [of ?b "[(''db'', 1)]" "''db''" 0 "[]" 0 "[''db'' \<mapsto> 0]"] by (simp add: shared_init_def load_or_store_def)
  moreover have "share_step ?c ?d"
    using ForDB_store [of ?c "[]" "''db''" 1 "[]" 0 "[''db'' \<mapsto> 0]"] by (simp add: shared_init_def load_or_store_def)
  moreover have "share_step ?d ?e"
    using Fire_enter [of "''db''" 0 ?d "''j''" "{''j''}"] by (simp add: shared_init_def acquire_def)
  ultimately have "share_step\<^sup>*\<^sup>* shared_init ?e" by (meson converse_rtranclp_into_rtranclp rtranclp.rtrancl_refl)
  from this executions_exclusive [OF this] show ?thesis by (intro exI [of _ ?e]) simp
qed

end
