(* ===== verification/Db_Schema.thy ===== *)
theory Db_Schema
  imports Database
begin

text \<open>
  db/db.go: opening the database and bringing its schema up to date. A schema is what the
  migrations look at: the tables with their columns in order, and the names of the indexes. The
  column types and defaults do not matter to a migration and are left to the rows of
  \<^verbatim>\<open>Database\<close>. Shown: the migrations can be run any number of times and resumed after any failure.
\<close>

record schema =
  sc_tables :: "string \<rightharpoonup> string list"
  sc_indexes :: "string set"

datatype migration =
    CreateTable string "string list"
  | CreateIndex string string
  | AddColumn string string

text \<open>The data source name: the options are appended to whatever the path has.\<close>

definition dsn :: "string \<Rightarrow> string" where
  "dsn path =
     path @ (if go_contains path ''?'' then ''&'' else ''?'') @ ''_journal_mode=WAL&_busy_timeout=5000''"

definition queue_columns :: "string list" where
  "queue_columns = [''id'', ''project'', ''location'', ''name'', ''rate_limit'', ''max_concurrent_dispatches'', ''created_at'']"

definition task_columns :: "string list" where
  "task_columns = [''id'', ''queue_id'', ''http_method'', ''url'', ''headers'', ''body'', ''schedule_time'',
     ''dispatch_deadline'', ''status'', ''retry_count'', ''max_retries'', ''next_attempt_at'', ''last_error'', ''created_at'']"

definition job_columns :: "string list" where
  "job_columns = [''id'', ''project'', ''location'', ''name'', ''description'', ''schedule'', ''time_zone'', ''http_method'',
     ''url'', ''headers'', ''body'', ''state'', ''attempt_deadline_ms'', ''retry_count'', ''min_backoff_ms'', ''max_backoff_ms'',
     ''max_doublings'', ''max_retry_duration_ms'', ''next_run_at'', ''last_attempt_at'', ''last_status'', ''last_status_code'',
     ''last_error'', ''created_at'', ''updated_at'']"

definition migrations :: "migration list" where
  "migrations =
     [CreateTable ''queues'' queue_columns,
      CreateIndex ''idx_queues_project_location'' ''queues'',
      CreateTable ''tasks'' task_columns,
      CreateIndex ''idx_tasks_queue_status'' ''tasks'',
      CreateIndex ''idx_tasks_next_attempt'' ''tasks'',
      CreateIndex ''idx_tasks_status_next'' ''tasks'',
      CreateTable ''jobs'' job_columns,
      CreateIndex ''idx_jobs_project_location'' ''jobs'',
      CreateIndex ''idx_jobs_due'' ''jobs'',
      AddColumn ''queues'' ''state'']"

text \<open>What SQLite does with a statement, \<^verbatim>\<open>IF NOT EXISTS\<close> included, or its error text.\<close>

fun run_ddl :: "migration \<Rightarrow> schema \<Rightarrow> string + schema" where
  "run_ddl (CreateTable t cols) s =
     (case sc_tables s t of None \<Rightarrow> Inr (s\<lparr>sc_tables := (sc_tables s)(t \<mapsto> cols)\<rparr>) | Some _ \<Rightarrow> Inr s)"
| "run_ddl (CreateIndex i t) s =
     (case sc_tables s t of
        None \<Rightarrow> Inl (''no such table: main.'' @ t)
      | Some _ \<Rightarrow> Inr (s\<lparr>sc_indexes := insert i (sc_indexes s)\<rparr>))"
| "run_ddl (AddColumn t c) s =
     (case sc_tables s t of
        None \<Rightarrow> Inl (''no such table: '' @ t)
      | Some cols \<Rightarrow>
          if c \<in> set cols then Inl (''duplicate column name: '' @ c)
          else Inr (s\<lparr>sc_tables := (sc_tables s)(t \<mapsto> cols @ [c])\<rparr>))"

text \<open>
  The loop. The script says which statements fail and with what text, as for the statements of
  \<^verbatim>\<open>Database\<close>; after its end none does.
\<close>

definition next_fault :: "string option list \<Rightarrow> string option" where
  "next_fault fs = (case fs of [] \<Rightarrow> None | f # _ \<Rightarrow> f)"

fun migrate :: "migration list \<Rightarrow> string option list \<Rightarrow> schema \<Rightarrow> (string + unit) \<times> schema" where
  "migrate [] fs s = (Inr (), s)"
| "migrate (m # ms) fs s =
     (case (case next_fault fs of Some err \<Rightarrow> Inl err | None \<Rightarrow> run_ddl m s) of
        Inl err \<Rightarrow>
          if go_contains err ''duplicate column name'' then migrate ms (tl fs) s else (Inl err, s)
      | Inr s \<Rightarrow> migrate ms (tl fs) s)"

section \<open>Resuming\<close>

text \<open>The schemas a database can have on the way, and the one at the end.\<close>

definition partial_schema :: "schema \<Rightarrow> bool" where
  "partial_schema s \<longleftrightarrow>
     (\<forall>t cols. sc_tables s t = Some cols \<longrightarrow> CreateTable t cols \<in> set migrations
        \<or> (\<exists>base c. CreateTable t base \<in> set migrations \<and> AddColumn t c \<in> set migrations \<and> cols = base @ [c]))
   \<and> (\<forall>i \<in> sc_indexes s. \<exists>t. CreateIndex i t \<in> set migrations)"

definition empty_schema :: schema where
  "empty_schema = \<lparr>sc_tables = Map.empty, sc_indexes = {}\<rparr>"

definition full_tables :: "string \<rightharpoonup> string list" where
  "full_tables = [''queues'' \<mapsto> queue_columns @ [''state''], ''tasks'' \<mapsto> task_columns, ''jobs'' \<mapsto> job_columns]"

definition full_schema :: schema where
  "full_schema = \<lparr>sc_tables = full_tables, sc_indexes = {i. \<exists>t. CreateIndex i t \<in> set migrations}\<rparr>"

lemma go_contains_prefix: "has_prefix s p \<Longrightarrow> go_contains s p"
  by (cases s) (auto simp: has_prefix_def)

lemma dup_text: "go_contains (''duplicate column name: '' @ c) ''duplicate column name''"
proof (rule go_contains_prefix)
  have "''duplicate column name: '' @ c = ''duplicate column name'' @ '': '' @ c" by simp
  then show "has_prefix (''duplicate column name: '' @ c) ''duplicate column name''" unfolding has_prefix_iff by blast
qed

lemma in_migrations:
  "CreateTable t cols \<in> set migrations \<longleftrightarrow>
     t = ''queues'' \<and> cols = queue_columns \<or> t = ''tasks'' \<and> cols = task_columns \<or> t = ''jobs'' \<and> cols = job_columns"
  "AddColumn t c \<in> set migrations \<longleftrightarrow> t = ''queues'' \<and> c = ''state''"
  by (auto simp: migrations_def)

lemma all_indexes:
  "{i. \<exists>t. CreateIndex i t \<in> set migrations} = {''idx_queues_project_location'', ''idx_tasks_queue_status'', ''idx_tasks_next_attempt'',
     ''idx_tasks_status_next'', ''idx_jobs_project_location'', ''idx_jobs_due''}"
  by (rule set_eqI) (simp add: migrations_def ex_disj_distrib)

lemma schema_update: "s\<lparr>sc_tables := a, sc_indexes := b\<rparr> = \<lparr>sc_tables = a, sc_indexes = b\<rparr>" for s :: schema
  by (cases s) simp

lemma run_ddl_partial:
  assumes "m \<in> set migrations" "partial_schema s" "run_ddl m s = Inr s'"
  shows "partial_schema s'"
proof (cases m)
  case (CreateTable t cols)
  show ?thesis
  proof (cases "sc_tables s t")
    case None
    with assms(1,2) assms(3) [symmetric] CreateTable show ?thesis by (simp add: partial_schema_def)
  next
    case (Some cols')
    with assms(2,3) CreateTable show ?thesis by simp
  qed
next
  case (CreateIndex i t)
  then obtain cols where "sc_tables s t = Some cols" using assms(3) by (cases "sc_tables s t") auto
  with assms(1,2) assms(3) [symmetric] CreateIndex show ?thesis by (auto simp: partial_schema_def)
next
  case (AddColumn t c)
  then obtain cols where c: "sc_tables s t = Some cols" "c \<notin> set cols" "s' = s\<lparr>sc_tables := (sc_tables s)(t \<mapsto> cols @ [c])\<rparr>"
    using assms(3) by (cases "sc_tables s t") (auto split: if_splits)
  have a: "AddColumn t c \<in> set migrations" using assms(1) AddColumn by simp
  then have u: "c' = c" if "AddColumn t c' \<in> set migrations" for c' using that by (simp only: in_migrations)
  have p: "CreateTable t cols \<in> set migrations
        \<or> (\<exists>base c. CreateTable t base \<in> set migrations \<and> AddColumn t c \<in> set migrations \<and> cols = base @ [c])"
    using assms(2) c(1) unfolding partial_schema_def by blast
  have "CreateTable t cols \<in> set migrations"
  proof (rule ccontr)
    assume "CreateTable t cols \<notin> set migrations"
    with p obtain base c' where "AddColumn t c' \<in> set migrations" "cols = base @ [c']" by blast
    with u have "cols = base @ [c]" by blast
    with c(2) show False by simp
  qed
  with a assms(2) c(3) show ?thesis by (simp add: partial_schema_def)
qed

lemma migrate_partial:
  "set ms \<subseteq> set migrations \<Longrightarrow> partial_schema s \<Longrightarrow> partial_schema (snd (migrate ms fs s))"
proof (induction ms arbitrary: fs s)
  case (Cons m ms)
  have ms: "set ms \<subseteq> set migrations" "m \<in> set migrations" using Cons.prems(1) by simp_all
  show ?case
  proof (cases "case next_fault fs of Some err \<Rightarrow> Inl err | None \<Rightarrow> run_ddl m s")
    case (Inl err)
    then show ?thesis using Cons.IH [OF ms(1) Cons.prems(2)] Cons.prems(2) by simp
  next
    case (Inr s')
    then have "run_ddl m s = Inr s'" by (cases "next_fault fs") simp_all
    from run_ddl_partial [OF ms(2) Cons.prems(2) this] Inr show ?thesis using Cons.IH [OF ms(1)] by simp
  qed
qed simp

lemma partial_empty: "partial_schema empty_schema"
  by (simp add: partial_schema_def empty_schema_def)

text \<open>The columns of a table after all migrations, from what they were before.\<close>

lemma no_fault [simp]: "next_fault [] = None"
  by (simp add: next_fault_def)

lemma migrate_Nil_faults:
  "migrate (m # ms) [] s = (case run_ddl m s of
     Inl err \<Rightarrow> if go_contains err ''duplicate column name'' then migrate ms [] s else (Inl err, s)
   | Inr s \<Rightarrow> migrate ms [] s)"
  by (cases "run_ddl m s") simp_all

lemma migrate_CreateTable:
  "migrate (CreateTable t cols # ms) [] s
    = migrate ms [] (s\<lparr>sc_tables := (sc_tables s)(t \<mapsto> case sc_tables s t of None \<Rightarrow> cols | Some cs \<Rightarrow> cs)\<rparr>)"
  by (cases "sc_tables s t") (auto simp: fun_upd_idem)

lemma migrate_CreateIndex:
  "sc_tables s t \<noteq> None \<Longrightarrow> migrate (CreateIndex i t # ms) [] s = migrate ms [] (s\<lparr>sc_indexes := insert i (sc_indexes s)\<rparr>)"
  by (cases "sc_tables s t") auto

lemma migrate_AddColumn:
  assumes "sc_tables s t = Some cs"
  shows "migrate (AddColumn t c # ms) [] s
    = migrate ms [] (s\<lparr>sc_tables := (sc_tables s)(t \<mapsto> if c \<in> set cs then cs else cs @ [c])\<rparr>)"
proof (cases "c \<in> set cs")
  case True
  then have "run_ddl (AddColumn t c) s = Inl (''duplicate column name: '' @ c)" using assms by simp
  then have "migrate (AddColumn t c # ms) [] s = migrate ms [] s"
    unfolding migrate_Nil_faults by (simp only: sum.case dup_text if_True)
  with True assms show ?thesis by (simp add: fun_upd_idem)
qed (simp add: assms)

lemma migrate_full:
  assumes "partial_schema s"
  shows "migrate migrations [] s = (Inr (), full_schema)"
proof -
  let ?q = "case sc_tables s ''queues'' of None \<Rightarrow> queue_columns | Some cs \<Rightarrow> cs"
    and ?t = "case sc_tables s ''tasks'' of None \<Rightarrow> task_columns | Some cs \<Rightarrow> cs"
    and ?j = "case sc_tables s ''jobs'' of None \<Rightarrow> job_columns | Some cs \<Rightarrow> cs"
  have d: "sc_tables s t = None" if "t \<noteq> ''queues''" "t \<noteq> ''tasks''" "t \<noteq> ''jobs''" for t
    using assms that by (cases "sc_tables s t") (auto simp: partial_schema_def in_migrations)
  have t: "?t = task_columns" and j: "?j = job_columns" and q: "?q = queue_columns \<or> ?q = queue_columns @ [''state'']"
    using assms by (auto simp: partial_schema_def in_migrations split: option.splits)
  have n: "''state'' \<notin> set queue_columns" by (simp add: queue_columns_def)
  let ?s = "s\<lparr>
      sc_tables := (sc_tables s)(''queues'' \<mapsto> if ''state'' \<in> set ?q then ?q else ?q @ [''state''], ''tasks'' \<mapsto> ?t, ''jobs'' \<mapsto> ?j),
      sc_indexes := {''idx_jobs_due'', ''idx_jobs_project_location'', ''idx_tasks_status_next'', ''idx_tasks_next_attempt'',
        ''idx_tasks_queue_status'', ''idx_queues_project_location''} \<union> sc_indexes s\<rparr>"
  have m: "migrate migrations [] s = (Inr (), ?s)"
    unfolding migrations_def by (simp add: migrate_CreateTable migrate_CreateIndex migrate_AddColumn fun_upd_twist del: migrate.simps(2))
  have f: "sc_tables ?s = full_tables"
  proof (rule ext)
    fix x
    show "sc_tables ?s x = full_tables x"
      using q n d [of x] unfolding t j full_tables_def by auto
  qed
  let ?i = "{''idx_jobs_due'', ''idx_jobs_project_location'', ''idx_tasks_status_next'', ''idx_tasks_next_attempt'',
        ''idx_tasks_queue_status'', ''idx_queues_project_location''}"
  have all: "{i. \<exists>t. CreateIndex i t \<in> set migrations} = ?i" unfolding all_indexes by (simp add: insert_commute)
  have "sc_indexes s \<subseteq> {i. \<exists>t. CreateIndex i t \<in> set migrations}" using assms by (auto simp: partial_schema_def)
  then have "?i \<union> sc_indexes s = ?i" unfolding all by (rule Un_absorb2)
  then have i: "sc_indexes ?s = {i. \<exists>t. CreateIndex i t \<in> set migrations}" unfolding all schema_update by (simp only: schema.select_convs)
  have "?s = full_schema" unfolding full_schema_def by (rule schema.equality) (simp_all only: f i schema.select_convs, simp)
  with m show ?thesis by (simp only:)
qed

text \<open>
  C13: opening the database is idempotent and can be resumed: whatever statements of the migrations
  fail, and at whatever earlier version of the schema the database is, the next run without
  failures succeeds and leaves the full schema; a further run changes nothing.
\<close>

theorem migrate_resumes:
  assumes "partial_schema s"
  shows "migrate migrations [] (snd (migrate migrations fs s)) = (Inr (), full_schema)
    \<and> migrate migrations [] full_schema = (Inr (), full_schema)"
proof -
  have p: "partial_schema (snd (migrate migrations fs s))" by (rule migrate_partial [OF subset_refl assms])
  have "snd (migrate migrations [] s) = full_schema" using migrate_full [OF assms] by simp
  then have "partial_schema full_schema" using migrate_partial [OF subset_refl assms, of "[]"] by simp
  from migrate_full [OF p] migrate_full [OF this] show ?thesis ..
qed

theorem migrate_resumes_witness:
  "migrate migrations [] (snd (migrate migrations [None, None, Some ''disk I/O error''] empty_schema)) = (Inr (), full_schema)"
  using migrate_resumes [OF partial_empty] by blast

end
