(* ===== verification/Process.thy ===== *)
theory Process
  imports Sched_Shared Worker_Props Db_Schema
begin

text \<open>
  The process: the loops of the worker and of the runner (the \<^verbatim>\<open>Run\<close> methods of worker/worker.go and
  scheduler/runner.go), opening the database (db/db.go) and \<^verbatim>\<open>main\<close> (cmd/server/main.go) from the
  settings to the end of the shutdown. What the select statement of a loop takes next is a list of
  events; between two of them the rest of the process changes the state.
\<close>

section \<open>The loops\<close>

datatype ('e, 's) loop_event = Ticked 'e | Meanwhile "'s \<Rightarrow> 's" | Finished

text \<open>A tick carries what it reads of the clocks. Cancelling the context and closing the stop channel both end a loop at the next select.\<close>

fun runner_loop :: "ext \<Rightarrow> (time \<times> time, db) loop_event list \<Rightarrow> db \<Rightarrow> (Job \<times> time) list \<times> db" where
  "runner_loop E [] d = ([], d)"
| "runner_loop E (Ticked (now, wall) # es) d =
     (case Tick E now wall d of (fired, d) \<Rightarrow>
        (case runner_loop E es d of (later, d) \<Rightarrow> (fired @ later, d)))"
| "runner_loop E (Meanwhile f # es) d = runner_loop E es (f d)"
| "runner_loop E (Finished # es) d = ([], d)"

fun worker_loop :: "ext \<Rightarrow> int \<Rightarrow> (time \<times> (string \<Rightarrow> time), worker \<times> db) loop_event list \<Rightarrow> worker \<Rightarrow> db \<Rightarrow> Task list \<times> worker \<times> db" where
  "worker_loop E cap [] w d = ([], w, d)"
| "worker_loop E cap (Ticked (now, clk) # es) w d =
     (case pollAndDispatch E cap now clk w d of (started, w, d) \<Rightarrow>
        (case worker_loop E cap es w d of (later, w, d) \<Rightarrow> (started @ later, w, d)))"
| "worker_loop E cap (Meanwhile f # es) w d = (case f (w, d) of (w, d) \<Rightarrow> worker_loop E cap es w d)"
| "worker_loop E cap (Finished # es) w d = ([], w, d)"

text \<open>
  \<^verbatim>\<open>time.NewTicker\<close> panics unless the interval is positive, \<^verbatim>\<open>make(chan ..., n)\<close> when \<^verbatim>\<open>n\<close> is negative;
  \<open>None\<close> is that panic. An error of the recovery is only logged.
\<close>

definition poll_interval :: "int \<Rightarrow> duration" where
  "poll_interval n = i64 (n * Millisecond)"

definition worker_ready :: "Config \<Rightarrow> bool" where
  "worker_ready cfg = (0 < poll_interval (WorkerPollIntervalMs cfg) \<and> 0 \<le> WorkerConcurrency cfg)"

definition worker_Run ::
  "ext \<Rightarrow> Config \<Rightarrow> (time \<times> (string \<Rightarrow> time), worker \<times> db) loop_event list \<Rightarrow> db \<Rightarrow> (Task list \<times> worker \<times> db) option" where
  "worker_Run E cfg es d =
     (let d = snd (task_RecoverRunning d) in
      if worker_ready cfg then Some (worker_loop E (WorkerConcurrency cfg) es worker_New d) else None)"

lemma worker_loop_finished: "worker_loop E cap (es @ Finished # es') w d = worker_loop E cap es w d"
proof (induction es arbitrary: w d)
  case (Cons e es)
  then show ?case by (cases e) (auto split: prod.splits)
qed simp

section \<open>Opening the database\<close>

text \<open>\<open>opened\<close> is the error of \<^verbatim>\<open>sql.Open\<close>, or none; the connection is closed when a migration fails.\<close>

definition db_New :: "string option \<Rightarrow> string option list \<Rightarrow> schema \<Rightarrow> (string + unit) \<times> schema" where
  "db_New opened fs s = (case opened of Some err \<Rightarrow> (Inl err, s) | None \<Rightarrow> migrate migrations fs s)"

section \<open>Start and shutdown\<close>

datatype action =
    OpenDB string
  | StartWorker
  | StartRunner duration
  | StartGRPC string
  | StartHTTP string
  | AwaitSignal
  | Cancel
  | StopWorker
  | StopRunner
  | Shutdown duration
  | CloseDB
  | Exit int

definition main :: "environment \<Rightarrow> (string + unit) \<Rightarrow> action list" where
  "main env database =
     (let cfg = Load env in
      OpenDB (dsn (DatabasePath cfg)) #
      (case database of
         Inl err \<Rightarrow> [Exit 1]
       | Inr _ \<Rightarrow>
           [StartWorker]
           @ (if SchedulerEnabled cfg
              then [StartRunner (runner_interval (poll_interval (SchedulerPollIntervalMs cfg)))] else [])
           @ [StartGRPC ('':'' @ GRPCPort cfg), StartHTTP ('':'' @ Port cfg), AwaitSignal, Cancel, StopWorker]
           @ (if SchedulerEnabled cfg then [StopRunner] else [])
           @ [Shutdown (10 * Second), CloseDB]))"

text \<open>The runner's interval is always one a ticker accepts; the worker's is whatever is configured.\<close>

lemma main_runner_interval: "StartRunner i \<in> set (main env database) \<Longrightarrow> 0 < i"
  by (auto simp: main_def Let_def runner_interval_def split: sum.splits if_splits)

lemma main_stops:
  assumes "main env database = xs @ CloseDB # ys"
  shows "StopWorker \<in> set xs \<and> ys = [] \<and> (\<forall>i. StartRunner i \<in> set xs \<longrightarrow> StopRunner \<in> set xs)"
  using assms
  by (auto simp: main_def Let_def Cons_eq_append_conv append_eq_append_conv2 append_eq_Cons_conv split: sum.splits if_splits)

lemma worker_panics:
  assumes "env ''WORKER_POLL_INTERVAL_MS'' = ''0''"
  shows "worker_Run E (Load env) es d = None"
proof -
  have "atoi ''0'' = Some 0" by code_simp
  then have "WorkerPollIntervalMs (Load env) = 0" using assms by (simp add: Load_def getEnvInt_def Let_def)
  then show ?thesis by (simp add: worker_Run_def worker_ready_def poll_interval_def Let_def i64_def)
qed

end
