(* ===== verification/Ui_Tasks.thy ===== *)
theory Ui_Tasks
  imports Rest_Tasks
begin

text \<open>
  ui/handler.go: the admin pages for queues and tasks, from the form and query values to the data
  of the page or the redirect. \<^verbatim>\<open>ui_X\<close> models \<^verbatim>\<open>Handler.X\<close>. The HTML templates are not modelled:
  a page is its name with its data. A redirect carries the target, the key and the message that
  \<^verbatim>\<open>redirectWith\<close> puts into the query with \<^verbatim>\<open>net/url\<close>; an address of the admin pages is its path
  with its query values in the order \<^verbatim>\<open>Encode\<close> writes them.
\<close>

datatype 'a ui_reply =
    render int string 'a
  | message int string string
  | redirectWith string string string
  | redirect string
  | http_error int string

type_synonym address = "string \<times> (string \<times> string) list"

definition taskIDOf :: "string \<Rightarrow> string" where
  "taskIDOf name = after_last slash name"

definition timeTag :: "time \<Rightarrow> string" where
  "timeTag t =
     (if is_zero t then ''<span class='' @ dq @ ''muted'' @ dq @ ''>&mdash;</span>''
      else ''<time class='' @ dq @ ''ts'' @ dq @ '' datetime='' @ dq @ rfc3339 t @ dq @ ''>'' @ current_timestamp t @ '' UTC</time>'')"

text \<open>Only addresses under the admin pages are accepted as targets from a form.\<close>

definition safeNext :: "string \<Rightarrow> string \<Rightarrow> string" where
  "safeNext next_value def =
     (if has_prefix next_value ''/ui/'' \<and> \<not> has_prefix next_value ''//'' \<and> \<not> go_contains next_value [CHR 0x5C]
      then next_value else def)"

text \<open>
  \<^verbatim>\<open>strconv.Atoi\<close> with its error ignored: zero on a syntax error, the nearest bound out of range.
  The digits are read up to the first that makes the value leave 64 bits, so what follows it does
  not matter.
\<close>

fun scan_uint :: "int \<Rightarrow> string \<Rightarrow> int option" where
  "scan_uint acc [] = Some acc"
| "scan_uint acc (c # cs) =
     (case digit_val c of
        None \<Rightarrow> None
      | Some k \<Rightarrow> if 2 ^ 64 \<le> 10 * acc + k then Some (2 ^ 64 - 1) else scan_uint (10 * acc + k) cs)"

definition atoi_lenient :: "string \<Rightarrow> int" where
  "atoi_lenient s =
     (let neg = has_prefix s ''-'';
          ds = (if neg \<or> has_prefix s ''+'' then tl s else s)
      in if ds = [] then 0
         else case scan_uint 0 ds of
           None \<Rightarrow> 0
         | Some n \<Rightarrow> if neg then max (- (2 ^ 63)) (- n) else min (2 ^ 63 - 1) n)"

section \<open>Queues\<close>

record StatusCounts =
  n_Pending :: int
  n_Running :: int
  n_Completed :: int
  n_Failed :: int
  n_Total :: int

definition count_of :: "(string \<rightharpoonup> int) option \<Rightarrow> string \<Rightarrow> int" where
  "count_of m s = (case m of None \<Rightarrow> 0 | Some m \<Rightarrow> (case m s of None \<Rightarrow> 0 | Some n \<Rightarrow> n))"

text \<open>The total sums the entries of the map, the same in every order of ranging over it.\<close>

definition newStatusCounts :: "(string \<rightharpoonup> int) option \<Rightarrow> StatusCounts" where
  "newStatusCounts m =
     \<lparr>n_Pending = count_of m StatusPending, n_Running = count_of m StatusRunning,
      n_Completed = count_of m StatusCompleted, n_Failed = count_of m StatusFailed,
      n_Total = (case m of None \<Rightarrow> 0 | Some m \<Rightarrow> (\<Sum>s \<in> dom m. the (m s)))\<rparr>"

definition queueState :: "Queue \<Rightarrow> string" where
  "queueState q = (if Paused q then StatePaused else StateRunning)"

record queuesPageData =
  qs_Queues :: "(Queue \<times> string \<times> StatusCounts) list"
  qs_Error :: string
  qs_Notice :: string
  qs_DefaultProject :: string
  qs_DefaultLocation :: string

definition server_error :: "error \<Rightarrow> 'a ui_reply" where
  "server_error e = message StatusInternalServerError ''Error'' (error_text e)"

definition ui_ListQueues :: "ext \<Rightarrow> Config \<Rightarrow> string \<Rightarrow> string \<Rightarrow> db \<Rightarrow> queuesPageData ui_reply \<times> db" where
  "ui_ListQueues E cfg err_arg notice_arg d =
     (case queue_ListAll E d of (Inl e, d) \<Rightarrow> (server_error e, d) | (Inr qs, d) \<Rightarrow>
     (case task_CountsByQueue d of (Inl e, d) \<Rightarrow> (server_error e, d) | (Inr counts, d) \<Rightarrow>
        (render StatusOK ''queues.html''
           \<lparr>qs_Queues = map (\<lambda>q. (q, queueState q, newStatusCounts (counts (q_ID q)))) qs,
            qs_Error = err_arg, qs_Notice = notice_arg,
            qs_DefaultProject = DefaultProject cfg, qs_DefaultLocation = DefaultLocation cfg\<rparr>, d)))"

record queue_form =
  qf_project :: string
  qf_location :: string
  qf_name :: string
  qf_max_dispatches_per_second :: string
  qf_max_concurrent_dispatches :: string

definition ui_CreateQueue :: "ext \<Rightarrow> Config \<Rightarrow> time \<Rightarrow> queue_form \<Rightarrow> db \<Rightarrow> unit ui_reply \<times> db" where
  "ui_CreateQueue E cfg wall form d =
     (let project = or_default (trim_space (qf_project form)) (DefaultProject cfg);
          location = or_default (trim_space (qf_location form)) (DefaultLocation cfg);
          name = trim_space (qf_name form) in
      if name = [] then (redirectWith ''/ui/queues'' ''error'' ''Queue name is required.'', d)
      else case queue_ValidateName E name of
        Some e \<Rightarrow> (redirectWith ''/ui/queues'' ''error'' (error_text e), d)
      | None \<Rightarrow>
          let q = \<lparr>q_ID = [], q_Name = name, q_Project = project, q_Location = location, q_State = [],
                   q_RateLimits = Some \<lparr>MaxDispatchesPerSecond = atoi_lenient (qf_max_dispatches_per_second form),
                     MaxConcurrentDispatches = atoi_lenient (qf_max_concurrent_dispatches form)\<rparr>,
                   q_CreatedAt = zero_time\<rparr> in
          case queue_Create wall q d of
            (Inl e, d) \<Rightarrow>
              (redirectWith ''/ui/queues'' ''error''
                 (if e = QueueAlreadyExists then ''Queue '' @ q_ID (queue_prepared q) @ '' already exists.'' else error_text e), d)
          | (Inr _, d) \<Rightarrow> (redirectWith ''/ui/queues'' ''notice'' (''Created queue '' @ name @ ''.''), d))"

section \<open>One queue\<close>

definition pageSize :: int where "pageSize = 50"

definition statusOrder :: "string list" where
  "statusOrder = [StatusPending, StatusRunning, StatusCompleted, StatusFailed]"

definition queueURL :: "string \<Rightarrow> string \<Rightarrow> int \<Rightarrow> address" where
  "queueURL queueID status page =
     (''/ui/queue'', (if page > 1 then [(''page'', itoa page)] else []) @ [(''queue'', queueID)]
        @ (if status \<noteq> [] then [(''status'', status)] else []))"

record filterTab =
  ft_Label :: string
  ft_URL :: address
  ft_Count :: int
  ft_Active :: bool

record queueDetailData =
  qd_Queue :: Queue
  qd_State :: string
  qd_Tasks :: "Task list"
  qd_StatusFilter :: string
  qd_StatusLabel :: string
  qd_Counts :: StatusCounts
  qd_Tabs :: "filterTab list"
  qd_Total :: int
  qd_From :: int
  qd_To :: int
  qd_PrevURL :: "address option"
  qd_NextURL :: "address option"
  qd_CurrentURL :: address
  qd_Error :: string
  qd_Notice :: string

definition status_filter :: "ext \<Rightarrow> string \<Rightarrow> string" where
  "status_filter E arg = (let s = to_upper E arg in if s \<in> set statusOrder then s else [])"

text \<open>The page shown: at least the first, and not beyond the last when there is one.\<close>

definition clamp_page :: "int \<Rightarrow> int \<Rightarrow> int" where
  "clamp_page tot page =
     (let page = (if page < 1 then 1 else page); maxPage = go_div (tot + pageSize - 1) pageSize
      in if maxPage > 0 \<and> page > maxPage then maxPage else page)"

definition status_label :: "string \<Rightarrow> string" where
  "status_label s = (case s of [] \<Rightarrow> [] | c # cs \<Rightarrow> ascii_upper c # map ascii_lower cs)"

definition detail_tabs :: "string \<Rightarrow> string \<Rightarrow> StatusCounts \<Rightarrow> (string \<rightharpoonup> int) option \<Rightarrow> filterTab list" where
  "detail_tabs queueID filt counts m =
     \<lparr>ft_Label = ''All'', ft_URL = queueURL queueID [] 1, ft_Count = n_Total counts, ft_Active = (filt = [])\<rparr>
     # map (\<lambda>s. \<lparr>ft_Label = status_label s, ft_URL = queueURL queueID s 1, ft_Count = count_of m s, ft_Active = (filt = s)\<rparr>) statusOrder"

definition ui_QueueDetail ::
  "ext \<Rightarrow> string \<Rightarrow> string \<Rightarrow> string \<Rightarrow> string \<Rightarrow> string \<Rightarrow> db \<Rightarrow> queueDetailData ui_reply \<times> db" where
  "ui_QueueDetail E queueID status_arg page_arg err_arg notice_arg d =
     (if queueID = [] then (message StatusBadRequest ''Bad request'' ''A queue is required.'', d)
      else case queue_Get E queueID d of
        (Inl e, d) \<Rightarrow> (server_error e, d)
      | (Inr None, d) \<Rightarrow> (message StatusNotFound ''Queue not found'' (''There is no queue '' @ queueID @ ''.''), d)
      | (Inr (Some q), d) \<Rightarrow>
     (case task_CountsByQueue d of (Inl e, d) \<Rightarrow> (server_error e, d) | (Inr all, d) \<Rightarrow>
      let filt = status_filter E status_arg;
          counts = newStatusCounts (all queueID);
          tot = (if filt \<noteq> [] then count_of (all queueID) filt else n_Total counts);
          page = clamp_page tot (atoi_lenient page_arg) in
     (case task_ListPage E queueID filt pageSize (i64 ((page - 1) * pageSize)) d of
        (Inl e, d) \<Rightarrow> (server_error e, d)
      | (Inr ts, d) \<Rightarrow>
          let first_n = (if ts \<noteq> [] then (page - 1) * pageSize + 1 else 0);
              upto_n = (if ts \<noteq> [] then first_n + int (length ts) - 1 else 0) in
          (render StatusOK ''queue_detail.html''
             \<lparr>qd_Queue = q, qd_State = queueState q, qd_Tasks = ts, qd_StatusFilter = filt,
              qd_StatusLabel = map ascii_lower filt, qd_Counts = counts, qd_Tabs = detail_tabs queueID filt counts (all queueID),
              qd_Total = tot, qd_From = first_n, qd_To = upto_n,
              qd_PrevURL = (if page > 1 then Some (queueURL queueID filt (page - 1)) else None),
              qd_NextURL = (if upto_n < tot then Some (queueURL queueID filt (page + 1)) else None),
              qd_CurrentURL = queueURL queueID filt page, qd_Error = err_arg, qd_Notice = notice_arg\<rparr>, d))))"

section \<open>One task\<close>

definition maxBodyDisplay :: nat where "maxBodyDisplay = 256 * 1024"

text \<open>
  \<open>valid\<close> is \<^verbatim>\<open>utf8.Valid\<close>; \<open>indent\<close> is the text \<^verbatim>\<open>json.Indent\<close> gives with two spaces, or nothing when
  the bytes are not JSON.
\<close>

definition renderBody :: "(string \<Rightarrow> bool) \<Rightarrow> (string \<Rightarrow> string option) \<Rightarrow> string \<Rightarrow> string \<times> string" where
  "renderBody valid indent body =
     (if body = [] then ([], [])
      else let truncated = maxBodyDisplay < length body; b = take maxBodyDisplay body;
               (text, note) =
                 (if \<not> valid b then (b64_std b, ''binary, base64-encoded, '' @ itoa (int (length b)) @ '' bytes'')
                  else case indent b of Some s \<Rightarrow> (s, ''JSON'') | None \<Rightarrow> (b, ''text''))
           in (text, if truncated then note @ '', truncated to 256 KiB'' else note))"

record taskDetailData =
  td_Queue :: Queue
  td_Task :: Task
  td_TaskID :: string
  td_Body :: string
  td_BodyNote :: string
  td_CurrentURL :: address
  td_Notice :: string

definition ui_TaskDetail ::
  "ext \<Rightarrow> (string \<Rightarrow> bool) \<Rightarrow> (string \<Rightarrow> string option) \<Rightarrow> string \<Rightarrow> string \<Rightarrow> string \<Rightarrow> db \<Rightarrow> taskDetailData ui_reply \<times> db" where
  "ui_TaskDetail E valid indent queueID taskID notice_arg d =
     (if queueID = [] \<or> taskID = [] then (message StatusBadRequest ''Bad request'' ''A queue and a task are required.'', d)
      else case queue_Get E queueID d of
        (Inl e, d) \<Rightarrow> (server_error e, d)
      | (Inr None, d) \<Rightarrow> (message StatusNotFound ''Queue not found'' (''There is no queue '' @ queueID @ ''.''), d)
      | (Inr (Some q), d) \<Rightarrow>
     (case task_Get E (queueID @ ''/tasks/'' @ taskID) d of
        (Inl e, d) \<Rightarrow> (server_error e, d)
      | (Inr None, d) \<Rightarrow>
          (message StatusNotFound ''Task not found''
             (''Task '' @ taskID @ '' does not exist (it may have been deleted or purged).''), d)
      | (Inr (Some t), d) \<Rightarrow>
          (case renderBody valid indent (t_Body t) of (body, note) \<Rightarrow>
             (render StatusOK ''task_detail.html''
                \<lparr>td_Queue = q, td_Task = t, td_TaskID = taskID, td_Body = body, td_BodyNote = note,
                 td_CurrentURL = (''/ui/task'', [(''queue'', queueID), (''task'', taskID)]), td_Notice = notice_arg\<rparr>, d))))"

section \<open>Actions\<close>

definition queueAction ::
  "string \<Rightarrow> string \<Rightarrow> string \<Rightarrow> (string \<Rightarrow> db \<Rightarrow> (error + string) \<times> db) \<Rightarrow> db \<Rightarrow> unit ui_reply \<times> db" where
  "queueAction queueID next_arg def fn d =
     (if queueID = [] then (redirect ''/ui/queues'', d)
      else let target = safeNext next_arg def in
      case fn queueID d of
        (Inl e, d) \<Rightarrow> (redirectWith target ''error'' (error_text e), d)
      | (Inr msg, d) \<Rightarrow> (redirectWith target ''notice'' msg, d))"

definition with_message :: "('a \<Rightarrow> string) \<Rightarrow> (error + 'a) \<times> db \<Rightarrow> (error + string) \<times> db" where
  "with_message msg r = (case r of (Inl e, d) \<Rightarrow> (Inl e, d) | (Inr x, d) \<Rightarrow> (Inr (msg x), d))"

definition ui_DeleteQueue :: "string \<Rightarrow> string \<Rightarrow> db \<Rightarrow> unit ui_reply \<times> db" where
  "ui_DeleteQueue queueID next_arg =
     queueAction queueID next_arg ''/ui/queues'' (\<lambda>qid d. with_message (\<lambda>_. ''Deleted queue.'') (queue_Delete qid d))"

definition ui_PauseQueue :: "string \<Rightarrow> string \<Rightarrow> db \<Rightarrow> unit ui_reply \<times> db" where
  "ui_PauseQueue queueID next_arg =
     queueAction queueID next_arg ''/ui/queues'' (\<lambda>qid d. with_message (\<lambda>_. ''Queue paused.'') (queue_SetState qid StatePaused d))"

definition ui_ResumeQueue :: "string \<Rightarrow> string \<Rightarrow> db \<Rightarrow> unit ui_reply \<times> db" where
  "ui_ResumeQueue queueID next_arg =
     queueAction queueID next_arg ''/ui/queues'' (\<lambda>qid d. with_message (\<lambda>_. ''Queue resumed.'') (queue_SetState qid StateRunning d))"

definition ui_PurgeQueue :: "ext \<Rightarrow> string \<Rightarrow> string \<Rightarrow> db \<Rightarrow> unit ui_reply \<times> db" where
  "ui_PurgeQueue E queueID next_arg =
     queueAction queueID next_arg ''/ui/queues''
       (\<lambda>qid d. with_message (\<lambda>n. ''Purged '' @ itoa n @ '' task(s).'') (queue_Purge E qid d))"

text \<open>\<open>escape\<close> is \<^verbatim>\<open>url.QueryEscape\<close>.\<close>

definition taskAction ::
  "(string \<Rightarrow> string) \<Rightarrow> string \<Rightarrow> string \<Rightarrow> string \<Rightarrow> (string \<Rightarrow> db \<Rightarrow> (error + string) \<times> db) \<Rightarrow> db \<Rightarrow> unit ui_reply \<times> db" where
  "taskAction escape queueID taskID next_arg fn d =
     (if queueID = [] \<or> taskID = [] then (redirect ''/ui/queues'', d)
      else let target = safeNext next_arg (''/ui/queue?queue='' @ escape queueID) in
      case fn (queueID @ ''/tasks/'' @ taskID) d of
        (Inl e, d) \<Rightarrow> (redirectWith target ''error'' (error_text e), d)
      | (Inr msg, d) \<Rightarrow> (redirectWith target ''notice'' msg, d))"

definition ui_RunTask :: "(string \<Rightarrow> string) \<Rightarrow> time \<Rightarrow> string \<Rightarrow> string \<Rightarrow> string \<Rightarrow> db \<Rightarrow> unit ui_reply \<times> db" where
  "ui_RunTask escape now queueID taskID next_arg =
     taskAction escape queueID taskID next_arg
       (\<lambda>name d. with_message (\<lambda>_. ''Task scheduled to run now.'') (task_SetNextAttemptNow now name d))"

definition ui_RetryTask :: "(string \<Rightarrow> string) \<Rightarrow> time \<Rightarrow> string \<Rightarrow> string \<Rightarrow> string \<Rightarrow> db \<Rightarrow> unit ui_reply \<times> db" where
  "ui_RetryTask = ui_RunTask"

definition ui_DeleteTask :: "(string \<Rightarrow> string) \<Rightarrow> string \<Rightarrow> string \<Rightarrow> string \<Rightarrow> db \<Rightarrow> unit ui_reply \<times> db" where
  "ui_DeleteTask escape queueID taskID next_arg =
     taskAction escape queueID taskID next_arg (\<lambda>name d. with_message (\<lambda>_. ''Task deleted.'') (task_Delete name d))"

end
