(* ===== verification/Ui_Jobs.thy ===== *)
theory Ui_Jobs
  imports Ui_Tasks Rest_Jobs "HOL-Library.AList"
begin

text \<open>
  ui/scheduler_handler.go: the admin pages for scheduler jobs over the service. \<^verbatim>\<open>ui_X\<close> models
  \<^verbatim>\<open>SchedulerHandler.X\<close>; \<open>escape\<close> is \<^verbatim>\<open>url.QueryEscape\<close>. A form is the record of its values as
  \<^verbatim>\<open>FormValue\<close> returns them, the empty text for one that is not sent.
\<close>

abbreviation newline :: char where "newline \<equiv> CHR 0x0A"

section \<open>Printing\<close>

definition fmtTime :: "time \<Rightarrow> string" where
  "fmtTime t = (if is_zero t then ''-'' else current_timestamp t @ '' UTC'')"

text \<open>
  \<^verbatim>\<open>Duration.String\<close>: below a second in the largest unit with a non-zero integer part, else hours,
  minutes and seconds from the first that is not zero; fractions without trailing zeros.
\<close>

definition fmt_frac :: "nat \<Rightarrow> int \<Rightarrow> string" where
  "fmt_frac w v = itoa (v div 10 ^ w)
     @ (if v mod 10 ^ w = 0 then [] else CHR ''.'' # rev (dropWhile (\<lambda>c. c = CHR ''0'') (rev (append_int (v mod 10 ^ w) w))))"

definition duration_string :: "duration \<Rightarrow> string" where
  "duration_string d =
     (let u = \<bar>d\<bar>; secs = u div Second in
      (if d < 0 then ''-'' else [])
      @ (if u = 0 then ''0s''
         else if u < 1000 then itoa u @ ''ns''
         else if u < 1000000 then fmt_frac 3 u @ bytes [194, 181] @ ''s''
         else if u < Second then fmt_frac 6 u @ ''ms''
         else (if 3600 \<le> secs then itoa (secs div 3600) @ ''h'' else [])
           @ (if 60 \<le> secs then itoa (secs div 60 mod 60) @ ''m'' else [])
           @ fmt_frac 9 (secs mod 60 * Second + u mod Second) @ ''s''))"

record jobView =
  jv_ID :: string
  jv_Name :: string
  jv_Project :: string
  jv_Location :: string
  jv_Description :: string
  jv_Schedule :: string
  jv_TimeZone :: string
  jv_State :: string
  jv_Enabled :: bool
  jv_Method :: string
  jv_URL :: string
  jv_Headers :: string
  jv_Body :: string
  jv_Deadline :: string
  jv_RetryCount :: int
  jv_MinBackoff :: string
  jv_MaxBackoff :: string
  jv_MaxRetryDur :: string
  jv_MaxDoubling :: int
  jv_NextRun :: string
  jv_LastAttempt :: string
  jv_LastStatus :: string
  jv_LastError :: string
  jv_Created :: string

definition header_line :: "string \<times> string \<Rightarrow> string" where
  "header_line kv = fst kv @ '': '' @ snd kv"

text \<open>The lines are sorted, so the order in which the map is ranged over does not show.\<close>

definition header_lines :: "headers option \<Rightarrow> string" where
  "header_lines hs = go_join newline (sort (map header_line (case hs of None \<Rightarrow> [] | Some h \<Rightarrow> h)))"

definition toJobView :: "Job \<Rightarrow> jobView" where
  "toJobView j =
     \<lparr>jv_ID = j_ID j, jv_Name = j_Name j, jv_Project = j_Project j, jv_Location = j_Location j,
      jv_Description = j_Description j, jv_Schedule = j_Schedule j, jv_TimeZone = j_TimeZone j,
      jv_State = j_State j, jv_Enabled = (j_State j = JobEnabled), jv_Method = j_HTTPMethod j, jv_URL = j_URL j,
      jv_Headers = header_lines (j_Headers j), jv_Body = (case j_Body j of None \<Rightarrow> [] | Some b \<Rightarrow> b),
      jv_Deadline = duration_string (j_AttemptDeadline j), jv_RetryCount = RetryCount (j_Retry j),
      jv_MinBackoff = duration_string (MinBackoff (j_Retry j)), jv_MaxBackoff = duration_string (MaxBackoff (j_Retry j)),
      jv_MaxRetryDur = duration_string (MaxRetryDuration (j_Retry j)), jv_MaxDoubling = MaxDoublings (j_Retry j),
      jv_NextRun = fmtTime (j_NextRunAt j), jv_LastAttempt = fmtTime (j_LastAttemptAt j),
      jv_LastStatus = (if j_LastStatus j = [] then ''-'' else j_LastStatus j), jv_LastError = j_LastError j,
      jv_Created = fmtTime (j_CreatedAt j)\<rparr>"

section \<open>Forms\<close>

definition put_header_line :: "string \<Rightarrow> headers \<Rightarrow> headers" where
  "put_header_line line out =
     (case go_cut colon (trim_space line) of (k, v, ok) \<Rightarrow>
        if \<not> ok \<or> trim_space k = [] then out else AList.update (trim_space k) (trim_space v) out)"

definition parseHeaderLines :: "string \<Rightarrow> headers option" where
  "parseHeaderLines s =
     (let out = fold put_header_line (go_split newline s) [] in if out = [] then None else Some out)"

fun errText :: "error \<Rightarrow> string" where
  "errText (ValidationError msg) = msg"
| "errText e = error_text e"

record job_form =
  jf_project :: string
  jf_location :: string
  jf_name :: string
  jf_description :: string
  jf_schedule :: string
  jf_time_zone :: string
  jf_http_method :: string
  jf_url :: string
  jf_headers :: string
  jf_body :: string
  jf_retry_count :: string

text \<open>The fields both forms set the same way; an empty body is the nil slice.\<close>

definition form_job :: "job_form \<Rightarrow> Job" where
  "form_job f =
     zero_job\<lparr>j_Description := jf_description f, j_Schedule := trim_space (jf_schedule f),
       j_TimeZone := trim_space (jf_time_zone f), j_HTTPMethod := jf_http_method f, j_URL := trim_space (jf_url f),
       j_Headers := parseHeaderLines (jf_headers f),
       j_Body := (if jf_body f = [] then None else Some (jf_body f)),
       j_Retry := (j_Retry zero_job)\<lparr>RetryCount := atoi_lenient (jf_retry_count f)\<rparr>\<rparr>"

definition redirectJobs :: "(string \<Rightarrow> string) \<Rightarrow> error option \<Rightarrow> 'a ui_reply" where
  "redirectJobs escape err =
     redirect (''/ui/jobs'' @ (case err of None \<Rightarrow> [] | Some e \<Rightarrow> ''?error='' @ escape (errText e)))"

definition detailRedirect :: "(string \<Rightarrow> string) \<Rightarrow> string \<Rightarrow> error option \<Rightarrow> 'a ui_reply" where
  "detailRedirect escape jid err =
     redirect (''/ui/job?job='' @ escape jid @ (case err of None \<Rightarrow> [] | Some e \<Rightarrow> ''&error='' @ escape (errText e)))"

definition failure :: "error + 'a \<Rightarrow> error option" where
  "failure r = (case r of Inl e \<Rightarrow> Some e | Inr _ \<Rightarrow> None)"

section \<open>Handlers\<close>

record jobsPageData =
  js_Jobs :: "jobView list"
  js_Error :: string
  js_DefaultProject :: string
  js_DefaultLocation :: string
  js_Now :: string

definition ui_ListJobs :: "ext \<Rightarrow> Config \<Rightarrow> time \<Rightarrow> string \<Rightarrow> db \<Rightarrow> jobsPageData ui_reply \<times> db" where
  "ui_ListJobs E cfg wall err_arg d =
     (case job_ListAll E d of
        (Inl e, d) \<Rightarrow> (http_error StatusInternalServerError (error_text e), d)
      | (Inr js, d) \<Rightarrow>
          (render StatusOK ''jobs.html''
             \<lparr>js_Jobs = map toJobView js, js_Error = err_arg, js_DefaultProject = DefaultProject cfg,
              js_DefaultLocation = DefaultLocation cfg, js_Now = fmtTime wall\<rparr>, d))"

definition ui_CreateJob ::
  "ext \<Rightarrow> (string \<Rightarrow> string) \<Rightarrow> Config \<Rightarrow> time \<Rightarrow> time \<Rightarrow> job_form \<Rightarrow> db \<Rightarrow> unit ui_reply \<times> db" where
  "ui_CreateJob E escape cfg now wall f d =
     (let j = (form_job f)\<lparr>
            j_Project := or_default (trim_space (jf_project f)) (DefaultProject cfg),
            j_Location := or_default (trim_space (jf_location f)) (DefaultLocation cfg),
            j_Name := trim_space (jf_name f)\<rparr> in
      case svc_Create E now wall j d of (r, d) \<Rightarrow> (redirectJobs escape (failure r), d))"

definition ui_JobDetail :: "ext \<Rightarrow> string \<Rightarrow> string \<Rightarrow> db \<Rightarrow> (jobView \<times> string) ui_reply \<times> db" where
  "ui_JobDetail E jid err_arg d =
     (case svc_Get E jid d of
        (Inl e, d) \<Rightarrow>
          (if e = JobNotFound then http_error StatusNotFound ''job not found''
           else http_error StatusInternalServerError (error_text e), d)
      | (Inr j, d) \<Rightarrow> (render StatusOK ''scheduler_job_detail'' (toJobView j, err_arg), d))"

definition form_mask :: "string list" where
  "form_mask = [''description'', ''schedule'', ''time_zone'', ''http_target'', ''retry_config.retry_count'']"

definition ui_UpdateJob ::
  "ext \<Rightarrow> (string \<Rightarrow> string) \<Rightarrow> time \<Rightarrow> time \<Rightarrow> string \<Rightarrow> job_form \<Rightarrow> db \<Rightarrow> unit ui_reply \<times> db" where
  "ui_UpdateJob E escape now wall jid f d =
     (case svc_Update E now wall jid (form_job f) form_mask d of
        (r, d) \<Rightarrow> (detailRedirect escape jid (failure r), d))"

definition ui_act ::
  "(string \<Rightarrow> string) \<Rightarrow> string \<Rightarrow> string \<Rightarrow> (error + Job) \<times> db \<Rightarrow> unit ui_reply \<times> db" where
  "ui_act escape jid came_from res =
     (case res of (r, d) \<Rightarrow>
        (if came_from = ''detail'' then detailRedirect escape jid (failure r) else redirectJobs escape (failure r), d))"

definition ui_PauseJob ::
  "ext \<Rightarrow> (string \<Rightarrow> string) \<Rightarrow> time \<Rightarrow> string \<Rightarrow> string \<Rightarrow> db \<Rightarrow> unit ui_reply \<times> db" where
  "ui_PauseJob E escape wall jid came_from d = ui_act escape jid came_from (svc_Pause E wall jid d)"

definition ui_ResumeJob ::
  "ext \<Rightarrow> (string \<Rightarrow> string) \<Rightarrow> time \<Rightarrow> time \<Rightarrow> string \<Rightarrow> string \<Rightarrow> db \<Rightarrow> unit ui_reply \<times> db" where
  "ui_ResumeJob E escape now wall jid came_from d = ui_act escape jid came_from (svc_Resume E now wall jid d)"

text \<open>The second component is the execution started in the background.\<close>

definition ui_RunJob ::
  "ext \<Rightarrow> (string \<Rightarrow> string) \<Rightarrow> time \<Rightarrow> string \<Rightarrow> string \<Rightarrow> db \<Rightarrow> unit ui_reply \<times> (Job \<times> time) option \<times> db" where
  "ui_RunJob E escape now jid came_from d =
     (case svc_Run E now jid d of (r, fired, d) \<Rightarrow>
        (case ui_act escape jid came_from (r, d) of (reply, d) \<Rightarrow> (reply, fired, d)))"

definition ui_DeleteJob :: "(string \<Rightarrow> string) \<Rightarrow> string \<Rightarrow> db \<Rightarrow> unit ui_reply \<times> db" where
  "ui_DeleteJob escape jid d = (case svc_Delete jid d of (r, d) \<Rightarrow> (redirectJobs escape (failure r), d))"

end
