(* ===== verification/Ui_Props.thy ===== *)
theory Ui_Props
  imports Ui_Jobs Repo_Props
begin

text \<open>
  The properties of the admin pages: the page of a queue shows the right stretch of the listing with
  the right numbers, counts, tabs and links, and the header text of a job's form is read back as the
  headers it was made of.
\<close>

section \<open>The page of a queue\<close>

text \<open>The nested map of counts against the rows it counts.\<close>

definition rows_in :: "string \<Rightarrow> string \<Rightarrow> db \<Rightarrow> task_row list" where
  "rows_in qid st d = filter (in_listing qid st) (task_tbl d)"

lemma in_listing_split:
  "st \<noteq> [] \<Longrightarrow> filter (in_listing qid st) rs = filter (\<lambda>r. tr_status r = st) (filter (in_listing qid []) rs)"
  by (auto simp: in_listing_def intro: filter_cong)

lemma counts_of_queue:
  fixes d defines "m \<equiv> fold add_count (count_groups d) Map.empty"
  shows "count_of (m qid) st = int (length (filter (\<lambda>r. tr_status r = st) (rows_in qid [] d)))"
    and "n_Total (newStatusCounts (m qid)) = int (length (rows_in qid [] d))"
proof -
  let ?n = "\<lambda>s. length (filter (\<lambda>r. tr_status r = s) (rows_in qid [] d))"
  have b: "Option.bind (m qid) (\<lambda>m. m s) = (if ?n s = 0 then None else Some (int (?n s)))" for s
    by (simp add: m_def fold_add_count [OF distinct_count_groups] find_count_groups Let_def
        rows_affected_def rows_in_def in_listing_def conj_commute)
  show "count_of (m qid) st = int (?n st)"
    using b [of st] by (cases "m qid") (auto simp: count_of_def split: if_splits)
  show "n_Total (newStatusCounts (m qid)) = int (length (rows_in qid [] d))"
  proof (cases "m qid")
    case None
    then have "?n s = 0" for s using b [of s] by (simp split: if_splits)
    from this [of "tr_status (hd (rows_in qid [] d))"] have "rows_in qid [] d = []" by (cases "rows_in qid [] d") auto
    with None show ?thesis by (simp add: newStatusCounts_def)
  next
    case (Some m')
    have m: "m' s = (if ?n s = 0 then None else Some (int (?n s)))" for s using b [of s] Some by simp
    have "dom m' = set (map tr_status (rows_in qid [] d))"
      by (auto simp: dom_def m filter_empty_conv split: if_splits)
    moreover have "the (m' s) = int (count_list (map tr_status (rows_in qid [] d)) s)" if "s \<in> dom m'" for s
    proof -
      have "count_list (map tr_status rs) s = length (filter (\<lambda>r. tr_status r = s) rs)" for rs by (induction rs) auto
      from this [of "rows_in qid [] d"] that show ?thesis by (auto simp: m split: if_splits)
    qed
    ultimately have "(\<Sum>s \<in> dom m'. the (m' s)) = int (\<Sum>s \<in> set (map tr_status (rows_in qid [] d)). count_list (map tr_status (rows_in qid [] d)) s)"
      by simp
    also have "\<dots> = int (length (rows_in qid [] d))"
      using sum_count_set [OF subset_refl, of "map tr_status (rows_in qid [] d)"] by simp
    finally show ?thesis using Some by (simp add: newStatusCounts_def)
  qed
qed

lemma clamp_page_range:
  assumes "0 \<le> tot"
  shows "1 \<le> clamp_page tot k" and "0 < tot \<Longrightarrow> (clamp_page tot k - 1) * 50 < tot"
    and "1 \<le> k \<Longrightarrow> (k - 1) * 50 < tot \<Longrightarrow> clamp_page tot k = k"
  using assms by (auto simp: clamp_page_def pageSize_def Let_def)

lemma page_rows:
  assumes "db_ok d" "0 \<le> off" "in_i64 off"
  shows "task_ListPage E qid st 50 (i64 off) d
    = (Inr (take 50 (drop (nat off) (map (scanTask E) (task_rows_page qid st (-1) 0 d)))), d)"
  using assms by (simp add: task_ListPage_def task_query_def select_def db_ok_def task_rows_page_def sql_limit_def take_map drop_map)

lemma listing_rows:
  assumes "db_ok d"
  shows "task_List E qid st d = (Inr (map (scanTask E) (task_rows_page qid st (-1) 0 d)), d)"
    and "length (task_rows_page qid st (-1) 0 d) = length (rows_in qid st d)"
  using assms by (simp_all add: task_List_def task_ListPage_def task_query_def select_def db_ok_def
      task_rows_page_def sql_limit_def rows_in_def)

lemma no_page:
  assumes "db_ok d" "task_rows_page qid st (-1) 0 d = []"
  shows "task_ListPage E qid st 50 off d = (Inr [], d)"
  using assms by (simp add: task_ListPage_def task_query_def select_def db_ok_def task_rows_page_def sql_limit_def)

lemma filtered_total:
  assumes "0 \<noteq> length st \<longrightarrow> st \<in> set statusOrder"
  shows "(if st \<noteq> [] then count_of (fold add_count (count_groups d) Map.empty qid) st
      else n_Total (newStatusCounts (fold add_count (count_groups d) Map.empty qid))) = int (length (rows_in qid st d))"
proof (cases "st = []")
  case False
  then have "filter (\<lambda>r. tr_status r = st) (rows_in qid [] d) = rows_in qid st d"
    unfolding rows_in_def by (rule in_listing_split [symmetric])
  with False show ?thesis by (simp add: counts_of_queue)
qed (simp add: counts_of_queue)

text \<open>The rows of a queue in one status, and all of them.\<close>

definition tasks_in :: "string \<Rightarrow> string \<Rightarrow> db \<Rightarrow> int" where
  "tasks_in qid st d = int (length (filter (\<lambda>r. tr_queue_id r = qid \<and> tr_status r = st) (task_tbl d)))"

definition all_tasks_in :: "string \<Rightarrow> db \<Rightarrow> int" where
  "all_tasks_in qid d = int (length (filter (\<lambda>r. tr_queue_id r = qid) (task_tbl d)))"

lemma counts_shown:
  fixes d defines "m \<equiv> fold add_count (count_groups d) Map.empty"
  shows "count_of (m qid) st = tasks_in qid st d" "n_Total (newStatusCounts (m qid)) = all_tasks_in qid d"
    "newStatusCounts (m qid) = \<lparr>n_Pending = tasks_in qid ''PENDING'' d, n_Running = tasks_in qid ''RUNNING'' d,
        n_Completed = tasks_in qid ''COMPLETED'' d, n_Failed = tasks_in qid ''FAILED'' d, n_Total = all_tasks_in qid d\<rparr>"
proof -
  have c: "count_of (m qid) s = tasks_in qid s d" for s
    unfolding m_def counts_of_queue(1) by (simp add: tasks_in_def rows_in_def in_listing_def conj_commute)
  have t: "n_Total (newStatusCounts (m qid)) = all_tasks_in qid d"
    unfolding m_def counts_of_queue(2) by (simp add: all_tasks_in_def rows_in_def in_listing_def [abs_def])
  show "count_of (m qid) st = tasks_in qid st d" "n_Total (newStatusCounts (m qid)) = all_tasks_in qid d" by (rule c, rule t)
  show "newStatusCounts (m qid) = \<lparr>n_Pending = tasks_in qid ''PENDING'' d, n_Running = tasks_in qid ''RUNNING'' d,
        n_Completed = tasks_in qid ''COMPLETED'' d, n_Failed = tasks_in qid ''FAILED'' d, n_Total = all_tasks_in qid d\<rparr>"
    using t by (intro StatusCounts.equality) (simp_all add: newStatusCounts_def c status_defs)
qed

lemma tabs_shown:
  fixes d defines "m \<equiv> fold add_count (count_groups d) Map.empty"
  shows "detail_tabs qid filt (newStatusCounts (m qid)) (m qid) =
     \<lparr>ft_Label = ''All'', ft_URL = queueURL qid [] 1, ft_Count = all_tasks_in qid d, ft_Active = (filt = [])\<rparr>
        # map (\<lambda>(s, label). \<lparr>ft_Label = label, ft_URL = queueURL qid s 1, ft_Count = tasks_in qid s d, ft_Active = (filt = s)\<rparr>)
          [(''PENDING'', ''Pending''), (''RUNNING'', ''Running''), (''COMPLETED'', ''Completed''), (''FAILED'', ''Failed'')]"
proof -
  have "status_label ''PENDING'' = ''Pending''" "status_label ''RUNNING'' = ''Running''"
    "status_label ''COMPLETED'' = ''Completed''" "status_label ''FAILED'' = ''Failed''" by code_simp+
  then show ?thesis
    using counts_shown(1,2) [where d = d and qid = qid] unfolding m_def [symmetric]
    by (simp add: detail_tabs_def statusOrder_def status_defs)
qed

text \<open>The page of the listing the handler reads, and the positions it shows.\<close>

lemma listing_page:
  assumes "db_ok d" "length (task_tbl d) < 2 ^ 57" "task_List E qid f d = (Inr ts, d)"
    and "pg = clamp_page (int (length ts)) page"
  shows "int (length ts) = int (length (rows_in qid f d))"
    and "task_ListPage E qid f pageSize (i64 ((pg - 1) * pageSize)) d = (Inr (take 50 (drop (nat ((pg - 1) * 50)) ts)), d)"
proof -
  have ts: "ts = map (scanTask E) (task_rows_page qid f (-1) 0 d)" using assms(3) listing_rows(1) [OF assms(1), of E qid f] by simp
  then show len: "int (length ts) = int (length (rows_in qid f d))" using listing_rows(2) [OF assms(1)] by simp
  have "length ts \<le> length (task_tbl d)" using len length_filter_le [of "in_listing qid f" "task_tbl d"] unfolding rows_in_def by linarith
  with assms(2) have "int (length ts) < int (2 ^ 57)" by (simp only: of_nat_less_iff)
  then have small: "int (length ts) < 2 ^ 57" by simp
  note pg = clamp_page_range [of "int (length ts)" page, folded assms(4)]
  show "task_ListPage E qid f pageSize (i64 ((pg - 1) * pageSize)) d = (Inr (take 50 (drop (nat ((pg - 1) * 50)) ts)), d)"
  proof (cases "ts = []")
    case True
    then show ?thesis using no_page [OF assms(1)] ts by (simp add: pageSize_def)
  next
    case False
    then have "(pg - 1) * 50 < int (length ts)" by (intro pg(2)) simp_all
    then have "in_i64 ((pg - 1) * 50)" using pg(1) small by (simp add: in_i64_def)
    then show ?thesis using page_rows [OF assms(1)] pg(1) ts by (simp add: pageSize_def)
  qed
qed

lemma page_positions:
  assumes "pg = clamp_page (int (length ts)) page" and "p = take 50 (drop (nat ((pg - 1) * 50)) ts)"
    and "shown_to = (if p \<noteq> [] then (if p \<noteq> [] then (pg - 1) * 50 + 1 else 0) + int (length p) - 1 else 0)"
  shows "ts \<noteq> [] \<Longrightarrow> p \<noteq> []" and "shown_to = (if ts = [] then 0 else min (pg * 50) (int (length ts)))"
    and "shown_to < int (length ts) \<longleftrightarrow> pg * 50 < int (length ts)"
proof -
  note pg = clamp_page_range [of "int (length ts)" page, folded assms(1)]
  have p: "p \<noteq> []" "int (length p) = min 50 (int (length ts) - (pg - 1) * 50)" if "ts \<noteq> []"
    unfolding assms(2) using pg(1) pg(2) that by simp_all
  then show "ts \<noteq> [] \<Longrightarrow> p \<noteq> []" by blast
  show u: "shown_to = (if ts = [] then 0 else min (pg * 50) (int (length ts)))"
    unfolding assms(3) using p assms(2) by (cases "ts = []") (simp_all add: min_def)
  show "shown_to < int (length ts) \<longleftrightarrow> pg * 50 < int (length ts)"
    unfolding u using pg(1) by (cases "ts = []") (simp_all add: min_def)
qed

text \<open>
  C12: on a database without statement failures the page of an existing queue is rendered with the
  tasks of one page of the listing under the chosen status: the page asked for when it exists, with
  its first and last position and the number of matching tasks, a link to the next page exactly
  when more follow and to the previous one exactly from the second page on. The counts are those of
  the rows of the queue, in each status and in all; the tabs link to the listings in all statuses and in
  each, with those counts, and the one of the chosen status is active.
\<close>

theorem ui_queue_page:
  assumes "db_ok d" "qid \<noteq> []" "find_queue qid d \<noteq> None" "length (task_tbl d) < 2 ^ 57"
    and "task_List E qid (status_filter E st) d = (Inr ts, d)"
  shows "\<exists>pg v. ui_QueueDetail E qid st page_arg err notice d = (render 200 ''queue_detail.html'' v, d)
    \<and> 1 \<le> pg \<and> qd_Tasks v = take 50 (drop (nat ((pg - 1) * 50)) ts) \<and> qd_Total v = int (length ts)
    \<and> (ts \<noteq> [] \<longrightarrow> qd_Tasks v \<noteq> [] \<and> qd_From v = (pg - 1) * 50 + 1 \<and> qd_To v = min (pg * 50) (int (length ts)))
    \<and> qd_NextURL v = (if pg * 50 < int (length ts) then Some (queueURL qid (status_filter E st) (pg + 1)) else None)
    \<and> qd_PrevURL v = (if 1 < pg then Some (queueURL qid (status_filter E st) (pg - 1)) else None)
    \<and> qd_CurrentURL v = queueURL qid (status_filter E st) pg \<and> qd_StatusFilter v = status_filter E st
    \<and> qd_Error v = err \<and> qd_Notice v = notice
    \<and> qd_Counts v = \<lparr>n_Pending = tasks_in qid ''PENDING'' d, n_Running = tasks_in qid ''RUNNING'' d,
        n_Completed = tasks_in qid ''COMPLETED'' d, n_Failed = tasks_in qid ''FAILED'' d, n_Total = all_tasks_in qid d\<rparr>
    \<and> qd_Tabs v = \<lparr>ft_Label = ''All'', ft_URL = queueURL qid [] 1, ft_Count = all_tasks_in qid d,
          ft_Active = (status_filter E st = [])\<rparr>
        # map (\<lambda>(s, label). \<lparr>ft_Label = label, ft_URL = queueURL qid s 1, ft_Count = tasks_in qid s d,
            ft_Active = (status_filter E st = s)\<rparr>)
          [(''PENDING'', ''Pending''), (''RUNNING'', ''Running''), (''COMPLETED'', ''Completed''), (''FAILED'', ''Failed'')]
    \<and> (1 \<le> atoi_lenient page_arg \<and> (atoi_lenient page_arg - 1) * 50 < int (length ts) \<longrightarrow> pg = atoi_lenient page_arg)"
proof -
  let ?f = "status_filter E st" and ?all = "fold add_count (count_groups d) Map.empty"
  let ?pg = "clamp_page (int (length ts)) (atoi_lenient page_arg)"
  let ?p = "take 50 (drop (nat ((?pg - 1) * 50)) ts)"
  let ?from = "if ?p \<noteq> [] then (?pg - 1) * 50 + 1 else 0"
  let ?upto = "if ?p \<noteq> [] then ?from + int (length ?p) - 1 else 0"
  have f: "0 \<noteq> length ?f \<longrightarrow> ?f \<in> set statusOrder" by (simp add: status_filter_def Let_def)
  obtain q where q: "queue_Get E qid d = (Inr (Some q), d)"
    using assms(1,3) by (auto simp: queue_Get_lookup queue_lookup_def)
  have c: "task_CountsByQueue d = (Inr ?all, d)" using assms(1) by (simp add: task_CountsByQueue_def select_def db_ok_def)
  note l = listing_page [where page = "atoi_lenient page_arg", OF assms(1,4,5) refl]
  obtain v where v: "ui_QueueDetail E qid st page_arg err notice d = (render 200 ''queue_detail.html'' v, d)"
      "qd_Tasks v = ?p" "qd_Total v = int (length ts)" "qd_From v = ?from" "qd_To v = ?upto"
      "qd_NextURL v = (if ?upto < int (length ts) then Some (queueURL qid ?f (?pg + 1)) else None)"
      "qd_PrevURL v = (if 1 < ?pg then Some (queueURL qid ?f (?pg - 1)) else None)"
      "qd_CurrentURL v = queueURL qid ?f ?pg" "qd_StatusFilter v = ?f" "qd_Error v = err" "qd_Notice v = notice"
      "qd_Counts v = newStatusCounts (?all qid)" "qd_Tabs v = detail_tabs qid ?f (newStatusCounts (?all qid)) (?all qid)"
    using q c l(2) filtered_total [OF f, of d qid] l(1) assms(2) by (simp add: ui_QueueDetail_def Let_def pageSize_def)
  note pos = page_positions [where ts = ts and page = "atoi_lenient page_arg", OF refl refl refl]
  from v(6) have n: "qd_NextURL v = (if ?pg * 50 < int (length ts) then Some (queueURL qid ?f (?pg + 1)) else None)"
    unfolding pos(3) .
  from v(5) have u: "qd_To v = (if ts = [] then 0 else min (?pg * 50) (int (length ts)))" unfolding pos(2) .
  have t: "ts \<noteq> [] \<longrightarrow> qd_Tasks v \<noteq> [] \<and> qd_From v = (?pg - 1) * 50 + 1 \<and> qd_To v = min (?pg * 50) (int (length ts))"
    unfolding v(2,4) u using pos(1) by simp
  have one: "1 \<le> ?pg" and asked: "1 \<le> atoi_lenient page_arg \<and> (atoi_lenient page_arg - 1) * 50 < int (length ts) \<longrightarrow> ?pg = atoi_lenient page_arg"
    using clamp_page_range [of "int (length ts)" "atoi_lenient page_arg"] by simp_all
  note shown = v(12) [unfolded counts_shown(3)] v(13) [unfolded tabs_shown]
  show ?thesis
    by (rule exI [of _ ?pg], rule exI [of _ v]) (intro conjI v(1-3) v(7-11) shown one asked t n)
qed

definition page_db :: db where
  "page_db = demo_db\<lparr>queue_tbl := [\<lparr>qr_id = ''q'', qr_project = ''p'', qr_location = ''l'', qr_name = ''q'', qr_rate_limit = 1,
     qr_max_concurrent = 1, qr_created_at = [], qr_state = StateRunning\<rparr>]\<rparr>"

theorem ui_queue_page_witness:
  "\<exists>v. ui_QueueDetail demo_ext ''q'' ''nonsense'' ''1'' [] [] page_db = (render 200 ''queue_detail.html'' v, page_db)
     \<and> length (qd_Tasks v) = 3 \<and> qd_From v = 1 \<and> qd_To v = 3 \<and> qd_NextURL v = None \<and> qd_PrevURL v = None"
proof -
  have ok: "db_ok page_db" using demo_db_ok by (simp add: page_db_def db_ok_def wf_db_def)
  have f: "find_queue ''q'' page_db \<noteq> None" by (simp add: page_db_def find_queue_def)
  have n: "length (task_tbl page_db) < 2 ^ 57" by (simp add: page_db_def demo_db_def)
  have s: "status_filter demo_ext ''nonsense'' = []" by code_simp
  obtain ts where ts: "task_List demo_ext ''q'' [] page_db = (Inr ts, page_db)" using listing_rows(1) [OF ok] by blast
  then have "length ts = length (rows_in ''q'' [] page_db)" using listing_rows(1) [OF ok, of demo_ext "''q''" "[]"] listing_rows(2) [OF ok, of "''q''" "[]"] by auto
  moreover have "length (rows_in ''q'' [] page_db) = 3"
    by (simp add: rows_in_def page_db_def demo_db_def demo_row_def in_listing_def)
  ultimately have l: "length ts = 3" by simp
  have a: "atoi_lenient ''1'' = 1" by code_simp
  from ui_queue_page [OF ok _ f n, where E = demo_ext and st = "''nonsense''" and ts = ts and page_arg = "''1''" and err = "[]" and notice = "[]"] ts l
  obtain pg v where v: "ui_QueueDetail demo_ext ''q'' ''nonsense'' ''1'' [] [] page_db = (render 200 ''queue_detail.html'' v, page_db)"
      "pg = 1" "qd_Tasks v = take 50 (drop (nat ((pg - 1) * 50)) ts)" "qd_From v = (pg - 1) * 50 + 1" "qd_To v = min (pg * 50) (int (length ts))"
      "qd_NextURL v = (if pg * 50 < int (length ts) then Some (queueURL ''q'' [] (pg + 1)) else None)"
      "qd_PrevURL v = (if 1 < pg then Some (queueURL ''q'' [] (pg - 1)) else None)"
    unfolding a s by auto
  with l show ?thesis by auto
qed

section \<open>The header text of a job\<close>

lemma trim_one_space:
  "trim_left_of space_encodings (CHR '' '' # s) = trim_left_of space_encodings s"
  "trim_left_of (map rev space_encodings) (CHR '' '' # s) = trim_left_of (map rev space_encodings) s"
proof -
  have "list_all (\<lambda>e. hd e = CHR '' '' \<or> last e = CHR '' '' \<longrightarrow> e = '' '') space_encodings" by code_simp
  then have e: "e = '' ''" if "e \<in> set space_encodings" "hd e = CHR '' '' \<or> last e = CHR '' ''" for e
    using that unfolding list_all_iff by blast
  have m: "'' '' \<in> set space_encodings" by code_simp
  have "find (\<lambda>e. e \<noteq> [] \<and> has_prefix (CHR '' '' # s) e) space_encodings = Some '' ''"
  proof (rule find_unique [OF m])
    fix y assume y: "y \<in> set space_encodings" "y \<noteq> [] \<and> has_prefix (CHR '' '' # s) y"
    then have "hd y = CHR '' ''" by (auto simp: has_prefix_iff Cons_eq_append_conv)
    with e [OF y(1)] show "y = '' ''" by simp
  qed (simp add: has_prefix_def)
  then show "trim_left_of space_encodings (CHR '' '' # s) = trim_left_of space_encodings s"
    by (subst trim_left_of.simps) simp
  have "find (\<lambda>e. e \<noteq> [] \<and> has_prefix (CHR '' '' # s) e) (map rev space_encodings) = Some '' ''"
  proof (rule find_unique)
    show "'' '' \<in> set (map rev space_encodings)" using m by (force simp: image_iff)
    fix y assume y: "y \<in> set (map rev space_encodings)" "y \<noteq> [] \<and> has_prefix (CHR '' '' # s) y"
    then obtain x where x: "x \<in> set space_encodings" "y = rev x" by auto
    then have "x \<noteq> []" using y(2) by auto
    have "hd y = CHR '' ''" using y(2) by (auto simp: has_prefix_iff Cons_eq_append_conv)
    with x(2) \<open>x \<noteq> []\<close> e [OF x(1)] show "y = '' ''" by (simp add: hd_rev)
  qed (simp add: has_prefix_def)
  then show "trim_left_of (map rev space_encodings) (CHR '' '' # s) = trim_left_of (map rev space_encodings) s"
    by (subst trim_left_of.simps) simp
qed

lemma trim_space_front: "trim_space (CHR '' '' # s) = trim_space s"
  by (simp add: trim_space_def trim_one_space)

lemma trim_space_end:
  assumes "s \<noteq> []" "visible (hd s)"
  shows "trim_space (s @ '' '') = trim_space s"
proof -
  have "trim_left_of space_encodings s = s" "trim_left_of space_encodings (s @ '' '') = s @ '' ''"
    using assms space_ends by (intro trim_left_of_id; metis hd_append2)+
  then show ?thesis by (simp add: trim_space_def trim_one_space)
qed

text \<open>Header entries a line can carry: what an HTTP header allows, with no blanks at the ends.\<close>

definition plain_text :: "string \<Rightarrow> bool" where
  "plain_text s \<longleftrightarrow> s = [] \<or> visible (hd s) \<and> visible (last s)"

definition header_ok :: "string \<times> string \<Rightarrow> bool" where
  "header_ok kv \<longleftrightarrow> fst kv \<noteq> [] \<and> plain_text (fst kv) \<and> plain_text (snd kv)
     \<and> colon \<notin> set (fst kv) \<and> newline \<notin> set (fst kv) \<and> newline \<notin> set (snd kv)"

lemma plain_trim [simp]: "plain_text s \<Longrightarrow> trim_space s = s"
  by (cases "s = []") (auto simp: plain_text_def trim_space_id)

lemma put_header_line_ok:
  assumes "header_ok kv"
  shows "put_header_line (header_line kv) out = AList.update (fst kv) (snd kv) out"
proof -
  obtain k v where kv: "kv = (k, v)" by (cases kv)
  have k: "k \<noteq> []" "visible (hd k)" "visible (last k)" "colon \<notin> set k" and v: "plain_text v"
    using assms by (auto simp: kv header_ok_def plain_text_def)
  have c: "visible colon" by (simp add: visible_def)
  show ?thesis
  proof (cases "v = []")
    case True
    have "trim_space ((k @ '':'') @ '' '') = k @ '':''"
      using k c by (subst trim_space_end) (simp_all add: trim_space_id)
    then show ?thesis using True k go_cut_append [OF k(4), of "[]"]
      by (simp add: kv header_line_def put_header_line_def trim_space_id)
  next
    case False
    then have "trim_space (k @ '': '' @ v) = k @ '': '' @ v"
      using k v by (intro trim_space_id) (simp_all add: plain_text_def)
    then show ?thesis using k v go_cut_append [OF k(4), of "CHR '' '' # v"]
      by (simp add: kv header_line_def put_header_line_def trim_space_id trim_space_front)
  qed
qed

lemma map_of_updates:
  "distinct (map fst kvs) \<Longrightarrow>
   map_of (fold (\<lambda>kv. AList.update (fst kv) (snd kv)) kvs out) = map_of out ++ map_of kvs"
proof (induction kvs arbitrary: out)
  case (Cons kv kvs)
  then have "map_of kvs (fst kv) = None" by (simp add: map_of_eq_None_iff)
  with Cons show ?case by (auto simp: update_conv' map_add_def fun_eq_iff split: option.splits)
qed simp

lemma go_split_join:
  "ls \<noteq> [] \<Longrightarrow> \<forall>l \<in> set ls. c \<notin> set l \<Longrightarrow> go_split c (go_join c ls) = ls"
proof (induction ls rule: induct_list012)
  case (3 x y zs)
  then show ?case by (simp add: go_split_append)
qed (simp_all add: go_split_nosep)

lemma sort_map: "sort (map f xs) = map f (sort_key f xs)"
  by (rule properties_for_sort) simp_all

definition header_map :: "headers option \<Rightarrow> string \<rightharpoonup> string" where
  "header_map hs = (case hs of None \<Rightarrow> Map.empty | Some h \<Rightarrow> map_of h)"

text \<open>
  The header lines of the form are read back as the same map, when every entry fits on a line; the
  entries may come in another order.
\<close>

lemma parse_header_lines:
  assumes "case hs of None \<Rightarrow> True | Some h \<Rightarrow> list_all header_ok h \<and> distinct (map fst h)"
  shows "header_map (parseHeaderLines (header_lines hs)) = header_map hs"
proof -
  define h where "h = (case hs of None \<Rightarrow> [] | Some h \<Rightarrow> h)"
  have h: "list_all header_ok h" "distinct (map fst h)" "header_map hs = map_of h"
    using assms by (cases hs; simp add: h_def header_map_def)+
  let ?s = "sort_key header_line h"
  have lines: "header_lines hs = go_join newline (map header_line ?s)"
    by (simp add: header_lines_def h_def sort_map)
  have fold: "fold put_header_line (map header_line ?s) [] = fold (\<lambda>kv. AList.update (fst kv) (snd kv)) ?s []"
    unfolding fold_map comp_def using h(1) by (intro fold_cong ext) (simp_all add: list_all_iff put_header_line_ok)
  have "distinct (map fst ?s)" using h(2) by (simp add: distinct_map)
  then have m: "map_of ?s = map_of h" using h(2) by (subst map_of_inject_set) simp_all
  have parsed: "fold put_header_line (go_split newline (header_lines hs)) []
      = fold (\<lambda>kv. AList.update (fst kv) (snd kv)) ?s []"
  proof (cases "h = []")
    case True
    then show ?thesis unfolding lines by (simp add: put_header_line_def)
  next
    case False
    have "newline \<notin> set (header_line kv)" if "kv \<in> set h" for kv
      using h(1) that by (auto simp: list_all_iff header_ok_def header_line_def)
    then have "go_split newline (header_lines hs) = map header_line ?s"
      unfolding lines using False by (intro go_split_join) (auto simp flip: set_empty)
    then show ?thesis using fold by simp
  qed
  have "map_of (fold (\<lambda>kv. AList.update (fst kv) (snd kv)) ?s []) = map_of h"
    using map_of_updates [OF \<open>distinct (map fst ?s)\<close>, of "[]"] m by simp
  then show ?thesis using parsed h(3) by (auto simp: parseHeaderLines_def header_map_def Let_def)
qed

end
