(* ===== verification/Router.thy ===== *)
theory Router
  imports Ui_Jobs
begin

text \<open>
  api/router.go: the table of patterns given to \<^verbatim>\<open>http.ServeMux\<close>, the matching rules of the mux
  (Go 1.22 and later) that the table relies on, and the handlers behind it. A request path is the
  list of its unescaped segments, in which, as in the mux, a trailing slash is the segment
  \<^verbatim>\<open>/\<close>; it is already cleaned (a request for an uncleaned path is redirected by net/http to
  the cleaned one, which is not modelled). Shown: at most one pattern matches a request, so the
  precedence of patterns never matters, and the names of resources are the paths they are served at.
\<close>

section \<open>Patterns\<close>

datatype seg = Lit string | Wild string

text \<open>\<^verbatim>\<open>{$}\<close> is the literal trailing slash.\<close>

abbreviation end_slash :: seg where "end_slash \<equiv> Lit ''/''"

datatype handler =
    Health
  | QueueCreate | QueueList | QueueGet | QueueDelete | QueueAction
  | TaskCreate | TaskList | TaskGet | TaskDelete | TaskRun | TaskAction
  | JobCreate | JobList | JobGet | JobUpdate | JobDelete | JobAction
  | UiListQueues | UiCreateQueue | UiQueueDetail | UiDeleteQueue | UiRetryTask | UiRunTask | UiDeleteTask
  | UiPauseQueue | UiResumeQueue | UiPurgeQueue | UiTaskDetail | UiIndex
  | UiListJobs | UiCreateJob | UiJobDetail | UiUpdateJob | UiPauseJob | UiResumeJob | UiRunJob | UiDeleteJob

type_synonym pattern = "string \<times> seg list \<times> handler"

definition queues_base :: "seg list" where
  "queues_base = [Lit ''v2'', Lit ''projects'', Wild ''project'', Lit ''locations'', Wild ''location'', Lit ''queues'']"

definition queue_base :: "seg list" where "queue_base = queues_base @ [Wild ''queue'']"
definition tasks_base :: "seg list" where "tasks_base = queue_base @ [Lit ''tasks'']"
definition task_base :: "seg list" where "task_base = tasks_base @ [Wild ''task'']"

definition job_base :: "seg list" where
  "job_base = [Lit ''v1'', Lit ''projects'', Wild ''project'', Lit ''locations'', Wild ''location'', Lit ''jobs'']"

definition api_routes :: "pattern list" where
  "api_routes =
     [(''GET'', [Lit ''health''], Health),
      (''POST'', queues_base, QueueCreate), (''GET'', queues_base, QueueList),
      (''GET'', queue_base, QueueGet), (''DELETE'', queue_base, QueueDelete), (''POST'', queue_base, QueueAction),
      (''POST'', tasks_base, TaskCreate), (''GET'', tasks_base, TaskList),
      (''GET'', task_base, TaskGet), (''DELETE'', task_base, TaskDelete),
      (''POST'', task_base @ [Lit ''run''], TaskRun), (''POST'', task_base, TaskAction)]"

definition ui_routes :: "pattern list" where
  "ui_routes =
     [(''GET'', [Lit ''ui'', Lit ''queues''], UiListQueues), (''POST'', [Lit ''ui'', Lit ''queues''], UiCreateQueue),
      (''GET'', [Lit ''ui'', Lit ''queue''], UiQueueDetail),
      (''POST'', [Lit ''ui'', Lit ''queue'', Lit ''delete''], UiDeleteQueue),
      (''POST'', [Lit ''ui'', Lit ''queue'', Lit ''tasks'', Lit ''retry''], UiRetryTask),
      (''POST'', [Lit ''ui'', Lit ''queue'', Lit ''tasks'', Lit ''run''], UiRunTask),
      (''POST'', [Lit ''ui'', Lit ''queue'', Lit ''tasks'', Lit ''delete''], UiDeleteTask),
      (''POST'', [Lit ''ui'', Lit ''queue'', Lit ''pause''], UiPauseQueue),
      (''POST'', [Lit ''ui'', Lit ''queue'', Lit ''resume''], UiResumeQueue),
      (''POST'', [Lit ''ui'', Lit ''queue'', Lit ''purge''], UiPurgeQueue),
      (''GET'', [Lit ''ui'', Lit ''task''], UiTaskDetail),
      (''GET'', [Lit ''ui'', end_slash], UiIndex), (''GET'', [Lit ''ui''], UiIndex)]"

definition job_routes :: "pattern list" where
  "job_routes =
     [(''POST'', job_base, JobCreate), (''GET'', job_base, JobList),
      (''GET'', job_base @ [Wild ''job''], JobGet), (''PATCH'', job_base @ [Wild ''job''], JobUpdate),
      (''DELETE'', job_base @ [Wild ''job''], JobDelete), (''POST'', job_base @ [Wild ''job''], JobAction),
      (''GET'', [Lit ''ui'', Lit ''jobs''], UiListJobs), (''POST'', [Lit ''ui'', Lit ''jobs''], UiCreateJob),
      (''GET'', [Lit ''ui'', Lit ''job''], UiJobDetail),
      (''POST'', [Lit ''ui'', Lit ''job'', Lit ''update''], UiUpdateJob),
      (''POST'', [Lit ''ui'', Lit ''job'', Lit ''pause''], UiPauseJob),
      (''POST'', [Lit ''ui'', Lit ''job'', Lit ''resume''], UiResumeJob),
      (''POST'', [Lit ''ui'', Lit ''job'', Lit ''run''], UiRunJob),
      (''POST'', [Lit ''ui'', Lit ''job'', Lit ''delete''], UiDeleteJob)]"

definition NewRouter :: "pattern list" where
  "NewRouter = api_routes @ ui_routes @ job_routes"

section \<open>Matching\<close>

text \<open>A literal matches itself; a wildcard matches one segment other than a trailing slash.\<close>

fun match_path :: "seg list \<Rightarrow> string list \<Rightarrow> (string \<times> string) list option" where
  "match_path [] [] = Some []"
| "match_path (Lit l # ps) (s # ss) = (if s = l then match_path ps ss else None)"
| "match_path (Wild x # ps) (s # ss) =
     (if s = ''/'' then None else map_option (\<lambda>m. (x, s) # m) (match_path ps ss))"
| "match_path _ _ = None"

definition value_of :: "(string \<times> string) list \<Rightarrow> string \<Rightarrow> string" where
  "value_of m x = (case map_of m x of None \<Rightarrow> [] | Some v \<Rightarrow> v)"

definition path_values_of :: "(string \<times> string) list \<Rightarrow> path_values" where
  "path_values_of m =
     \<lparr>pv_project = value_of m ''project'', pv_location = value_of m ''location'', pv_queue = value_of m ''queue'',
      pv_task = value_of m ''task'', pv_job = value_of m ''job''\<rparr>"

definition matches :: "string \<Rightarrow> string list \<Rightarrow> pattern \<Rightarrow> bool" where
  "matches meth path r = (fst r = meth \<and> match_path (fst (snd r)) path \<noteq> None)"

text \<open>The patterns with the method of the request, and for HEAD those with GET when there are none.\<close>

definition matching :: "pattern list \<Rightarrow> string \<Rightarrow> string list \<Rightarrow> pattern list" where
  "matching routes meth path =
     (let exact = filter (matches meth path) routes in
      if exact = [] \<and> meth = ''HEAD'' then filter (matches ''GET'' path) routes else exact)"

datatype routed =
    Handle handler path_values
  | MovedPermanently "string list"
  | MethodNotAllowed "string list"
  | NoRoute

definition ends_in_slash :: "string list \<Rightarrow> bool" where
  "ends_in_slash path = (path \<noteq> [] \<and> last path = ''/'')"

text \<open>The methods of the \<^verbatim>\<open>Allow\<close> header: sorted, with HEAD where GET is allowed.\<close>

definition allowed_methods :: "pattern list \<Rightarrow> string list \<Rightarrow> string list" where
  "allowed_methods routes path =
     (let allow = map fst (filter (\<lambda>r. match_path (fst (snd r)) path \<noteq> None
                 \<or> \<not> ends_in_slash path \<and> match_path (fst (snd r)) (path @ [''/'']) \<noteq> None) routes)
      in sort (remdups (allow @ (if ''GET'' \<in> set allow then [''HEAD''] else []))))"

definition ServeMux :: "pattern list \<Rightarrow> string \<Rightarrow> string list \<Rightarrow> routed" where
  "ServeMux routes meth path =
     (case matching routes meth path of
        (_, pat, h) # _ \<Rightarrow> Handle h (path_values_of (the (match_path pat path)))
      | [] \<Rightarrow>
          if \<not> ends_in_slash path \<and> matching routes meth (path @ [''/'']) \<noteq> [] then MovedPermanently (path @ [''/''])
          else case allowed_methods routes path of [] \<Rightarrow> NoRoute | allow \<Rightarrow> MethodNotAllowed allow)"

section \<open>No two patterns match the same request\<close>

fun overlap :: "seg list \<Rightarrow> seg list \<Rightarrow> bool" where
  "overlap [] [] = True"
| "overlap (Lit a # ps) (Lit b # qs) = (a = b \<and> overlap ps qs)"
| "overlap (Lit a # ps) (Wild y # qs) = (a \<noteq> ''/'' \<and> overlap ps qs)"
| "overlap (Wild x # ps) (Lit b # qs) = (b \<noteq> ''/'' \<and> overlap ps qs)"
| "overlap (Wild x # ps) (Wild y # qs) = overlap ps qs"
| "overlap _ _ = False"

fun seg_match :: "seg \<Rightarrow> string \<Rightarrow> bool" where
  "seg_match (Lit l) s = (s = l)"
| "seg_match (Wild x) s = (s \<noteq> ''/'')"

lemma match_Nil: "match_path p [] \<noteq> None \<longleftrightarrow> p = []"
  by (cases "(p, [] :: string list)" rule: match_path.cases) auto

lemma match_Cons:
  "match_path p (s # ss) \<noteq> None \<longleftrightarrow> (\<exists>x ps. p = x # ps \<and> seg_match x s \<and> match_path ps ss \<noteq> None)"
  by (cases "(p, s # ss)" rule: match_path.cases) auto

lemma overlap_Cons: "seg_match x s \<Longrightarrow> seg_match y s \<Longrightarrow> overlap ps qs \<Longrightarrow> overlap (x # ps) (y # qs)"
  by (cases x; cases y) auto

lemma match_overlap: "match_path p path \<noteq> None \<Longrightarrow> match_path q path \<noteq> None \<Longrightarrow> overlap p q"
proof (induction path arbitrary: p q)
  case Nil
  then have "p = []" "q = []" by (simp_all only: match_Nil)
  then show ?case by simp
next
  case (Cons s ss)
  from Cons.prems obtain x ps y qs where "p = x # ps" "q = y # qs" "seg_match x s" "seg_match y s"
      "match_path ps ss \<noteq> None" "match_path qs ss \<noteq> None"
    unfolding match_Cons by blast
  then show ?case using Cons.IH [of ps qs] overlap_Cons [of x s y ps qs] by blast
qed

definition disjoint_patterns :: "pattern \<Rightarrow> pattern \<Rightarrow> bool" where
  "disjoint_patterns r s = (fst r = fst s \<longrightarrow> \<not> overlap (fst (snd r)) (fst (snd s)))"

lemma matches_once:
  assumes "sorted_wrt disjoint_patterns routes"
  shows "length (filter (matches meth path) routes) \<le> 1"
  using assms
proof (induction routes)
  case (Cons r routes)
  show ?case
  proof (cases "matches meth path r")
    case True
    have "\<not> matches meth path s" if s: "s \<in> set routes" for s
    proof
      assume "matches meth path s"
      with True have "fst r = fst s" "overlap (fst (snd r)) (fst (snd s))"
        using match_overlap [of "fst (snd r)" path "fst (snd s)"] unfolding matches_def by metis+
      with Cons.prems s show False by (simp add: disjoint_patterns_def)
    qed
    then have "filter (matches meth path) routes = []" by (simp add: filter_empty_conv)
    then show ?thesis by simp
  next
    case False
    with Cons show ?thesis by simp
  qed
qed simp

lemma NewRouter_disjoint: "sorted_wrt disjoint_patterns NewRouter"
  by code_simp

text \<open>\<^verbatim>\<open>GET\<close> of the two addresses of the start page are both registered, so nothing is redirected.\<close>

lemma match_end_slash: "match_path p (path @ [''/'']) \<noteq> None \<Longrightarrow> p \<noteq> [] \<and> last p = end_slash"
proof (induction path arbitrary: p)
  case Nil
  then obtain x where "p = [x]" "seg_match x ''/''" unfolding append.simps match_Cons match_Nil by blast
  then show ?case by (cases x) auto
next
  case (Cons s path)
  then obtain x ps where "p = x # ps" "match_path ps (path @ [''/'']) \<noteq> None" unfolding append.simps match_Cons by blast
  with Cons.IH [of ps] show ?case by auto
qed

lemma end_slash_routes: "list_all (\<lambda>r. last (fst (snd r)) = end_slash \<longrightarrow> r = (''GET'', [Lit ''ui'', end_slash], UiIndex)) NewRouter"
  by code_simp

lemma ui_root: "(''GET'', [Lit ''ui''], UiIndex) \<in> set NewRouter"
  by (simp add: NewRouter_def ui_routes_def)

lemma matching_mem:
  "r \<in> set (matching routes meth path) \<Longrightarrow> r \<in> set routes \<and> match_path (fst (snd r)) path \<noteq> None
     \<and> (fst r = meth \<or> meth = ''HEAD'' \<and> fst r = ''GET'')"
  by (auto simp: matching_def matches_def Let_def split: if_splits)

lemma no_mux_redirect: "ServeMux NewRouter meth path \<noteq> MovedPermanently q"
proof
  assume m: "ServeMux NewRouter meth path = MovedPermanently q"
  then have e: "matching NewRouter meth path = []" and s: "matching NewRouter meth (path @ [''/'']) \<noteq> []"
    by (auto simp: ServeMux_def split: list.splits if_splits)
  then obtain r where "r \<in> set (matching NewRouter meth (path @ [''/'']))" by (metis list.set_sel(1))
  note r = matching_mem [OF this]
  then have g: "r = (''GET'', [Lit ''ui'', end_slash], UiIndex)"
    using match_end_slash [of "fst (snd r)" path] end_slash_routes unfolding list_all_iff by blast
  with r have "path = [''ui'']" by (cases path; cases "tl path"; cases "tl (tl path)") (auto split: if_splits)
  then have "(''GET'', [Lit ''ui''], UiIndex) \<in> set (filter (matches ''GET'' path) NewRouter)"
    using ui_root by (simp add: matches_def)
  then have "filter (matches ''GET'' path) NewRouter \<noteq> []" by (cases "filter (matches ''GET'' path) NewRouter") simp_all
  moreover have "meth = ''GET'' \<or> meth = ''HEAD''" using r g by auto
  ultimately show False using e by (auto simp: matching_def Let_def split: if_splits)
qed

section \<open>The handlers behind the routes\<close>

text \<open>
  A request: the query as \<^verbatim>\<open>URL.Query().Get\<close> reads it, the form as \<^verbatim>\<open>FormValue\<close> does, and the body.
  \<open>env\<close> holds what a handler takes from its surroundings: the clocks, a fresh identifier, the JSON
  decoders and the text functions that are parameters of the handlers.
\<close>

record request =
  rq_method :: string
  rq_path :: "string list"
  rq_query :: "string \<Rightarrow> string"
  rq_form :: "string \<Rightarrow> string"
  rq_body :: string

record env =
  ev_now :: time
  ev_wall :: time
  ev_uuid :: string
  ev_queue :: "string \<Rightarrow> string + createQueueRequest"
  ev_task :: "string \<Rightarrow> string + createTaskRequest"
  ev_job :: "string \<Rightarrow> string + jobJSON"
  ev_escape :: "string \<Rightarrow> string"
  ev_utf8 :: "string \<Rightarrow> bool"
  ev_indent :: "string \<Rightarrow> string option"

datatype response =
    HealthReply int string
  | QueueReply "queueResponse reply"
  | QueuesReply "queueResponse list reply"
  | TaskReply "taskResponse reply"
  | TasksReply "listTasksResponse reply"
  | RunReply "(string + taskResponse) reply"
  | JobReply "jobJSON reply"
  | JobsReply "jobJSON list reply"
  | EmptyReply "unit reply"
  | QueuesPage "queuesPageData ui_reply"
  | QueuePage "queueDetailData ui_reply"
  | TaskPage "taskDetailData ui_reply"
  | JobsPage "jobsPageData ui_reply"
  | JobPage "(jobView \<times> string) ui_reply"
  | Redirect "unit ui_reply"
  | MuxRedirect "string list"
  | MuxError int "string list"
  | Panic

text \<open>What a request leaves behind: the response, the execution it starts in the background, the database.\<close>

type_synonym served = "response \<times> (Job \<times> time) option \<times> db"

definition served :: "('a \<Rightarrow> response) \<Rightarrow> 'a \<times> db \<Rightarrow> served" where
  "served wrap r = (wrap (fst r), None, snd r)"

definition served_run :: "('a \<Rightarrow> response) \<Rightarrow> 'a \<times> (Job \<times> time) option \<times> db \<Rightarrow> served" where
  "served_run wrap r = (wrap (fst r), snd r)"

definition job_created :: "jobJSON reply option \<Rightarrow> response" where
  "job_created r = (case r of None \<Rightarrow> Panic | Some r \<Rightarrow> JobReply r)"

definition queue_form_of :: "request \<Rightarrow> queue_form" where
  "queue_form_of rq =
     \<lparr>qf_project = rq_form rq ''project'', qf_location = rq_form rq ''location'', qf_name = rq_form rq ''name'',
      qf_max_dispatches_per_second = rq_form rq ''max_dispatches_per_second'',
      qf_max_concurrent_dispatches = rq_form rq ''max_concurrent_dispatches''\<rparr>"

definition job_form_of :: "request \<Rightarrow> job_form" where
  "job_form_of rq =
     \<lparr>jf_project = rq_form rq ''project'', jf_location = rq_form rq ''location'', jf_name = rq_form rq ''name'',
      jf_description = rq_form rq ''description'', jf_schedule = rq_form rq ''schedule'',
      jf_time_zone = rq_form rq ''time_zone'', jf_http_method = rq_form rq ''http_method'',
      jf_url = rq_form rq ''url'', jf_headers = rq_form rq ''headers'', jf_body = rq_form rq ''body'',
      jf_retry_count = rq_form rq ''retry_count''\<rparr>"

definition healthHandler :: response where
  "healthHandler = HealthReply StatusOK (''{'' @ [CHR 0x22] @ ''status'' @ [CHR 0x22] @ '':'' @ [CHR 0x22] @ ''ok'' @ [CHR 0x22] @ ''}'')"

text \<open>The last equation is \<^verbatim>\<open>Index\<close>.\<close>

fun ui_handler :: "ext \<Rightarrow> Config \<Rightarrow> env \<Rightarrow> handler \<Rightarrow> request \<Rightarrow> db \<Rightarrow> served" where
  "ui_handler E cfg v UiListQueues rq d =
     served QueuesPage (ui_ListQueues E cfg (rq_query rq ''error'') (rq_query rq ''notice'') d)"
| "ui_handler E cfg v UiCreateQueue rq d = served Redirect (ui_CreateQueue E cfg (ev_wall v) (queue_form_of rq) d)"
| "ui_handler E cfg v UiQueueDetail rq d =
     served QueuePage (ui_QueueDetail E (rq_query rq ''queue'') (rq_query rq ''status'') (rq_query rq ''page'')
       (rq_query rq ''error'') (rq_query rq ''notice'') d)"
| "ui_handler E cfg v UiDeleteQueue rq d = served Redirect (ui_DeleteQueue (rq_form rq ''queue'') (rq_form rq ''next'') d)"
| "ui_handler E cfg v UiPauseQueue rq d = served Redirect (ui_PauseQueue (rq_form rq ''queue'') (rq_form rq ''next'') d)"
| "ui_handler E cfg v UiResumeQueue rq d = served Redirect (ui_ResumeQueue (rq_form rq ''queue'') (rq_form rq ''next'') d)"
| "ui_handler E cfg v UiPurgeQueue rq d = served Redirect (ui_PurgeQueue E (rq_form rq ''queue'') (rq_form rq ''next'') d)"
| "ui_handler E cfg v UiRetryTask rq d =
     served Redirect (ui_RetryTask (ev_escape v) (ev_now v) (rq_form rq ''queue'') (rq_form rq ''task'') (rq_form rq ''next'') d)"
| "ui_handler E cfg v UiRunTask rq d =
     served Redirect (ui_RunTask (ev_escape v) (ev_now v) (rq_form rq ''queue'') (rq_form rq ''task'') (rq_form rq ''next'') d)"
| "ui_handler E cfg v UiDeleteTask rq d =
     served Redirect (ui_DeleteTask (ev_escape v) (rq_form rq ''queue'') (rq_form rq ''task'') (rq_form rq ''next'') d)"
| "ui_handler E cfg v UiTaskDetail rq d =
     served TaskPage (ui_TaskDetail E (ev_utf8 v) (ev_indent v) (rq_query rq ''queue'') (rq_query rq ''task'') (rq_query rq ''notice'') d)"
| "ui_handler E cfg v UiListJobs rq d = served JobsPage (ui_ListJobs E cfg (ev_wall v) (rq_query rq ''error'') d)"
| "ui_handler E cfg v UiCreateJob rq d =
     served Redirect (ui_CreateJob E (ev_escape v) cfg (ev_now v) (ev_wall v) (job_form_of rq) d)"
| "ui_handler E cfg v UiJobDetail rq d = served JobPage (ui_JobDetail E (rq_query rq ''job'') (rq_query rq ''error'') d)"
| "ui_handler E cfg v UiUpdateJob rq d =
     served Redirect (ui_UpdateJob E (ev_escape v) (ev_now v) (ev_wall v) (rq_form rq ''job'') (job_form_of rq) d)"
| "ui_handler E cfg v UiPauseJob rq d =
     served Redirect (ui_PauseJob E (ev_escape v) (ev_wall v) (rq_form rq ''job'') (rq_form rq ''from'') d)"
| "ui_handler E cfg v UiResumeJob rq d =
     served Redirect (ui_ResumeJob E (ev_escape v) (ev_now v) (ev_wall v) (rq_form rq ''job'') (rq_form rq ''from'') d)"
| "ui_handler E cfg v UiRunJob rq d =
     served_run Redirect (ui_RunJob E (ev_escape v) (ev_now v) (rq_form rq ''job'') (rq_form rq ''from'') d)"
| "ui_handler E cfg v UiDeleteJob rq d = served Redirect (ui_DeleteJob (ev_escape v) (rq_form rq ''job'') d)"
| "ui_handler E cfg v _ rq d = (Redirect (redirect ''/ui/queues''), None, d)"

fun api_handler :: "ext \<Rightarrow> Config \<Rightarrow> env \<Rightarrow> handler \<Rightarrow> path_values \<Rightarrow> request \<Rightarrow> db \<Rightarrow> served" where
  "api_handler E cfg v QueueCreate p rq d =
     served QueueReply (rest_queue_Create E cfg (ev_wall v) p (ev_queue v (rq_body rq)) d)"
| "api_handler E cfg v QueueList p rq d = served QueuesReply (rest_queue_List E cfg p d)"
| "api_handler E cfg v QueueGet p rq d = served QueueReply (rest_queue_Get E cfg p d)"
| "api_handler E cfg v QueueDelete p rq d = served EmptyReply (rest_queue_Delete cfg p d)"
| "api_handler E cfg v QueueAction p rq d = served QueueReply (rest_queue_Action E p d)"
| "api_handler E cfg v TaskCreate p rq d =
     served TaskReply (rest_task_Create E cfg (ev_now v) (ev_wall v) (ev_uuid v) p (ev_task v (rq_body rq)) d)"
| "api_handler E cfg v TaskList p rq d =
     served TasksReply (rest_task_List E cfg p (rq_query rq ''status'') (rq_query rq ''pageSize'') (rq_query rq ''pageToken'') d)"
| "api_handler E cfg v TaskGet p rq d = served TaskReply (rest_task_Get E cfg p d)"
| "api_handler E cfg v TaskDelete p rq d = served EmptyReply (rest_task_Delete cfg p d)"
| "api_handler E cfg v TaskRun p rq d = served RunReply (rest_task_Run E cfg (ev_now v) p d)"
| "api_handler E cfg v TaskAction p rq d = served RunReply (rest_task_Action E cfg (ev_now v) p d)"
| "api_handler E cfg v JobCreate p rq d =
     served job_created (rest_job_Create E (ev_now v) (ev_wall v) p (ev_job v (rq_body rq)) d)"
| "api_handler E cfg v JobList p rq d = served JobsReply (rest_job_List E p d)"
| "api_handler E cfg v JobGet p rq d = served JobReply (rest_job_Get E p d)"
| "api_handler E cfg v JobUpdate p rq d =
     served JobReply (rest_job_Update E (ev_now v) (ev_wall v) p (ev_job v (rq_body rq)) (rq_query rq ''updateMask'') d)"
| "api_handler E cfg v JobDelete p rq d = served EmptyReply (rest_job_Delete p d)"
| "api_handler E cfg v JobAction p rq d = served_run JobReply (rest_job_Action E (ev_now v) (ev_wall v) p d)"
| "api_handler E cfg v Health p rq d = (healthHandler, None, d)"
| "api_handler E cfg v h p rq d = ui_handler E cfg v h rq d"

definition serve :: "ext \<Rightarrow> Config \<Rightarrow> env \<Rightarrow> request \<Rightarrow> db \<Rightarrow> served" where
  "serve E cfg v rq d =
     (case ServeMux NewRouter (rq_method rq) (rq_path rq) of
        Handle h p \<Rightarrow> api_handler E cfg v h p rq d
      | MovedPermanently path \<Rightarrow> (MuxRedirect path, None, d)
      | MethodNotAllowed allow \<Rightarrow> (MuxError 405 allow, None, d)
      | NoRoute \<Rightarrow> (MuxError StatusNotFound [], None, d))"

end
