(* ===== verification/Http_Props.thy ===== *)
theory Http_Props
  imports Router Rest_Props
begin

text \<open>
  The properties of the composed HTTP server: the routes, and the life of a task as a client of the
  REST interface sees it, from the request line through the router, the handler, the repository and
  the database and back.
\<close>

section \<open>Routes\<close>

text \<open>
  C39: the table of routes is unambiguous. Whatever the method and the path, at most one pattern
  matches (so registering the patterns cannot conflict, and their precedence does not matter), and no
  path is answered by a redirect to the same path with a trailing slash. The path is the one the mux
  matches, already cleaned: a request for an uncleaned path (with empty segments or dots) is
  redirected by net/http to its cleaned form before any pattern is tried, which is not modelled.
\<close>

theorem routes_unambiguous:
  "length (matching NewRouter meth path) \<le> 1 \<and> ServeMux NewRouter meth path \<noteq> MovedPermanently q"
  using matches_once [OF NewRouter_disjoint] no_mux_redirect by (auto simp: matching_def Let_def)

text \<open>The path of a resource: its name behind the version prefix.\<close>

definition segments :: "string \<Rightarrow> string list" where
  "segments name = go_split slash name"

lemma segments_queue:
  assumes "slash \<notin> set pr" "slash \<notin> set l" "slash \<notin> set q"
  shows "segments (queue_path pr l q) = [''projects'', pr, ''locations'', l, ''queues'', q]"
    and "slash \<notin> set t \<Longrightarrow> segments (queue_path pr l q @ ''/tasks/'' @ t)
      = [''projects'', pr, ''locations'', l, ''queues'', q, ''tasks'', t]"
  using go_split_append [of slash "''projects''"] go_split_append [OF assms(1)]
    go_split_append [of slash "''locations''"] go_split_append [OF assms(2)]
    go_split_append [of slash "''queues''"] go_split_append [OF assms(3)] go_split_append [of slash "''tasks''"]
    go_split_nosep [OF assms(3)] go_split_nosep [of slash t]
  by (simp_all add: queue_path_def segments_def)

lemma unslashed: "slash \<notin> set s \<Longrightarrow> s \<noteq> ''/''"
  by auto

lemma first_match:
  assumes "(meth, pat, h) \<in> set NewRouter" "match_path pat path = Some m"
  shows "ServeMux NewRouter meth path = Handle h (path_values_of m)"
proof -
  have "(meth, pat, h) \<in> set (filter (matches meth path) NewRouter)" using assms by (simp add: matches_def)
  moreover have "length (filter (matches meth path) NewRouter) \<le> 1" by (rule matches_once [OF NewRouter_disjoint])
  ultimately have "filter (matches meth path) NewRouter = [(meth, pat, h)]"
    by (cases "filter (matches meth path) NewRouter") auto
  then show ?thesis using assms(2) by (simp add: ServeMux_def matching_def)
qed

lemma task_routes:
  assumes "slash \<notin> set pr" "slash \<notin> set l" "slash \<notin> set q" "slash \<notin> set t"
  shows "ServeMux NewRouter ''POST'' (''v2'' # segments (queue_path pr l q) @ [''tasks''])
      = Handle TaskCreate \<lparr>pv_project = pr, pv_location = l, pv_queue = q, pv_task = [], pv_job = []\<rparr>"
    and "ServeMux NewRouter ''GET'' (''v2'' # segments (queue_path pr l q @ ''/tasks/'' @ t))
      = Handle TaskGet \<lparr>pv_project = pr, pv_location = l, pv_queue = q, pv_task = t, pv_job = []\<rparr>"
    and "ServeMux NewRouter ''DELETE'' (''v2'' # segments (queue_path pr l q @ ''/tasks/'' @ t))
      = Handle TaskDelete \<lparr>pv_project = pr, pv_location = l, pv_queue = q, pv_task = t, pv_job = []\<rparr>"
proof -
  note u = assms [THEN unslashed]
  have m: "match_path tasks_base (''v2'' # segments (queue_path pr l q) @ [''tasks''])
      = Some [(''project'', pr), (''location'', l), (''queue'', q)]"
    and t: "match_path task_base (''v2'' # segments (queue_path pr l q @ ''/tasks/'' @ t))
      = Some [(''project'', pr), (''location'', l), (''queue'', q), (''task'', t)]"
    using u unfolding segments_queue(1) [OF assms(1-3)] segments_queue(2) [OF assms]
    by (simp_all add: tasks_base_def queue_base_def queues_base_def task_base_def)
  have r: "(''POST'', tasks_base, TaskCreate) \<in> set NewRouter" "(''GET'', task_base, TaskGet) \<in> set NewRouter"
      "(''DELETE'', task_base, TaskDelete) \<in> set NewRouter"
    unfolding NewRouter_def api_routes_def by (simp_all only: set_append list.set insert_iff Un_iff simp_thms)
  show "ServeMux NewRouter ''POST'' (''v2'' # segments (queue_path pr l q) @ [''tasks''])
      = Handle TaskCreate \<lparr>pv_project = pr, pv_location = l, pv_queue = q, pv_task = [], pv_job = []\<rparr>"
    using first_match [OF r(1) m] by (simp add: path_values_of_def value_of_def)
  show "ServeMux NewRouter ''GET'' (''v2'' # segments (queue_path pr l q @ ''/tasks/'' @ t))
      = Handle TaskGet \<lparr>pv_project = pr, pv_location = l, pv_queue = q, pv_task = t, pv_job = []\<rparr>"
    using first_match [OF r(2) t] by (simp add: path_values_of_def value_of_def)
  show "ServeMux NewRouter ''DELETE'' (''v2'' # segments (queue_path pr l q @ ''/tasks/'' @ t))
      = Handle TaskDelete \<lparr>pv_project = pr, pv_location = l, pv_queue = q, pv_task = t, pv_job = []\<rparr>"
    using first_match [OF r(3) t] by (simp add: path_values_of_def value_of_def)
qed

section \<open>The life of a task\<close>

lemma task_id_plain:
  assumes "task_id E uuid qid name = Inr tid" "slash \<notin> set uuid"
  shows "slash \<notin> set tid"
  using assms by (auto simp: task_id_def task_ValidateID_def Let_def match_name_no_sep split: if_splits option.splits)

lemma validated_name:
  assumes "rest_task_validated E cfg now uuid qid decoded = Inr t" "slash \<notin> set uuid"
  obtains tid where "t_Name t = qid @ ''/tasks/'' @ tid" "t_ID t = t_Name t" "slash \<notin> set tid"
  using assms that task_id_plain [OF _ assms(2)]
  by (force simp: rest_task_validated_def Let_def split: sum.splits option.splits if_splits)

definition request_to :: "string \<Rightarrow> string list \<Rightarrow> string \<Rightarrow> request" where
  "request_to meth path body =
     \<lparr>rq_method = meth, rq_path = path, rq_query = (\<lambda>_. []), rq_form = (\<lambda>_. []), rq_body = body\<rparr>"

lemma tp_Name_response [simp]: "tp_Name (toTaskResponse t) = t_Name t"
  by (simp add: toTaskResponse_def Let_def)

text \<open>
  C11: the life of a task over HTTP. When the body of a POST to the tasks of a queue is accepted and
  the name is free, the reply carries a name; a GET of the path made of that name is routed to the
  same task and gives the same reply, a DELETE of it succeeds, and a GET after it is answered 404.
\<close>

theorem http_task_lifecycle:
  assumes "db_ok d" "list_all (\<lambda>s. s \<noteq> [] \<and> slash \<notin> set s) [pr, l, q]" "slash \<notin> set (ev_uuid v)"
    and "rest_task_validated E cfg (ev_now v) (ev_uuid v) (queue_path pr l q) (ev_task v body) = Inr t"
    and "find_queue (queue_path pr l q) d \<noteq> None \<or> AutoCreateQueues cfg \<and> queue_ValidateName E q = None"
    and "find_task (t_Name t) d = None"
  shows "\<exists>resp d1 d2. serve E cfg v (request_to ''POST'' (''v2'' # segments (queue_path pr l q) @ [''tasks'']) body) d
        = (TaskReply (writeJSON 200 resp), None, d1)
    \<and> serve E cfg w (request_to ''GET'' (''v2'' # segments (tp_Name resp)) []) d1 = (TaskReply (writeJSON 200 resp), None, d1)
    \<and> serve E cfg w (request_to ''DELETE'' (''v2'' # segments (tp_Name resp)) []) d1 = (EmptyReply (writeJSON 200 ()), None, d2)
    \<and> serve E cfg w (request_to ''GET'' (''v2'' # segments (tp_Name resp)) []) d2
        = (TaskReply (writeError 404 ''NOT_FOUND'' ''task not found''), None, d2)"
proof -
  have names: "pr \<noteq> []" "l \<noteq> []" "slash \<notin> set pr" "slash \<notin> set l" "slash \<notin> set q" using assms(2) by simp_all
  obtain tid where tid: "t_Name t = queue_path pr l q @ ''/tasks/'' @ tid" "t_ID t = t_Name t" "slash \<notin> set tid"
    by (rule validated_name [OF assms(4,3)])
  let ?p = "\<lparr>pv_project = pr, pv_location = l, pv_queue = q, pv_task = [], pv_job = []\<rparr>"
  let ?pt = "?p\<lparr>pv_task := tid\<rparr>"
  let ?r = "task_insert_row E (ev_wall v) t"
  have qid: "queueIDFrom cfg ?p = queue_path pr l q" "task_name_from cfg ?pt (pv_task ?pt) = t_Name t"
    using names tid(1) by (simp_all add: queueIDFrom_def or_default_def task_name_from_def)
  obtain d1 where d1: "rest_task_Create E cfg (ev_now v) (ev_wall v) (ev_uuid v) ?p (ev_task v body) d
        = (writeJSON 200 (toTaskResponse (scanTask E ?r)), d1)"
      "find_task (t_Name t) d1 = Some ?r" "db_ok d1"
    using rest_create_effect [OF assms(1), of E cfg "ev_now v" "ev_uuid v" ?p "ev_task v body" t "ev_wall v"] names assms(4-6)
    by (auto simp: qid split: prod.splits)
  let ?resp = "toTaskResponse (scanTask E ?r)"
  have n: "tp_Name ?resp = queue_path pr l q @ ''/tasks/'' @ tid" using tid by (simp add: scanTask_def task_insert_row_def)
  have g: "rest_task_Get E cfg ?pt d1 = (writeJSON 200 ?resp, d1)"
    using d1(2) unfolding rest_task_Get_def qid by (simp add: task_Get_lookup [OF d1(3)] task_lookup_def)
  let ?d2 = "d1\<lparr>task_tbl := rows_delete (\<lambda>r. tr_id r = t_Name t) (task_tbl d1)\<rparr>"
  have del: "rest_task_Delete cfg ?pt d1 = (writeJSON 200 (), ?d2)"
    using d1(2) unfolding rest_task_Delete_def qid by (simp add: task_Delete_ok [OF d1(3)])
  have "db_ok ?d2" and "task_lookup E (t_Name t) ?d2 = None"
    using task_repo.remove_map(1,2) [OF d1(3), of "t_Name t"] d1(2) task_Delete_ok [OF d1(3), of "t_Name t"] by (auto simp: fun_eq_iff)
  then have g2: "rest_task_Get E cfg ?pt ?d2 = (writeError 404 ''NOT_FOUND'' ''task not found'', ?d2)"
    unfolding rest_task_Get_def qid by (simp add: task_Get_lookup)
  note R = task_routes [OF names(3-5)]
  show ?thesis
  proof (intro exI conjI)
    show "serve E cfg v (request_to ''POST'' (''v2'' # segments (queue_path pr l q) @ [''tasks'']) body) d
        = (TaskReply (writeJSON 200 ?resp), None, d1)"
      using R(1) [OF tid(3)] d1(1) by (simp add: serve_def request_to_def served_def)
    show "serve E cfg w (request_to ''GET'' (''v2'' # segments (tp_Name ?resp)) []) d1 = (TaskReply (writeJSON 200 ?resp), None, d1)"
      using R(2) [OF tid(3)] g unfolding n by (simp add: serve_def request_to_def served_def)
    show "serve E cfg w (request_to ''DELETE'' (''v2'' # segments (tp_Name ?resp)) []) d1 = (EmptyReply (writeJSON 200 ()), None, ?d2)"
      using R(3) [OF tid(3)] del unfolding n by (simp add: serve_def request_to_def served_def)
    show "serve E cfg w (request_to ''GET'' (''v2'' # segments (tp_Name ?resp)) []) ?d2
        = (TaskReply (writeError 404 ''NOT_FOUND'' ''task not found''), None, ?d2)"
      using R(2) [OF tid(3)] g2 unfolding n by (simp add: serve_def request_to_def served_def)
  qed
qed

definition demo_env :: env where
  "demo_env = \<lparr>ev_now = 0, ev_wall = 0, ev_uuid = ''u'', ev_queue = (\<lambda>_. Inr None), ev_task = (\<lambda>_. demo_request),
     ev_job = (\<lambda>s. Inl s), ev_escape = (\<lambda>s. s), ev_utf8 = (\<lambda>_. True), ev_indent = (\<lambda>_. None)\<rparr>"

theorem http_task_lifecycle_witness:
  "\<exists>resp d1 d2. serve demo_ext (Load (\<lambda>_. [])) demo_env
        (request_to ''POST'' [''v2'', ''projects'', ''p'', ''locations'', ''l'', ''queues'', ''q'', ''tasks''] []) empty_db
        = (TaskReply (writeJSON 200 resp), None, d1)
    \<and> serve demo_ext (Load (\<lambda>_. [])) demo_env (request_to ''GET'' (''v2'' # segments (tp_Name resp)) []) d1
        = (TaskReply (writeJSON 200 resp), None, d1)
    \<and> serve demo_ext (Load (\<lambda>_. [])) demo_env (request_to ''DELETE'' (''v2'' # segments (tp_Name resp)) []) d1
        = (EmptyReply (writeJSON 200 ()), None, d2)"
proof -
  let ?c = "Load (\<lambda>_. [])"
  have "AutoCreateQueues ?c" by code_simp
  moreover have "queue_ValidateName demo_ext ''q'' = None"
    by (simp add: queue_ValidateName_def match_name_def name_char_def)
  ultimately have a: "find_queue (queue_path ''p'' ''l'' ''q'') empty_db \<noteq> None
      \<or> AutoCreateQueues ?c \<and> queue_ValidateName demo_ext ''q'' = None" by blast
  have v: "rest_task_validated demo_ext ?c (ev_now demo_env) (ev_uuid demo_env) qid (ev_task demo_env [])
      = rest_task_validated demo_ext ?c 0 ''u'' qid demo_request" for qid
    by (simp add: demo_env_def)
  have f: "find_task n empty_db = None" for n by (simp add: find_task_def empty_db_def)
  have sl: "list_all (\<lambda>s. s \<noteq> [] \<and> slash \<notin> set s) [''p'', ''l'', ''q'']" by code_simp
  have u: "slash \<notin> set (ev_uuid demo_env)" by (simp add: demo_env_def)
  have seg: "segments (queue_path ''p'' ''l'' ''q'') = [''projects'', ''p'', ''locations'', ''l'', ''queues'', ''q'']"
    by code_simp
  from http_task_lifecycle [OF empty_db_ok sl u v [THEN trans, OF demo_validated] a f, of demo_env]
  show ?thesis unfolding seg append.simps by blast
qed

end
