(* ===== verification/Spec2Isabelle.thy ===== *)
theory Spec2Isabelle
  imports Repo_Props Sched_Props Worker_Props Grpc_Props Process Ui_Props Http_Props
begin

text \<open>
  A verification development for the emulator of Cloud Tasks and Cloud Scheduler under src/.

  \<^bold>\<open>The program.\<close> One process holds an SQLite database of three tables (queues, tasks, jobs). REST
  handlers (internal/api), two gRPC services (internal/grpcserver) and the admin pages
  (internal/ui) change it through the repositories of internal/queues, internal/tasks and
  internal/scheduler; jobs through the service of internal/scheduler. Two loops run beside them: the
  worker (internal/worker) claims due tasks and sends them to their targets, and the scheduler's
  runner and dispatcher send jobs when they are due. internal/auth makes the bearer token both
  attach, internal/config reads the settings, internal/db opens the database.

  \<^bold>\<open>Theories and code.\<close>
  \<^item> \<^verbatim>\<open>Emu_Prelude\<close>, \<^verbatim>\<open>Go_Strconv\<close>, \<^verbatim>\<open>Go_Time\<close>, \<^verbatim>\<open>Go_Float\<close>, \<^verbatim>\<open>Float64\<close>: what the source uses of Go
    and its standard library. A string is a list of bytes, an \<^verbatim>\<open>int\<close> or \<^verbatim>\<open>int64\<close> an integer with
    \<^const>\<open>i64\<close> where it can wrap, an instant or a duration its nanoseconds, a \<^verbatim>\<open>float64\<close> a rational
    rounded after each operation.
  \<^item> \<^verbatim>\<open>Externals\<close>: the code the emulator calls and does not contain, as the record \<^typ>\<open>ext\<close> of
    functions that definitions take as their argument, and what is relied on of it.
  \<^item> \<^verbatim>\<open>Database\<close>: the rows as the columns store them, and the single statement. A database carries
    a script that says which of the next statements fail and how, so every error branch of the
    code is reachable in the model; \<^const>\<open>db_ok\<close> is a well-formed database whose script is empty.
    \<^verbatim>\<open>Db_Schema\<close>: the migrations of internal/db/db.go.
  \<^item> \<^verbatim>\<open>Repo_Spec\<close>: the contracts of a repository and of a claim, as locales. \<^verbatim>\<open>Queues\<close>, \<^verbatim>\<open>Tasks\<close>
    (queues/ and tasks/: model.go, repository.go): records, name rules and one definition per
    method, \<^verbatim>\<open>queue_X\<close> and \<^verbatim>\<open>task_X\<close>, with the interpretations of the contracts.
  \<^item> \<^verbatim>\<open>Sched_Model\<close>, \<^verbatim>\<open>Sched_Repo\<close>, \<^verbatim>\<open>Sched_Service\<close>, \<^verbatim>\<open>Sched_Dispatch\<close>: scheduler/model.go,
    repository.go, service.go, and dispatcher.go with runner.go. \<^verbatim>\<open>job_X\<close> is the method of the
    repository, \<^verbatim>\<open>svc_X\<close> that of the service. \<^verbatim>\<open>Sched_Shared\<close>: two step relations, the runner beside
    concurrent requests, and the goroutines that share one service through \<^verbatim>\<open>ForDB\<close>.
  \<^item> \<^verbatim>\<open>Auth_Config\<close>: internal/auth/token.go and internal/config/config.go.
  \<^item> \<^verbatim>\<open>Worker\<close>, \<^verbatim>\<open>Worker_Run\<close>, \<^verbatim>\<open>Worker_Live\<close>: internal/worker/worker.go, first as the sections of
    code between two synchronisation points, then as a step relation in which the poll, the
    dispatches and the requests interleave.
  \<^item> \<^verbatim>\<open>Process\<close>: the \<^verbatim>\<open>Run\<close> loops of worker and runner over the events their select takes, and
    \<^const>\<open>main\<close> of cmd/server/main.go as the sequence of what it starts and stops.
  \<^item> \<^verbatim>\<open>Rest_Base\<close>, \<^verbatim>\<open>Rest_Queues\<close>, \<^verbatim>\<open>Rest_Tasks\<close>, \<^verbatim>\<open>Rest_Jobs\<close>: the handlers of internal/api, from the
    path and the decoded request to the reply; \<^verbatim>\<open>Grpc_Base\<close>, \<^verbatim>\<open>Grpc_Tasks\<close>, \<^verbatim>\<open>Grpc_Jobs\<close> those of
    internal/grpcserver; \<^verbatim>\<open>Ui_Tasks\<close>, \<^verbatim>\<open>Ui_Jobs\<close> those of internal/ui. \<^verbatim>\<open>Router\<close>: the table of
    api/router.go, the matching of the mux, and \<^const>\<open>serve\<close>, the HTTP server composed of all of it.
  \<^item> \<^verbatim>\<open>Repo_Props\<close>, \<^verbatim>\<open>Sched_Props\<close>, \<^verbatim>\<open>Worker_Props\<close>, \<^verbatim>\<open>Rest_Props\<close>, \<^verbatim>\<open>Grpc_Props\<close>, \<^verbatim>\<open>Ui_Props\<close>, \<^verbatim>\<open>Http_Props\<close>
    and the ends of \<^verbatim>\<open>Db_Schema\<close> and of the sections of \<^verbatim>\<open>Sched_Shared\<close>: the properties, each over the lemmas of the theories above.

  \<^bold>\<open>What is shown.\<close>
  \<^item> Repositories: Create, Get and Delete are a partial map; a deletion is all or nothing under any
    failure; stored times order as text as they do in time; pages partition the listing; a task
    or the run of a job is claimed by one of any number of callers.
  \<^item> Scheduler: under any interleaving with stale reads and failures every stored job satisfies
    \<^verbatim>\<open>job_row_ok\<close>, the rules of Validate field by field, an enabled job has a next run and a paused one
    has none; a tick starts each due job once and leaves none due. Over any history on stale rows and
    clocks a run is started twice only for a job whose next run a request wrote after reading the clock
    before an earlier run was started, and then it can be. Executions of a job exclude each other,
    whoever starts them; an execution makes between one and RetryCount + 1 attempts; the backoff keeps
    its bounds where the numbers fit, and is no wait at all from 64 doublings on; the result of every
    update mask is given exactly.
  \<^item> Worker: under every interleaving a task has at most one dispatch and is RUNNING meanwhile, unless
    a request deleted its row during a dispatch (a history variable collects these tasks); the limits
    of the worker and of each queue hold; a poll with a free slot starts what is due and within the
    limits of its queue; a dispatch records its outcome and nothing else, and a failing task is sent
    MaxRetries + 1 times.
  \<^item> Front ends: refused requests change nothing, accepted ones store what they describe, REST and gRPC
    agree on requests with a deadline in whole seconds or none (they round fractions differently), a
    client that follows page tokens sees every task once, bodies and names read back; the routes are
    unambiguous, and a task can be created, read, deleted and is then gone under the address its reply
    names; the page of a queue shows the right tasks, counts, tabs and links.
  \<^item> Schema: the migrations can be interrupted anywhere and run again.

  \<^bold>\<open>Parameters and bounds.\<close> The clocks a call reads are arguments, \<^verbatim>\<open>now\<close> for the one of the package and
  \<^verbatim>\<open>wall\<close> for the one of the repository; so are fresh identifiers, decoded JSON (or the decoder's
  error text) and, for dispatches, the answers of the target. Loops of the code are structural
  recursions. The one recursion with fuel is the client \<^verbatim>\<open>rest_all_pages\<close>, for which one request more
  than there are tasks is shown to be enough. Numeric hypotheses keep counters in the range of the
  machine: tables shorter than \<^term>\<open>2 ^ 57 :: nat\<close> rows, rates and caps up to \<^term>\<open>2 ^ 53 :: int\<close>, years of four
  digits where the text of a time is compared.

  \<^bold>\<open>Not modelled.\<close> Listeners, timers and the delivery of signals; the HTML templates and what a browser
  makes of their forms; the cleaning of request paths by net/http and the encoding of query strings by
  net/url; JSON and protocol buffer coding, SQLite itself, cron expressions, time
  zones and HMAC, which are not in the sources; logging.
\<close>

end
